(* ===== verification/Sworn_Prelude.thy ===== *)
theory Sworn_Prelude
  imports Main "HOL-Library.Word" "HOL-Library.Multiset" "HOL-Library.Code_Target_Numeral"
begin

text \<open>
  Shared vocabulary of the development: the machine-integer types of the source, the
  result type of fallible and panicking code with the \<open>?\<close> operator, generic facts on
  lists, and an interface that several components rely on: \<open>keyed_scan\<close> and its extension
  \<open>keyed_table\<close>, a loop that reads items one by one and stops at the first repeated key
  (record tags, header buckets and payload keys are read this way).
\<close>

section \<open>Machine integers\<close>

type_synonym u8 = "8 word"
type_synonym u16 = "16 word"
type_synonym u64 = "64 word"
type_synonym i64 = "64 word"
type_synonym u128 = "128 word"

section \<open>Results\<close>

text \<open>
  \<open>Result<T, E>\<close> of the source, with a third case for an unwinding panic
  (\<open>expect\<close>, an index out of range): nothing in the source catches one.
\<close>

datatype ('a, 'e) result = Ok 'a | Err 'e | Panic

text \<open>The \<open>?\<close> operator.\<close>

fun and_then :: "('a, 'e) result \<Rightarrow> ('a \<Rightarrow> ('b, 'e) result) \<Rightarrow> ('b, 'e) result" where
  "and_then (Ok x) f = f x"
| "and_then (Err e) f = Err e"
| "and_then Panic f = Panic"

text \<open>In evaluation the continuation is looked at only when it is reached.\<close>

lemma and_then_case [code_unfold]:
  "and_then r f = (case r of Ok x \<Rightarrow> f x | Err e \<Rightarrow> Err e | Panic \<Rightarrow> Panic)"
  by (cases r) simp_all

text \<open>\<open>ok_or\<close> and \<open>expect\<close> on an \<open>Option\<close>.\<close>

fun ok_or :: "'a option \<Rightarrow> 'e \<Rightarrow> ('a, 'e) result" where
  "ok_or (Some x) e = Ok x"
| "ok_or None e = Err e"

fun expect :: "'a option \<Rightarrow> ('a, 'e) result" where
  "expect (Some x) = Ok x"
| "expect None = Panic"

text \<open>\<open>map_err\<close>.\<close>

fun map_err :: "('e \<Rightarrow> 'f) \<Rightarrow> ('a, 'e) result \<Rightarrow> ('a, 'f) result" where
  "map_err f (Ok x) = Ok x"
| "map_err f (Err e) = Err (f e)"
| "map_err f Panic = Panic"

named_theorems ok_iff \<open>when a fallible operation returns Ok, Err or panics\<close>

lemma and_then_Ok_iff [ok_iff]: "and_then m f = Ok y \<longleftrightarrow> (\<exists>x. m = Ok x \<and> f x = Ok y)"
  by (cases m) auto

lemma and_then_Err_iff [ok_iff]:
  "and_then m f = Err e \<longleftrightarrow> m = Err e \<or> (\<exists>x. m = Ok x \<and> f x = Err e)"
  by (cases m) auto

lemma and_then_Panic_iff [ok_iff]:
  "and_then m f = Panic \<longleftrightarrow> m = Panic \<or> (\<exists>x. m = Ok x \<and> f x = Panic)"
  by (cases m) auto

lemma ok_or_Ok_iff [ok_iff]: "ok_or x e = Ok y \<longleftrightarrow> x = Some y"
  by (cases x) auto

lemma ok_or_Err_iff [ok_iff]: "ok_or x e = Err e' \<longleftrightarrow> x = None \<and> e' = e"
  by (cases x) auto

lemma ok_or_Panic [ok_iff]: "ok_or x e \<noteq> Panic"
  by (cases x) auto

lemma expect_Ok_iff [ok_iff]: "expect x = Ok y \<longleftrightarrow> x = Some y"
  by (cases x) auto

lemma expect_Err_iff [ok_iff]: "expect x \<noteq> Err e"
  by (cases x) auto

lemma expect_Panic_iff [ok_iff]: "expect x = Panic \<longleftrightarrow> x = None"
  by (cases x) auto

lemma map_err_Ok_iff [ok_iff]: "map_err f m = Ok y \<longleftrightarrow> m = Ok y"
  by (cases m) auto

lemma map_err_Err_iff [ok_iff]: "map_err f m = Err e \<longleftrightarrow> (\<exists>e'. m = Err e' \<and> e = f e')"
  by (cases m) auto

lemma map_err_Panic_iff [ok_iff]: "map_err f m = Panic \<longleftrightarrow> m = Panic"
  by (cases m) auto

lemma and_then_assoc: "and_then (and_then m f) g = and_then m (\<lambda>x. and_then (f x) g)"
  by (cases m) auto

lemma and_then_cong [fundef_cong]:
  "m = m' \<Longrightarrow> (\<And>x. m' = Ok x \<Longrightarrow> f x = g x) \<Longrightarrow> and_then m f = and_then m' g"
  by (cases m') auto

text \<open>\<open>Result::ok\<close> and \<open>is_ok\<close>.\<close>

fun ok :: "('a, 'e) result \<Rightarrow> 'a option" where
  "ok (Ok x) = Some x"
| "ok _ = None"

text \<open>A list of checks, each with the error it gives when it fails: the first failure decides.\<close>

definition first_reason :: "(bool \<times> 'e) list \<Rightarrow> 'e option" where
  "first_reason checks = map_option snd (find fst checks)"

lemma first_reason_simps [simp]:
  "first_reason [] = None"
  "first_reason ((failed, e) # checks) = (if failed then Some e else first_reason checks)"
  by (simp_all add: first_reason_def)

section \<open>Lists\<close>

lemma mset_map_filter:
  "mset (List.map_filter f xs) = image_mset (the \<circ> f) (filter_mset (\<lambda>x. f x \<noteq> None) (mset xs))"
  by (simp only: List.map_filter_def mset_map mset_filter)

lemma mset_map_filter_cong:
  "mset ys = mset xs \<Longrightarrow> mset (List.map_filter f ys) = mset (List.map_filter f xs)"
  by (simp only: mset_map_filter)

lemma in_set_map_filter [simp]: "y \<in> set (List.map_filter f xs) \<longleftrightarrow> (\<exists>x\<in>set xs. f x = Some y)"
  by (induction xs) (auto simp: map_filter_simps split: option.splits)

section \<open>A loop that rejects repeated keys\<close>

text \<open>
  \<open>scan s xs\<close> runs the loop from state \<open>s\<close>: every item must pass \<open>good\<close>; an item whose
  \<open>item\<close> is \<open>None\<close> is skipped, one with key \<open>k\<close> must not have been seen, and is then
  recorded by \<open>upd\<close>.
\<close>

locale keyed_scan =
  fixes scan :: "'s \<Rightarrow> 'x list \<Rightarrow> ('s, 'e) result"
    and keys :: "'s \<Rightarrow> 'k list"
    and good :: "'x \<Rightarrow> bool"
    and item :: "'x \<Rightarrow> 'k option"
    and upd :: "'s \<Rightarrow> 'x \<Rightarrow> 's"
  assumes scan_Nil: "scan s [] = Ok s"
    and scan_Cons: "scan s (x # xs) = Ok r \<longleftrightarrow>
      good x \<and> (case item x of None \<Rightarrow> scan s xs = Ok r
        | Some k \<Rightarrow> k \<notin> set (keys s) \<and> scan (upd s x) xs = Ok r)"
    and keys_upd: "item x = Some k \<Longrightarrow> keys (upd s x) = keys s @ [k]"
begin

lemma scan_Ok_iff:
  "distinct (keys s) \<Longrightarrow>
   scan s xs = Ok r \<longleftrightarrow>
     list_all good xs \<and> distinct (keys s @ List.map_filter item xs) \<and>
     r = foldl upd s (filter (\<lambda>x. item x \<noteq> None) xs)"
proof (induction xs arbitrary: s)
  case Nil
  then show ?case by (auto simp: scan_Nil map_filter_simps)
next
  case (Cons x xs)
  show ?case
  proof (cases "item x")
    case None
    with Cons show ?thesis by (auto simp: scan_Cons map_filter_simps)
  next
    case (Some k)
    show ?thesis
    proof (cases "k \<in> set (keys s)")
      case True
      with Some show ?thesis by (auto simp: scan_Cons map_filter_simps)
    next
      case False
      with Cons.prems Some have d: "distinct (keys (upd s x))" by (simp add: keys_upd)
      show ?thesis
        using Cons.IH [OF d] False Some
        by (auto simp: scan_Cons map_filter_simps keys_upd)
    qed
  qed
qed

lemma scan_keys:
  assumes "distinct (keys s)" and "scan s xs = Ok r"
  shows "keys r = keys s @ List.map_filter item xs"
proof -
  have "keys (foldl upd s (filter (\<lambda>x. item x \<noteq> None) xs)) = keys s @ List.map_filter item xs"
    by (induction xs arbitrary: s) (auto simp: map_filter_simps keys_upd split: option.splits)
  then show ?thesis using assms scan_Ok_iff by metis
qed

lemma scan_distinct: "distinct (keys s) \<Longrightarrow> scan s xs = Ok r \<Longrightarrow> distinct (keys r)"
  using scan_Ok_iff scan_keys by metis

lemma scan_good: "distinct (keys s) \<Longrightarrow> scan s xs = Ok r \<Longrightarrow> x \<in> set xs \<Longrightarrow> good x"
  by (simp add: scan_Ok_iff list_all_iff)

lemma scan_repeated:
  assumes "distinct (keys s)" and "item x = Some k" and "item y = Some k"
  shows "scan s (us @ x # vs @ y # ws) \<noteq> Ok r"
  using assms by (auto simp: scan_Ok_iff map_filter_simps List.map_filter_def)

lemma scan_Ok_mset:
  assumes "distinct (keys s)" and "mset ys = mset xs" and "scan s xs = Ok r"
  shows "\<exists>r'. scan s ys = Ok r'"
proof -
  have "mset (List.map_filter item ys) = mset (List.map_filter item xs)"
    using assms(2) by (rule mset_map_filter_cong)
  then have "distinct (keys s @ List.map_filter item ys)"
    using assms(1,3) by (metis scan_Ok_iff mset_append mset_eq_imp_distinct_iff)
  moreover have "list_all good ys"
    using assms by (metis scan_Ok_iff list_all_iff mset_eq_setD)
  ultimately show ?thesis using assms(1) scan_Ok_iff by blast
qed

end

text \<open>The same loop when its state is a table of key/value pairs in the order read.\<close>

locale keyed_table =
  keyed_scan scan "map fst" good item "\<lambda>t x. t @ [(the (item x), val x)]"
  for scan :: "('k \<times> 'v) list \<Rightarrow> 'x list \<Rightarrow> (('k \<times> 'v) list, 'e) result"
    and good :: "'x \<Rightarrow> bool" and item :: "'x \<Rightarrow> 'k option" and val :: "'x \<Rightarrow> 'v"
begin

definition entry :: "'x \<Rightarrow> ('k \<times> 'v) option" where
  "entry x = map_option (\<lambda>k. (k, val x)) (item x)"

lemma table_Ok_iff:
  "scan [] xs = Ok t \<longleftrightarrow>
     list_all good xs \<and> distinct (List.map_filter item xs) \<and> t = List.map_filter entry xs"
proof -
  have "foldl (\<lambda>t x. t @ [(the (item x), val x)]) t (filter (\<lambda>x. item x \<noteq> None) xs)
      = t @ List.map_filter entry xs" for t
    by (induction xs arbitrary: t) (auto simp: map_filter_simps entry_def split: option.splits)
  then show ?thesis by (simp add: scan_Ok_iff)
qed

lemma table_distinct: "scan [] xs = Ok t \<Longrightarrow> distinct (map fst t)"
  using scan_distinct by force

lemma table_lookup:
  "scan [] xs = Ok t \<Longrightarrow> x \<in> set xs \<Longrightarrow> item x = Some k \<Longrightarrow> map_of t k = Some (val x)"
  by (rule map_of_is_SomeI, erule table_distinct) (force simp: table_Ok_iff entry_def)

end

end
