(* ===== verification/Sworn_Prefix.thy ===== *)
theory Sworn_Prefix
  imports Sworn_Prelude
begin

text \<open>
  The interface between address arithmetic and everything that reasons about prefixes: a
  truncation \<open>msk\<close> of an address to a length. Its one law gives the tree structure of
  prefixes: blocks of addresses with the same truncation are nested or disjoint. The
  second locale adds that a longer length really distinguishes more addresses, so that
  inclusion of blocks is decided by the two truncations.
\<close>

locale prefix_mask =
  fixes msk :: "'a \<Rightarrow> 'l::linorder \<Rightarrow> 'a"
  assumes msk_msk: "msk (msk a m) n = msk a (min m n)"
begin

definition block :: "'a \<Rightarrow> 'l \<Rightarrow> 'a set" where
  "block a l = {x. msk x l = msk a l}"

lemma msk_idem: "msk (msk a l) l = msk a l"
  by (simp add: msk_msk)

lemma in_block: "x \<in> block a l \<longleftrightarrow> msk x l = msk a l"
  by (simp add: block_def)

lemma block_self: "a \<in> block a l"
  by (simp add: block_def)

lemma msk_in_block: "msk a l \<in> block a l"
  by (simp add: block_def msk_idem)

lemma block_msk: "block (msk a l) l = block a l"
  by (simp add: block_def msk_idem)

lemma msk_coarser: "msk a m = msk b m \<Longrightarrow> n \<le> m \<Longrightarrow> msk a n = msk b n"
  by (metis min.absorb2 msk_msk)

lemma block_antimono: "n \<le> m \<Longrightarrow> block a m \<subseteq> block a n"
  by (auto simp: block_def intro: msk_coarser)

lemma block_within: "b \<in> block a n \<Longrightarrow> n \<le> m \<Longrightarrow> block b m \<subseteq> block a n"
  by (metis block_antimono block_def in_block mem_Collect_eq subsetI subset_iff)

lemma blocks_meet_iff: "block a m \<inter> block b n \<noteq> {} \<longleftrightarrow> msk a (min m n) = msk b (min m n)"
proof
  assume "block a m \<inter> block b n \<noteq> {}"
  then obtain x where "msk x m = msk a m" and "msk x n = msk b n"
    by (auto simp: block_def)
  then show "msk a (min m n) = msk b (min m n)"
    by (metis min.cobounded1 min.cobounded2 msk_coarser)
next
  assume e: "msk a (min m n) = msk b (min m n)"
  show "block a m \<inter> block b n \<noteq> {}"
  proof (cases "m \<le> n")
    case True
    with e have "b \<in> block a m" by (simp add: block_def min_def)
    then show ?thesis using block_self by blast
  next
    case False
    with e have "a \<in> block b n" by (simp add: block_def min_def)
    then show ?thesis using block_self by blast
  qed
qed

lemma blocks_nested_or_disjoint:
  "block a m \<inter> block b n = {} \<or> block a m \<subseteq> block b n \<or> block b n \<subseteq> block a m"
  by (cases "m \<le> n") (metis blocks_meet_iff block_within in_block min.absorb1 min.absorb2 nle_le)+

end

locale strict_prefix_mask = prefix_mask +
  fixes top :: 'b
  assumes msk_splits: "n < m \<Longrightarrow> m \<le> top \<Longrightarrow> \<exists>b. msk b n = msk a n \<and> msk b m \<noteq> msk a m"
begin

lemma block_subset_iff:
  assumes "n \<le> top"
  shows "block b m \<subseteq> block a n \<longleftrightarrow> n \<le> m \<and> b \<in> block a n"
proof
  assume s: "block b m \<subseteq> block a n"
  have "n \<le> m"
  proof (rule ccontr)
    assume "\<not> n \<le> m"
    then obtain x where "msk x m = msk b m" and "msk x n \<noteq> msk b n"
      using msk_splits assms not_le by blast
    moreover from this(1) have "x \<in> block a n" using s by (auto simp: block_def)
    moreover have "b \<in> block a n" using s block_self by blast
    ultimately show False by (simp add: block_def)
  qed
  then show "n \<le> m \<and> b \<in> block a n" using s block_self by blast
next
  assume "n \<le> m \<and> b \<in> block a n"
  then show "block b m \<subseteq> block a n" by (auto intro: block_within [THEN subsetD])
qed

end

end
