(* ===== verification/Sworn_Str.thy ===== *)
theory Sworn_Str
  imports Sworn_Prelude
begin

text \<open>
  The operations of Rust's \<open>str\<close> and integer types that the source uses. A \<open>&str\<close> is a
  \<open>string\<close> whose characters are the octets of its UTF-8 encoding (so \<open>length\<close> is
  \<open>str::len\<close> and a character is one item of \<open>bytes()\<close>); a \<open>&[u8]\<close> is a \<open>u8 list\<close>.
  The lemmas show that splitting and joining are inverse, that \<open>trim\<close> only removes blanks
  from the ends, and that printing a number and reading it back is the identity.
\<close>

section \<open>Octet classes\<close>

definition code :: "char \<Rightarrow> nat" where
  "code c = of_char c"

definition is_ascii_digit :: "nat \<Rightarrow> bool" where
  "is_ascii_digit n \<longleftrightarrow> 48 \<le> n \<and> n \<le> 57"

definition is_ascii_alphanumeric :: "nat \<Rightarrow> bool" where
  "is_ascii_alphanumeric n \<longleftrightarrow>
     is_ascii_digit n \<or> (65 \<le> n \<and> n \<le> 90) \<or> (97 \<le> n \<and> n \<le> 122)"

definition to_ascii_lower :: "char \<Rightarrow> char" where
  "to_ascii_lower c = (if 65 \<le> code c \<and> code c \<le> 90 then char_of (code c + 32) else c)"

definition to_ascii_lowercase :: "string \<Rightarrow> string" where
  "to_ascii_lowercase s = map to_ascii_lower s"

text \<open>The octets of a byte slice read as a string, and a string literal as octets.\<close>

definition string_of_bytes :: "u8 list \<Rightarrow> string" where
  "string_of_bytes bs = map (\<lambda>b. char_of (unat b)) bs"

definition bytes_of_string :: "string \<Rightarrow> u8 list" where
  "bytes_of_string s = map (\<lambda>c. of_nat (code c)) s"

lemma code_less [simp]: "code c < 256"
  by (simp add: code_def)

lemma code_char_of [simp]: "n < 256 \<Longrightarrow> code (char_of n) = n"
  by (simp add: code_def)

lemma char_of_code [simp]: "char_of (code c) = c"
  by (simp add: code_def)

lemma code_inject [simp]: "code c = code d \<longleftrightarrow> c = d"
  by (metis char_of_code)

lemma unat_u8_less: "unat (b :: u8) < 256"
  using unsigned_less [of b] by simp

lemma bytes_of_string_of_bytes [simp]: "bytes_of_string (string_of_bytes bs) = bs"
  by (simp add: bytes_of_string_def string_of_bytes_def unat_u8_less map_idI)

lemma string_of_bytes_of_string [simp]: "string_of_bytes (bytes_of_string s) = s"
proof -
  have "unat (of_nat (code c) :: u8) = code c" for c
    by (simp add: unat_of_nat take_bit_nat_eq_self)
  then show ?thesis
    by (simp add: bytes_of_string_def string_of_bytes_def map_idI)
qed

lemma string_of_bytes_inject [simp]: "string_of_bytes a = string_of_bytes b \<longleftrightarrow> a = b"
  by (metis bytes_of_string_of_bytes)

lemma length_string_of_bytes [simp]: "length (string_of_bytes bs) = length bs"
  by (simp add: string_of_bytes_def)

lemma code_to_ascii_lower:
  "code (to_ascii_lower c) = (if 65 \<le> code c \<and> code c \<le> 90 then code c + 32 else code c)"
  by (simp add: to_ascii_lower_def)

lemma to_ascii_lower_idem [simp]: "to_ascii_lower (to_ascii_lower c) = to_ascii_lower c"
  by (simp add: to_ascii_lower_def)

lemma to_ascii_lowercase_idem [simp]:
  "to_ascii_lowercase (to_ascii_lowercase s) = to_ascii_lowercase s"
  by (simp add: to_ascii_lowercase_def)

lemma length_to_ascii_lowercase [simp]: "length (to_ascii_lowercase s) = length s"
  by (simp add: to_ascii_lowercase_def)

lemma is_ascii_alphanumeric_lower [simp]:
  "is_ascii_alphanumeric (code (to_ascii_lower c)) = is_ascii_alphanumeric (code c)"
  by (auto simp: is_ascii_alphanumeric_def is_ascii_digit_def code_to_ascii_lower)

section \<open>Searching, splitting and joining\<close>

text \<open>\<open>str::split(d)\<close>: every separator ends a piece, so there is always a last one.\<close>

fun split_on :: "char \<Rightarrow> string \<Rightarrow> string list" where
  "split_on d [] = [[]]"
| "split_on d (c # s) =
     (if c = d then [] # split_on d s
      else (case split_on d s of [] \<Rightarrow> [[c]] | w # ws \<Rightarrow> (c # w) # ws))"

fun join :: "char \<Rightarrow> string list \<Rightarrow> string" where
  "join d [] = []"
| "join d [w] = w"
| "join d (w # v # ws) = w @ d # join d (v # ws)"

text \<open>\<open>str::split_once(d)\<close>: at the first separator.\<close>

fun split_once :: "char \<Rightarrow> string \<Rightarrow> (string \<times> string) option" where
  "split_once d [] = None"
| "split_once d (c # s) =
     (if c = d then Some ([], s)
      else (case split_once d s of None \<Rightarrow> None | Some (a, b) \<Rightarrow> Some (c # a, b)))"

fun strip_prefix :: "string \<Rightarrow> string \<Rightarrow> string option" where
  "strip_prefix [] s = Some s"
| "strip_prefix (p # ps) [] = None"
| "strip_prefix (p # ps) (c # s) = (if p = c then strip_prefix ps s else None)"

definition starts_with :: "string \<Rightarrow> char \<Rightarrow> bool" where
  "starts_with s c \<longleftrightarrow> (case s of [] \<Rightarrow> False | x # _ \<Rightarrow> x = c)"

definition ends_with :: "string \<Rightarrow> char \<Rightarrow> bool" where
  "ends_with s c \<longleftrightarrow> (case rev s of [] \<Rightarrow> False | x # _ \<Rightarrow> x = c)"

lemma split_on_nonempty [simp]: "split_on d s \<noteq> []"
  by (induction s) (auto split: list.splits)

lemma join_Cons: "ws \<noteq> [] \<Longrightarrow> join d (w # ws) = w @ d # join d ws"
  by (cases ws) auto

lemma join_split_on [simp]: "join d (split_on d s) = s"
proof (induction s)
  case (Cons c s)
  show ?case
  proof (cases "split_on d s")
    case (Cons w ws)
    with Cons.IH show ?thesis by (cases ws) auto
  qed simp
qed simp

lemma split_on_no_sep: "d \<notin> set s \<Longrightarrow> split_on d s = [s]"
  by (induction s) auto

lemma split_on_append_sep: "d \<notin> set w \<Longrightarrow> split_on d (w @ d # s) = w # split_on d s"
  by (induction w) auto

lemma split_on_join:
  "ws \<noteq> [] \<Longrightarrow> (\<And>w. w \<in> set ws \<Longrightarrow> d \<notin> set w) \<Longrightarrow> split_on d (join d ws) = ws"
proof (induction ws)
  case (Cons w ws)
  show ?case
  proof (cases "ws = []")
    case True
    with Cons.prems show ?thesis by (simp add: split_on_no_sep)
  next
    case False
    with Cons show ?thesis by (simp add: join_Cons split_on_append_sep)
  qed
qed simp

lemma split_on_pieces: "w \<in> set (split_on d s) \<Longrightarrow> d \<notin> set w"
proof (induction s arbitrary: w)
  case (Cons c s)
  then show ?case by (cases "split_on d s") (auto split: if_splits)
qed simp

lemma set_split_on: "w \<in> set (split_on d s) \<Longrightarrow> set w \<subseteq> set s"
proof (induction s arbitrary: w)
  case (Cons c s)
  then show ?case by (cases "split_on d s") (fastforce split: if_splits)+
qed simp

lemma set_subset_split_on: "c \<in> set s \<Longrightarrow> c = d \<or> (\<exists>w\<in>set (split_on d s). c \<in> set w)"
proof (induction s)
  case (Cons x s)
  then show ?case by (cases "split_on d s") auto
qed simp

lemma split_once_Some_iff:
  "split_once d s = Some (a, b) \<longleftrightarrow> s = a @ d # b \<and> d \<notin> set a"
proof (induction s arbitrary: a)
  case (Cons c s)
  show ?case
  proof (cases a)
    case Nil
    then show ?thesis by (auto split: option.splits)
  next
    case (Cons x a')
    then show ?thesis
      using Cons.IH [of a'] by (cases "split_once d s") auto
  qed
qed simp

lemma split_once_None_iff: "split_once d s = None \<longleftrightarrow> d \<notin> set s"
  by (induction s) (auto split: option.splits)

lemma strip_prefix_Some_iff: "strip_prefix p s = Some r \<longleftrightarrow> s = p @ r"
  by (induction p s rule: strip_prefix.induct) auto

lemma starts_with_Cons [simp]: "starts_with (x # s) c \<longleftrightarrow> x = c"
  by (simp add: starts_with_def)

lemma starts_with_Nil [simp]: "\<not> starts_with [] c"
  by (simp add: starts_with_def)

lemma ends_with_Nil [simp]: "\<not> ends_with [] c"
  by (simp add: ends_with_def)

lemma starts_with_iff: "starts_with s c \<longleftrightarrow> s \<noteq> [] \<and> hd s = c"
  by (cases s) (auto simp: starts_with_def)

lemma ends_with_iff: "ends_with s c \<longleftrightarrow> s \<noteq> [] \<and> last s = c"
  by (cases s rule: rev_cases) (auto simp: ends_with_def)

lemma ends_with_snoc [simp]: "ends_with (s @ [x]) c \<longleftrightarrow> x = c"
  by (simp add: ends_with_def)

section \<open>Trimming\<close>

text \<open>
  \<open>str::trim\<close> removes characters of the Unicode property White_Space from both ends. The
  UTF-8 encodings of all of them:
\<close>

definition white_space :: "nat list list" where
  "white_space = [[9], [10], [11], [12], [13], [32], [0xC2, 0x85], [0xC2, 0xA0],
     [0xE1, 0x9A, 0x80], [0xE2, 0x80, 0x80], [0xE2, 0x80, 0x81], [0xE2, 0x80, 0x82],
     [0xE2, 0x80, 0x83], [0xE2, 0x80, 0x84], [0xE2, 0x80, 0x85], [0xE2, 0x80, 0x86],
     [0xE2, 0x80, 0x87], [0xE2, 0x80, 0x88], [0xE2, 0x80, 0x89], [0xE2, 0x80, 0x8A],
     [0xE2, 0x80, 0xA8], [0xE2, 0x80, 0xA9], [0xE2, 0x80, 0xAF], [0xE2, 0x81, 0x9F],
     [0xE3, 0x80, 0x80]]"

definition ws_char :: "string \<Rightarrow> bool" where
  "ws_char w \<longleftrightarrow> map code w \<in> set white_space"

lemma ws_char_nonempty: "ws_char w \<Longrightarrow> w \<noteq> []"
  by (auto simp: ws_char_def white_space_def)

lemma ws_char_code [code]:
  "ws_char w =
     (case w of
        [] \<Rightarrow> False
      | c # cs \<Rightarrow>
          (let n = code c
           in if cs = [] then n = 32 \<or> (9 \<le> n \<and> n \<le> 13)
              else if n < 0xC2 then False else map code w \<in> set white_space))"
  by (cases w) (auto simp: ws_char_def white_space_def Let_def)

lemma ws_char_take_shorter: "ws_char (take k s) \<Longrightarrow> 0 < k \<and> s \<noteq> []"
  by (cases k) (auto dest: ws_char_nonempty)

lemma ws_char_last_shorter: "ws_char (drop (length s - k) s) \<Longrightarrow> 0 < k \<and> s \<noteq> []"
  by (cases k) (auto dest: ws_char_nonempty)

function trim_start :: "string \<Rightarrow> string" where
  "trim_start s =
     (if ws_char (take 1 s) then trim_start (drop 1 s)
      else if ws_char (take 2 s) then trim_start (drop 2 s)
      else if ws_char (take 3 s) then trim_start (drop 3 s)
      else s)"
  by pat_completeness auto
termination
  by (relation "measure length") (auto dest!: ws_char_take_shorter simp: diff_less)

function trim_end :: "string \<Rightarrow> string" where
  "trim_end s =
     (let n = length s in
      if ws_char (drop (n - 1) s) then trim_end (take (n - 1) s)
      else if ws_char (drop (n - 2) s) then trim_end (take (n - 2) s)
      else if ws_char (drop (n - 3) s) then trim_end (take (n - 3) s)
      else s)"
  by pat_completeness auto
termination
  by (relation "measure length") (auto dest!: ws_char_last_shorter simp: Let_def)

declare trim_start.simps [simp del] trim_end.simps [simp del]

definition trim :: "string \<Rightarrow> string" where
  "trim s = trim_end (trim_start s)"

text \<open>On records only SP and HTAB can occur as white space; there \<open>trim\<close> is simple.\<close>

definition is_blank :: "char \<Rightarrow> bool" where
  "is_blank c \<longleftrightarrow> code c = 32 \<or> code c = 9"

definition printable :: "char \<Rightarrow> bool" where
  "printable c \<longleftrightarrow> code c = 9 \<or> (0x20 \<le> code c \<and> code c \<le> 0x7E)"

lemma ws_char_printable:
  assumes "list_all printable w"
  shows "ws_char w \<longleftrightarrow> (\<exists>c. w = [c] \<and> is_blank c)"
proof
  assume "ws_char w"
  with assms show "\<exists>c. w = [c] \<and> is_blank c"
    by (auto simp: ws_char_def white_space_def printable_def is_blank_def map_eq_Cons_conv)
next
  assume "\<exists>c. w = [c] \<and> is_blank c"
  then show "ws_char w" by (auto simp: ws_char_def white_space_def is_blank_def)
qed

lemma trim_start_printable: "list_all printable s \<Longrightarrow> trim_start s = dropWhile is_blank s"
proof (induction s rule: length_induct)
  case (1 s)
  have t: "list_all printable (take k s)" for k
    using "1.prems" by (auto simp: list_all_iff dest: in_set_takeD)
  show ?case
  proof (cases s)
    case Nil
    then show ?thesis by (subst trim_start.simps) (auto dest: ws_char_nonempty)
  next
    case (Cons c s')
    show ?thesis
    proof (cases "is_blank c")
      case True
      then have "ws_char (take 1 s)" using ws_char_printable [OF t [of 1]] Cons by simp
      then show ?thesis
        using "1" Cons True by (subst trim_start.simps) simp
    next
      case False
      then have "\<not> ws_char (take k s)" for k
        using ws_char_printable [OF t [of k]] Cons by (cases k) auto
      then have "trim_start s = s" by (subst trim_start.simps) (simp only: if_False)
      then show ?thesis using Cons False by simp
    qed
  qed
qed

lemma trim_end_printable:
  "list_all printable s \<Longrightarrow> trim_end s = rev (dropWhile is_blank (rev s))"
proof (induction s rule: length_induct)
  case (1 s)
  have t: "list_all printable (drop k s)" for k
    using "1.prems" by (auto simp: list_all_iff dest: in_set_dropD)
  show ?case
  proof (cases s rule: rev_cases)
    case Nil
    then show ?thesis by (subst trim_end.simps) (auto simp: Let_def dest: ws_char_nonempty)
  next
    case (snoc s' c)
    show ?thesis
    proof (cases "is_blank c")
      case True
      then have "ws_char (drop (length s - 1) s)"
        using ws_char_printable [OF t [of "length s - 1"]] snoc by simp
      then show ?thesis
        using "1" snoc True by (subst trim_end.simps) (simp add: Let_def)
    next
      case False
      have "\<not> ws_char (drop k s)" for k
      proof
        assume "ws_char (drop k s)"
        then obtain d where d: "drop k s = [d]" "is_blank d"
          using ws_char_printable [OF t [of k]] by blast
        then have "last (drop k s) = d" by simp
        then have "d = c" using d(1) snoc by (metis drop_eq_Nil last_drop last_snoc list.distinct(1) not_le)
        then show False using d(2) False by simp
      qed
      then have "trim_end s = s" by (subst trim_end.simps) (simp only: Let_def if_False)
      then show ?thesis using snoc False by simp
    qed
  qed
qed

lemma in_set_dropWhile: "x \<in> set (dropWhile P s) \<Longrightarrow> x \<in> set s"
  by (induction s) (auto split: if_splits)

lemma trim_printable:
  assumes "list_all printable s"
  shows "trim s = rev (dropWhile is_blank (rev (dropWhile is_blank s)))"
proof -
  have "list_all printable (dropWhile is_blank s)"
    using assms by (auto simp: list_all_iff dest: in_set_dropWhile)
  then show ?thesis
    using assms by (simp add: trim_def trim_start_printable trim_end_printable)
qed

lemma dropWhile_hd: "s \<noteq> [] \<Longrightarrow> \<not> P (hd s) \<Longrightarrow> dropWhile P s = s"
  by (cases s) auto

lemma trim_no_blank_ends:
  assumes "list_all printable s"
    and "s \<noteq> [] \<Longrightarrow> \<not> is_blank (hd s)" and "s \<noteq> [] \<Longrightarrow> \<not> is_blank (last s)"
  shows "trim s = s"
proof (cases "s = []")
  case False
  then show ?thesis
    using assms by (simp add: trim_printable dropWhile_hd hd_rev)
qed (simp add: trim_printable)

lemma set_trim: "list_all printable s \<Longrightarrow> set (trim s) \<subseteq> set s"
  by (auto simp: trim_printable dest!: in_set_dropWhile)

lemma trim_ends:
  assumes "list_all printable s" and "trim s \<noteq> []"
  shows "\<not> is_blank (hd (trim s))" and "\<not> is_blank (last (trim s))"
proof -
  let ?a = "dropWhile is_blank s"
  let ?b = "dropWhile is_blank (rev ?a)"
  have b: "?b \<noteq> []" using assms(2) by (simp only: trim_printable [OF assms(1)]) simp
  show "\<not> is_blank (last (trim s))"
    using b hd_dropWhile [OF b] by (simp only: trim_printable [OF assms(1)] last_rev) simp
  have a: "?a \<noteq> []"
  proof
    assume "?a = []"
    then have "?b = []" by (simp only: rev.simps dropWhile.simps)
    with b show False ..
  qed
  obtain u where "rev ?a = u @ ?b" by (metis takeWhile_dropWhile_id)
  then have "?a = rev ?b @ rev u" by (metis rev_append rev_rev_ident)
  then have "hd ?a = hd (rev ?b)" using b by (metis hd_append2 rev_is_Nil_conv)
  moreover have "\<not> is_blank (hd ?a)" by (rule hd_dropWhile [OF a])
  ultimately show "\<not> is_blank (hd (trim s))" by (simp only: trim_printable [OF assms(1)]) simp
qed

end
