(* ===== verification/Sworn_Num.thy ===== *)
theory Sworn_Num
  imports Sworn_Str
begin

text \<open>
  Numbers as text: the digits of \<open>{}\<close> and \<open>{:x}\<close>, \<open>char::to_digit\<close>, \<open>str::parse\<close> for the
  integer types, and UTF-8 validation. The interface \<open>radix\<close> states what a digit
  alphabet must satisfy for printing and reading to be inverse; it is interpreted for
  decimal and for lower-case hexadecimal.
\<close>

section \<open>Digits\<close>

definition digit_char :: "nat \<Rightarrow> char" where
  "digit_char d = (if d < 10 then char_of (48 + d) else char_of (87 + d))"

text \<open>\<open>char::to_digit(radix)\<close> for a radix of at most 16.\<close>

definition to_digit :: "nat \<Rightarrow> char \<Rightarrow> nat option" where
  "to_digit r c =
     (let n = code c;
          d = (if is_ascii_digit n then Some (n - 48)
               else if 97 \<le> n \<and> n \<le> 102 then Some (n - 87)
               else if 65 \<le> n \<and> n \<le> 70 then Some (n - 55)
               else None)
      in case d of None \<Rightarrow> None | Some v \<Rightarrow> if v < r then Some v else None)"

text \<open>Printing in a radix, most significant digit first and without leading zeros.\<close>

fun fmt_radix :: "nat \<Rightarrow> nat \<Rightarrow> string" where
  "fmt_radix r n =
     (if r < 2 \<or> n < r then [digit_char n] else fmt_radix r (n div r) @ [digit_char (n mod r)])"

declare fmt_radix.simps [simp del]

text \<open>The value of a digit string, \<open>None\<close> at the first character that is no digit.\<close>

fun read_digits :: "nat \<Rightarrow> nat \<Rightarrow> string \<Rightarrow> nat option" where
  "read_digits r acc [] = Some acc"
| "read_digits r acc (c # s) =
     (case to_digit r c of None \<Rightarrow> None | Some d \<Rightarrow> read_digits r (acc * r + d) s)"

locale radix =
  fixes r :: nat
  assumes r_ge: "2 \<le> r"
    and to_digit_char: "d < r \<Longrightarrow> to_digit r (digit_char d) = Some d"
begin

lemma digit_char_inject: "a < r \<Longrightarrow> b < r \<Longrightarrow> digit_char a = digit_char b \<longleftrightarrow> a = b"
  by (metis option.inject to_digit_char)

lemma fmt_small: "n < r \<Longrightarrow> fmt_radix r n = [digit_char n]"
  by (subst fmt_radix.simps) simp

lemma fmt_large: "r \<le> n \<Longrightarrow> fmt_radix r n = fmt_radix r (n div r) @ [digit_char (n mod r)]"
  using r_ge by (subst fmt_radix.simps) simp

lemma div_less: "r \<le> n \<Longrightarrow> n div r < n"
  using r_ge by (intro div_less_dividend) auto

lemma read_digits_snoc:
  "read_digits r acc (s @ [c]) =
     (case read_digits r acc s of None \<Rightarrow> None
      | Some v \<Rightarrow> (case to_digit r c of None \<Rightarrow> None | Some d \<Rightarrow> Some (v * r + d)))"
  by (induction s arbitrary: acc) (auto split: option.splits)

lemma read_fmt: "read_digits r 0 (fmt_radix r n) = Some n"
proof (induction n rule: less_induct)
  case (less n)
  show ?case
  proof (cases "n < r")
    case True
    then show ?thesis by (simp add: fmt_small to_digit_char)
  next
    case False
    then show ?thesis
      using less.IH [OF div_less] r_ge
      by (simp add: fmt_large read_digits_snoc to_digit_char)
  qed
qed

lemma fmt_digits: "c \<in> set (fmt_radix r n) \<Longrightarrow> \<exists>d<r. c = digit_char d"
proof (induction n rule: less_induct)
  case (less n)
  show ?case
  proof (cases "n < r")
    case True
    with less.prems show ?thesis by (auto simp: fmt_small)
  next
    case False
    with less.prems have "c \<in> set (fmt_radix r (n div r)) \<or> c = digit_char (n mod r)"
      by (auto simp: fmt_large)
    moreover have "n mod r < r" using r_ge by simp
    ultimately show ?thesis using less.IH [OF div_less] False by auto
  qed
qed

lemma fmt_nonempty: "fmt_radix r n \<noteq> []"
  by (cases "n < r") (simp_all add: fmt_small fmt_large)

lemma fmt_length: "n < r ^ k \<Longrightarrow> 0 < k \<Longrightarrow> length (fmt_radix r n) \<le> k"
proof (induction k arbitrary: n)
  case (Suc k)
  show ?case
  proof (cases "n < r")
    case True
    then show ?thesis by (simp add: fmt_small)
  next
    case False
    have "n div r < r ^ k" using Suc.prems r_ge by (simp add: div_less_iff_less_mult mult.commute)
    moreover have "0 < k" using False Suc.prems by (cases k) auto
    ultimately show ?thesis using Suc.IH [of "n div r"] False by (simp add: fmt_large)
  qed
qed simp

text \<open>The first digit is zero for the number zero only.\<close>

lemma fmt_hd: "hd (fmt_radix r n) = digit_char 0 \<Longrightarrow> n = 0"
proof (induction n rule: less_induct)
  case (less n)
  show ?case
  proof (cases "n < r")
    case True
    have "to_digit r (digit_char n) = Some n" "to_digit r (digit_char 0) = Some 0"
      using True r_ge by (auto intro: to_digit_char)
    then show ?thesis using less.prems True by (auto simp: fmt_small)
  next
    case False
    then have "hd (fmt_radix r (n div r)) = digit_char 0"
      using less.prems by (simp add: fmt_large fmt_nonempty hd_append)
    then have "n div r = 0" using less.IH [OF div_less] False by simp
    then show ?thesis using False r_ge by (simp add: div_eq_0_iff)
  qed
qed

lemma fmt_inject: "fmt_radix r m = fmt_radix r n \<longleftrightarrow> m = n"
  by (metis option.inject read_fmt)

end

lemma less_10_cases: "d < (10 :: nat) \<Longrightarrow> d \<in> {0, 1, 2, 3, 4, 5, 6, 7, 8, 9}"
  by auto

lemma to_digit_digit_char: "r \<le> 16 \<Longrightarrow> d < r \<Longrightarrow> to_digit r (digit_char d) = Some d"
  by (auto simp: to_digit_def digit_char_def Let_def is_ascii_digit_def)

interpretation dec: radix 10
  by unfold_locales (auto intro: to_digit_digit_char)

interpretation hex: radix 16
  by unfold_locales (auto intro: to_digit_digit_char)

text \<open>
  In an alphabet where every digit has one character, the printed form is the only one
  without leading zeros.
\<close>

locale unique_radix = radix +
  assumes to_digit_unique: "to_digit r c = Some d \<Longrightarrow> c = digit_char d \<and> d < r"
begin

lemma fmt_zero: "fmt_radix r 0 = [digit_char 0]"
  using r_ge by (simp add: fmt_small)

lemma read_canonical:
  "read_digits r 0 s = Some v \<Longrightarrow> s \<noteq> [] \<Longrightarrow> length s = 1 \<or> hd s \<noteq> digit_char 0 \<Longrightarrow>
   s = fmt_radix r v"
proof (induction s arbitrary: v rule: rev_induct)
  case (snoc c t)
  from snoc.prems(1) obtain u d where u: "read_digits r 0 t = Some u" and d: "to_digit r c = Some d"
    and v: "v = u * r + d"
    by (auto simp: read_digits_snoc split: option.splits)
  have c: "c = digit_char d" "d < r" using to_digit_unique [OF d] by simp_all
  show ?case
  proof (cases "t = []")
    case True
    with u v c show ?thesis by (simp add: fmt_small)
  next
    case False
    then have hd: "hd t \<noteq> digit_char 0" using snoc.prems(3) by auto
    then have t: "t = fmt_radix r u" using snoc.IH [OF u] False by simp
    with hd have "u \<noteq> 0" using fmt_zero by (metis list.sel(1))
    then have "r \<le> v" using v by (cases u) simp_all
    then show ?thesis using t v c by (simp add: fmt_large)
  qed
qed simp

end

interpretation udec: unique_radix 10
proof unfold_locales
  fix c d assume "to_digit 10 c = Some d"
  then have "is_ascii_digit (code c) \<and> d = code c - 48"
    by (auto simp: to_digit_def Let_def is_ascii_digit_def split: if_splits)
  then show "c = digit_char d \<and> d < 10"
    by (auto simp: is_ascii_digit_def digit_char_def)
qed

section \<open>Parsing integers\<close>

text \<open>
  \<open>str::parse\<close> for an unsigned type with greatest value \<open>m\<close>: an optional plus sign, then
  at least one decimal digit, with a value in range.
\<close>

definition parse_unsigned :: "nat \<Rightarrow> string \<Rightarrow> nat option" where
  "parse_unsigned m s =
     (let s' = (if starts_with s CHR ''+'' then tl s else s) in
      if s' = [] then None
      else case read_digits 10 0 s' of None \<Rightarrow> None | Some v \<Rightarrow> if v \<le> m then Some v else None)"

text \<open>\<open>str::parse::<i64>\<close>, as the value of the integer.\<close>

definition parse_i64 :: "string \<Rightarrow> int option" where
  "parse_i64 s =
     (if starts_with s CHR ''-''
      then (if tl s = [] then None
            else case read_digits 10 0 (tl s) of None \<Rightarrow> None
              | Some v \<Rightarrow> if v \<le> 2 ^ 63 then Some (- int v) else None)
      else map_option int (parse_unsigned (2 ^ 63 - 1) s))"

lemma parse_i64_range: "parse_i64 s = Some i \<Longrightarrow> - (2 ^ 63) \<le> i \<and> i < 2 ^ 63"
  by (auto simp: parse_i64_def parse_unsigned_def Let_def split: if_splits option.splits)

section \<open>UTF-8\<close>

definition utf8_cont :: "nat \<Rightarrow> bool" where
  "utf8_cont b \<longleftrightarrow> 0x80 \<le> b \<and> b \<le> 0xBF"

text \<open>Well-formed UTF-8 octet sequences (Unicode, table 3-7).\<close>

fun utf8_valid :: "nat list \<Rightarrow> bool" where
  "utf8_valid [] = True"
| "utf8_valid (a # s) =
     (if a < 0x80 then utf8_valid s
      else case s of
        [] \<Rightarrow> False
      | b # s1 \<Rightarrow>
          if 0xC2 \<le> a \<and> a \<le> 0xDF then utf8_cont b \<and> utf8_valid s1
          else (case s1 of
            [] \<Rightarrow> False
          | c # s2 \<Rightarrow>
              if a = 0xE0 then 0xA0 \<le> b \<and> b \<le> 0xBF \<and> utf8_cont c \<and> utf8_valid s2
              else if a = 0xED then 0x80 \<le> b \<and> b \<le> 0x9F \<and> utf8_cont c \<and> utf8_valid s2
              else if 0xE1 \<le> a \<and> a \<le> 0xEF then utf8_cont b \<and> utf8_cont c \<and> utf8_valid s2
              else (case s2 of
                [] \<Rightarrow> False
              | d # s3 \<Rightarrow>
                  utf8_cont c \<and> utf8_cont d \<and> utf8_valid s3 \<and>
                  (if a = 0xF0 then 0x90 \<le> b \<and> b \<le> 0xBF
                   else if a = 0xF4 then 0x80 \<le> b \<and> b \<le> 0x8F
                   else 0xF1 \<le> a \<and> a \<le> 0xF3 \<and> utf8_cont b))))"

text \<open>\<open>String::from_utf8\<close>.\<close>

definition from_utf8 :: "u8 list \<Rightarrow> string option" where
  "from_utf8 bs = (if utf8_valid (map unat bs) then Some (string_of_bytes bs) else None)"

lemma utf8_valid_ascii: "list_all (\<lambda>n. n < 0x80) ns \<Longrightarrow> utf8_valid ns"
  by (induction ns) auto

lemma from_utf8_ascii: "list_all (\<lambda>b. unat b < 0x80) bs \<Longrightarrow> from_utf8 bs = Some (string_of_bytes bs)"
  by (simp add: from_utf8_def utf8_valid_ascii list_all_iff)

end
