(* ===== verification/Sworn_Ipv6_Text.thy ===== *)
theory Sworn_Ipv6_Text
  imports Sworn_Num
begin

text \<open>
  \<open>std::net::Ipv6Addr\<close> as the source uses it: construction from segments and octets, the
  text parser of \<open>FromStr\<close> (recursive descent with backtracking, compressed and embedded
  IPv4 forms included) and the printer of \<open>Display\<close> (longest run of zero segments
  compressed, IPv4-mapped addresses in dotted form). The main lemma is that parsing a
  printed address returns it.
\<close>

unbundle bit_operations_syntax

section \<open>Segments and octets\<close>

definition of_segments :: "u16 list \<Rightarrow> u128" where
  "of_segments gs = foldl (\<lambda>acc g. push_bit 16 acc OR ucast g) 0 gs"

definition of_octets :: "u8 list \<Rightarrow> u128" where
  "of_octets bs = foldl (\<lambda>acc b. push_bit 8 acc OR ucast b) 0 bs"

definition segments :: "u128 \<Rightarrow> u16 list" where
  "segments a = map (\<lambda>i. ucast (drop_bit (16 * i) a)) [7, 6, 5, 4, 3, 2, 1, 0]"

definition ipv6_new :: "u16 \<Rightarrow> u16 \<Rightarrow> u16 \<Rightarrow> u16 \<Rightarrow> u16 \<Rightarrow> u16 \<Rightarrow> u16 \<Rightarrow> u16 \<Rightarrow> u128" where
  "ipv6_new a b c d e f g h = of_segments [a, b, c, d, e, f, g, h]"

lemma length_segments [simp]: "length (segments a) = 8"
  by (simp add: segments_def)

lemma of_segments_segments [simp]: "of_segments (segments a) = a"
proof (rule bit_word_eqI)
  fix n assume "n < LENGTH(128)"
  then have n: "n < 128" by simp
  have seg: "bit (push_bit m (ucast (ucast (drop_bit m a) :: u16)) :: u128) k \<longleftrightarrow>
      m \<le> k \<and> k < m + 16 \<and> bit a k" if "k < 128" for m k
    using that by (auto simp: bit_simps)
  have seg0: "bit (ucast (ucast a :: u16) :: u128) k \<longleftrightarrow> k < 16 \<and> bit a k" if "k < 128" for k
    using that by (auto simp: bit_simps)
  consider "n < 16" | "16 \<le> n" "n < 32" | "32 \<le> n" "n < 48" | "48 \<le> n" "n < 64"
    | "64 \<le> n" "n < 80" | "80 \<le> n" "n < 96" | "96 \<le> n" "n < 112" | "112 \<le> n"
    by linarith
  then show "bit (of_segments (segments a)) n = bit a n"
    using n by cases (simp_all add: of_segments_def segments_def bit_or_iff seg seg0)
qed

text \<open>Evaluation by arithmetic instead of bit by bit.\<close>

lemma push_or_ucast:
  fixes acc :: u128 and g :: "'a::len word"
  assumes "LENGTH('a) \<le> n"
  shows "push_bit n acc OR ucast g = acc * 2 ^ n + ucast g"
proof -
  have "push_bit n acc OR ucast g = push_bit n acc + ucast g"
    using assms by (intro disjunctive_add [symmetric]) (auto simp: bit_simps dest: bit_imp_le_length)
  then show ?thesis by (simp add: push_bit_eq_mult)
qed

lemma of_segments_code [code]:
  "of_segments gs = word_of_nat (foldl (\<lambda>acc g. acc * 65536 + unat g) 0 gs)"
proof -
  have "foldl (\<lambda>acc g. push_bit 16 acc OR ucast g) (word_of_nat n) gs
      = (word_of_nat (foldl (\<lambda>acc g. acc * 65536 + unat g) n gs) :: u128)" for n
  proof (induction gs arbitrary: n)
    case (Cons g gs)
    have "push_bit 16 (word_of_nat n) OR ucast g = (word_of_nat (n * 65536 + unat g) :: u128)"
      by (simp add: push_or_ucast)
    then show ?case using Cons.IH [of "n * 65536 + unat g"] by (simp only: foldl_Cons)
  qed simp
  from this [of 0] show ?thesis by (simp add: of_segments_def)
qed

lemma of_octets_code [code]:
  "of_octets bs = word_of_nat (foldl (\<lambda>acc b. acc * 256 + unat b) 0 bs)"
proof -
  have "foldl (\<lambda>acc b. push_bit 8 acc OR ucast b) (word_of_nat n) bs
      = (word_of_nat (foldl (\<lambda>acc b. acc * 256 + unat b) n bs) :: u128)" for n
  proof (induction bs arbitrary: n)
    case (Cons b bs)
    have "push_bit 8 (word_of_nat n) OR ucast b = (word_of_nat (n * 256 + unat b) :: u128)"
      by (simp add: push_or_ucast)
    then show ?case using Cons.IH [of "n * 256 + unat b"] by (simp only: foldl_Cons)
  qed simp
  from this [of 0] show ?thesis by (simp add: of_octets_def)
qed

lemma segments_code [code]:
  "segments a = (let n = unat a in
     map (\<lambda>i. word_of_nat (n div 65536 ^ i mod 65536)) [7, 6, 5, 4, 3, 2, 1, 0])"
proof -
  have "ucast (drop_bit (16 * i) a) = (word_of_nat (unat a div 65536 ^ i mod 65536) :: u16)" for i
  proof -
    have p: "(2::nat) ^ (16 * i) = 65536 ^ i" by (simp add: power_mult)
    have "take_bit 128 (unat a) = unat a" using unsigned_less [of a] by (intro take_bit_nat_eq_self) simp
    then have d: "unat (drop_bit (16 * i) a) = unat a div 65536 ^ i"
      unfolding unsigned_drop_bit_eq unfolding drop_bit_eq_div by (simp add: p)
    have "ucast (drop_bit (16 * i) a) = (word_of_nat (unat (drop_bit (16 * i) a)) :: u16)"
      by (simp only: of_nat_unat)
    then show ?thesis by (simp only: d) (simp add: word_unat_eq_iff unat_of_nat)
  qed
  then show ?thesis by (simp only: segments_def Let_def)
qed

section \<open>The text parser\<close>

fun number_loop :: "nat \<Rightarrow> nat \<Rightarrow> nat \<Rightarrow> nat \<Rightarrow> string \<Rightarrow> ((nat \<times> nat) \<times> string) option" where
  "number_loop r mx res n [] = Some ((res, n), [])"
| "number_loop r mx res n (c # s) =
     (case to_digit r c of
        None \<Rightarrow> Some ((res, n), c # s)
      | Some d \<Rightarrow> if mx < n + 1 then None else number_loop r mx (res * r + d) (n + 1) s)"

text \<open>
  \<open>read_number\<close> with a digit limit \<open>mx\<close>; \<open>zero_prefix\<close> allows leading zeros and \<open>bound\<close>
  is one more than the greatest value of the result type.
\<close>

definition read_number :: "nat \<Rightarrow> nat \<Rightarrow> bool \<Rightarrow> nat \<Rightarrow> string \<Rightarrow> (nat \<times> string) option" where
  "read_number r mx zero_prefix bound s =
     (case number_loop r mx 0 0 s of
        None \<Rightarrow> None
      | Some ((v, n), rest) \<Rightarrow>
          if n = 0 then None
          else if \<not> zero_prefix \<and> starts_with s CHR ''0'' \<and> 1 < n then None
          else if v < bound then Some (v, rest) else None)"

fun read_given_char :: "char \<Rightarrow> string \<Rightarrow> string option" where
  "read_given_char c [] = None"
| "read_given_char c (x # s) = (if x = c then Some s else None)"

definition read_separator ::
  "char \<Rightarrow> nat \<Rightarrow> (string \<Rightarrow> ('a \<times> string) option) \<Rightarrow> string \<Rightarrow> ('a \<times> string) option" where
  "read_separator sep i p s =
     (if 0 < i then (case read_given_char sep s of None \<Rightarrow> None | Some s' \<Rightarrow> p s') else p s)"

fun ipv4_groups :: "nat \<Rightarrow> nat \<Rightarrow> string \<Rightarrow> (nat list \<times> string) option" where
  "ipv4_groups i 0 s = Some ([], s)"
| "ipv4_groups i (Suc k) s =
     (case read_separator CHR ''.'' i (read_number 10 3 False 256) s of
        None \<Rightarrow> None
      | Some (v, s') \<Rightarrow>
          (case ipv4_groups (Suc i) k s' of
             None \<Rightarrow> None
           | Some (vs, s'') \<Rightarrow> Some (v # vs, s'')))"

definition read_ipv4_addr :: "string \<Rightarrow> (nat list \<times> string) option" where
  "read_ipv4_addr s = ipv4_groups 0 4 s"

text \<open>
  \<open>read_groups\<close> from index \<open>i\<close> with \<open>Suc k\<close> slots left: the groups read, whether they end
  in an embedded IPv4 address, and the unread input.
\<close>

fun read_groups :: "nat \<Rightarrow> nat \<Rightarrow> string \<Rightarrow> (u16 list \<times> bool) \<times> string" where
  "read_groups i 0 s = (([], False), s)"
| "read_groups i (Suc k) s =
     (case (if 0 < k then read_separator CHR '':'' i read_ipv4_addr s else None) of
        Some (vs, s') \<Rightarrow>
          (([of_nat (vs ! 0 * 256 + vs ! 1), of_nat (vs ! 2 * 256 + vs ! 3)], True), s')
      | None \<Rightarrow>
          (case read_separator CHR '':'' i (read_number 16 4 True 65536) s of
             None \<Rightarrow> (([], False), s)
           | Some (g, s') \<Rightarrow>
               (case read_groups (Suc i) k s' of ((gs, v4), s'') \<Rightarrow> ((of_nat g # gs, v4), s''))))"

definition read_ipv6_addr :: "string \<Rightarrow> (u128 \<times> string) option" where
  "read_ipv6_addr s =
     (case read_groups 0 8 s of ((head, v4), s1) \<Rightarrow>
        if length head = 8 then Some (of_segments head, s1)
        else if v4 then None
        else (case read_given_char CHR '':'' s1 of
            None \<Rightarrow> None
          | Some s2 \<Rightarrow>
              (case read_given_char CHR '':'' s2 of
                 None \<Rightarrow> None
               | Some s3 \<Rightarrow>
                   (case read_groups 0 (8 - (length head + 1)) s3 of ((tail, _), s4) \<Rightarrow>
                      Some (of_segments
                        (head @ replicate (8 - length head - length tail) 0 @ tail), s4)))))"

text \<open>\<open>Ipv6Addr::from_str\<close>: nothing may be left over.\<close>

definition parse_ipv6 :: "string \<Rightarrow> u128 option" where
  "parse_ipv6 s = (case read_ipv6_addr s of Some (a, []) \<Rightarrow> Some a | _ \<Rightarrow> None)"

section \<open>The printer\<close>

definition hex16 :: "u16 \<Rightarrow> string" where
  "hex16 g = fmt_radix 16 (unat g)"

text \<open>The longest run of zero segments, the first one on a tie, as start and length.\<close>

fun zero_span :: "nat \<Rightarrow> u16 list \<Rightarrow> nat \<times> nat \<Rightarrow> nat \<times> nat \<Rightarrow> nat \<times> nat" where
  "zero_span i [] cur best = best"
| "zero_span i (g # gs) cur best =
     (if g = 0
      then (let cur' = (if snd cur = 0 then i else fst cur, snd cur + 1);
                best' = (if snd best < snd cur' then cur' else best)
            in zero_span (Suc i) gs cur' best')
      else zero_span (Suc i) gs (0, 0) best)"

definition fmt_subslice :: "u16 list \<Rightarrow> string" where
  "fmt_subslice gs =
     (case gs of [] \<Rightarrow> [] | g # gs' \<Rightarrow> hex16 g @ concat (map (\<lambda>h. CHR '':'' # hex16 h) gs'))"

definition fmt_ipv4 :: "u16 \<Rightarrow> u16 \<Rightarrow> string" where
  "fmt_ipv4 g h =
     fmt_radix 10 (unat g div 256) @ CHR ''.'' # fmt_radix 10 (unat g mod 256) @
     CHR ''.'' # fmt_radix 10 (unat h div 256) @ CHR ''.'' # fmt_radix 10 (unat h mod 256)"

definition ipv6_display :: "u128 \<Rightarrow> string" where
  "ipv6_display a =
     (let gs = segments a in
      if take 6 gs = [0, 0, 0, 0, 0, 0xffff]
      then ''::ffff:'' @ fmt_ipv4 (gs ! 6) (gs ! 7)
      else (case zero_span 0 gs (0, 0) (0, 0) of (start, n) \<Rightarrow>
        if 1 < n
        then fmt_subslice (take start gs) @ ''::'' @ fmt_subslice (drop (start + n) gs)
        else fmt_subslice gs))"

section \<open>Reading back what was printed\<close>

lemma number_loop_digits:
  "read_digits r res ds = Some v \<Longrightarrow> n + length ds \<le> mx \<Longrightarrow>
   rest = [] \<or> to_digit r (hd rest) = None \<Longrightarrow>
   number_loop r mx res n (ds @ rest) = Some ((v, n + length ds), rest)"
proof (induction ds arbitrary: res n)
  case Nil
  then show ?case by (cases rest) auto
next
  case (Cons c ds)
  from Cons.prems(1) obtain d where d: "to_digit r c = Some d" "read_digits r (res * r + d) ds = Some v"
    by (auto split: option.splits)
  show ?case
    using Cons.IH [OF d(2), of "n + 1"] Cons.prems(2,3) d(1) by simp
qed

lemma number_loop_rest: "number_loop r mx res n s = Some (x, rest) \<Longrightarrow> set rest \<subseteq> set s"
  by (induction r mx res n s rule: number_loop.induct) (auto split: option.splits if_splits)

lemma read_number_rest: "read_number r mx z b s = Some (v, rest) \<Longrightarrow> set rest \<subseteq> set s"
  by (auto simp: read_number_def dest!: number_loop_rest split: option.splits if_splits)

lemma read_number_none: "s = [] \<or> to_digit r (hd s) = None \<Longrightarrow> read_number r mx z b s = None"
  by (cases s) (auto simp: read_number_def)

lemma digit_char_0: "digit_char 0 = CHR ''0''"
  by code_simp

context radix
begin

lemma read_number_fmt:
  assumes v: "v < r ^ mx" "0 < mx" "v < bound"
    and stop: "rest = [] \<or> to_digit r (hd rest) = None"
  shows "read_number r mx z bound (fmt_radix r v @ rest) = Some (v, rest)"
proof -
  have len: "length (fmt_radix r v) \<le> mx" using v by (intro fmt_length)
  have l: "number_loop r mx 0 0 (fmt_radix r v @ rest) = Some ((v, length (fmt_radix r v)), rest)"
    using number_loop_digits [OF read_fmt _ stop, where n = 0 and mx = mx] len by simp
  have "length (fmt_radix r v) = 1" if "starts_with (fmt_radix r v @ rest) CHR ''0''"
  proof -
    have "hd (fmt_radix r v) = digit_char 0"
      using that fmt_nonempty by (cases "fmt_radix r v") (auto simp: digit_char_0)
    then have "v = 0" by (rule fmt_hd)
    then show ?thesis using fmt_small [of 0] r_ge by simp
  qed
  then show ?thesis using l v fmt_nonempty by (auto simp: read_number_def)
qed

end

lemma digit_char_no_punct: "d < 16 \<Longrightarrow> digit_char d \<noteq> CHR ''.'' \<and> digit_char d \<noteq> CHR '':''"
  by (auto simp: digit_char_def dest!: arg_cong [where f = code] simp: code_def)

lemma hex16_no_dot: "CHR ''.'' \<notin> set (hex16 h)"
  using hex.fmt_digits digit_char_no_punct by (fastforce simp: hex16_def)

lemma to_digit_punct [simp]: "to_digit r CHR '':'' = None" "to_digit r CHR ''.'' = None"
  by (simp_all add: to_digit_def code_def is_ascii_digit_def)

lemma read_number_colon [simp]: "read_number r mx z b (CHR '':'' # s) = None"
  by (simp add: read_number_none)

lemma read_ipv4_no_dot: "CHR ''.'' \<notin> set s \<Longrightarrow> read_ipv4_addr s = None"
proof -
  assume s: "CHR ''.'' \<notin> set s"
  have "read_given_char CHR ''.'' rest = None" if "read_number 10 3 False 256 s = Some (v, rest)" for v rest
    using read_number_rest [OF that] s by (cases rest) auto
  then show ?thesis
    by (auto simp: read_ipv4_addr_def read_separator_def eval_nat_numeral split: option.splits)
qed

lemma read_separator_no_dot:
  "CHR ''.'' \<notin> set s \<Longrightarrow> read_separator CHR '':'' i read_ipv4_addr s = None"
  by (cases s) (auto simp: read_separator_def read_ipv4_no_dot)

lemma read_hex16:
  assumes "rest = [] \<or> hd rest = CHR '':''"
  shows "read_number 16 4 True 65536 (hex16 h @ rest) = Some (unat h, rest)"
proof -
  have "unat h < 65536" using unsigned_less [of h] by simp
  then show ?thesis unfolding hex16_def using assms by (intro hex.read_number_fmt) auto
qed

definition colon_hex :: "u16 list \<Rightarrow> string" where
  "colon_hex gs = concat (map (\<lambda>h. CHR '':'' # hex16 h) gs)"

definition group_stop :: "string \<Rightarrow> bool" where
  "group_stop s \<longleftrightarrow> CHR ''.'' \<notin> set s \<and> (s = [] \<or> (\<exists>t. s = ''::'' @ t))"

lemma colon_hex_Nil [simp]: "colon_hex [] = []"
  by (simp add: colon_hex_def)

lemma colon_hex_Cons: "colon_hex (h # gs) = CHR '':'' # hex16 h @ colon_hex gs"
  by (simp add: colon_hex_def)

lemma colon_hex_no_dot: "CHR ''.'' \<notin> set (colon_hex gs)"
  by (induction gs) (auto simp: colon_hex_def hex16_no_dot)

lemma colon_hex_stop: "group_stop rest \<Longrightarrow> colon_hex gs @ rest = [] \<or> hd (colon_hex gs @ rest) = CHR '':''"
  by (cases gs) (auto simp: colon_hex_def group_stop_def)

lemma read_groups_colon:
  "0 < i \<Longrightarrow> length gs \<le> k \<Longrightarrow> group_stop rest \<Longrightarrow>
   read_groups i k (colon_hex gs @ rest) = ((gs, False), rest)"
proof (induction gs arbitrary: i k)
  case Nil
  show ?case
  proof (cases k)
    case (Suc k')
    have "read_separator CHR '':'' i (read_number 16 4 True 65536) rest = None"
      using Nil.prems by (auto simp: group_stop_def read_separator_def read_number_none)
    then show ?thesis
      using Nil.prems Suc by (simp add: read_separator_no_dot group_stop_def colon_hex_def)
  qed (simp add: colon_hex_def)
next
  case (Cons h gs)
  then obtain k' where k: "k = Suc k'" by (cases k) auto
  have nd: "CHR ''.'' \<notin> set (colon_hex (h # gs) @ rest)"
    using Cons.prems(3) colon_hex_no_dot [of "h # gs"] by (auto simp: group_stop_def)
  have "read_separator CHR '':'' i (read_number 16 4 True 65536) (colon_hex (h # gs) @ rest)
      = Some (unat h, colon_hex gs @ rest)"
    using Cons.prems(1) read_hex16 [OF colon_hex_stop [OF Cons.prems(3), of gs], of h]
    by (simp add: read_separator_def colon_hex_Cons)
  then show ?case
    using Cons.IH [of "Suc i" k'] Cons.prems k read_separator_no_dot [OF nd]
    by (cases k') simp_all
qed

lemma fmt_subslice_Cons: "fmt_subslice (g # gs) = hex16 g @ colon_hex gs"
  by (simp add: fmt_subslice_def colon_hex_def)

lemma fmt_subslice_no_dot: "CHR ''.'' \<notin> set (fmt_subslice gs)"
  by (cases gs) (auto simp: fmt_subslice_Cons hex16_no_dot colon_hex_no_dot, simp add: fmt_subslice_def)

lemma read_groups_fmt:
  assumes "length gs \<le> k" and "group_stop rest"
  shows "read_groups 0 k (fmt_subslice gs @ rest) = ((gs, False), rest)"
proof (cases k)
  case 0
  with assms show ?thesis by (simp add: fmt_subslice_def)
next
  case (Suc k')
  have v4: "read_ipv4_addr (fmt_subslice gs @ rest) = None"
    using assms(2) fmt_subslice_no_dot by (intro read_ipv4_no_dot) (auto simp: group_stop_def)
  show ?thesis
  proof (cases gs)
    case Nil
    have "read_number 16 4 True 65536 rest = None"
      using assms(2) by (intro read_number_none) (auto simp: group_stop_def)
    then show ?thesis using Suc Nil v4 by (simp add: read_separator_def fmt_subslice_def)
  next
    case (Cons g gs')
    then show ?thesis
      using Suc v4 assms read_groups_colon [of 1 gs' k' rest]
        read_hex16 [OF colon_hex_stop [OF assms(2), of gs'], of g]
      by (cases k') (simp_all add: read_separator_def fmt_subslice_Cons)
  qed
qed

text \<open>The dotted form of an IPv4-mapped address.\<close>

lemma read_number_dec:
  "v < 256 \<Longrightarrow> read_number 10 3 False 256 (fmt_radix 10 v @ CHR ''.'' # s) = Some (v, CHR ''.'' # s)"
  "v < 256 \<Longrightarrow> read_number 10 3 False 256 (fmt_radix 10 v) = Some (v, [])"
  using dec.read_number_fmt [of v 3 256 "CHR ''.'' # s"] dec.read_number_fmt [of v 3 256 "[]"]
  by simp_all

lemma unat_u16_less: "unat (g :: u16) < 65536"
proof -
  have "unat g < 2 ^ LENGTH(16)" by (rule unsigned_less)
  then show ?thesis by simp
qed

lemma unat_u16_div: "unat (g :: u16) div 256 < 256"
  using unat_u16_less [of g] by simp

lemma read_ipv4_unfold: "read_ipv4_addr s = ipv4_groups 0 (Suc (Suc (Suc (Suc 0)))) s"
  by (simp add: read_ipv4_addr_def eval_nat_numeral)

lemma read_fmt_ipv4:
  "read_ipv4_addr (fmt_ipv4 g h) =
     Some ([unat g div 256, unat g mod 256, unat h div 256, unat h mod 256], [])"
  by (simp add: read_ipv4_unfold fmt_ipv4_def read_separator_def read_number_dec unat_u16_div)

text \<open>The span the printer compresses consists of zeros.\<close>

definition zero_run :: "u16 list \<Rightarrow> nat \<times> nat \<Rightarrow> bool" where
  "zero_run xs sp \<longleftrightarrow> fst sp + snd sp \<le> length xs \<and> (\<forall>j. fst sp \<le> j \<and> j < fst sp + snd sp \<longrightarrow> xs ! j = 0)"

lemma zero_span_run:
  "i \<le> length xs \<Longrightarrow> zero_run xs best \<Longrightarrow> zero_run xs cur \<Longrightarrow> (0 < snd cur \<Longrightarrow> fst cur + snd cur = i) \<Longrightarrow>
   zero_run xs (zero_span i (drop i xs) cur best)"
proof (induction "drop i xs" arbitrary: i cur best)
  case (Cons g gs)
  have i: "i < length xs" and g: "g = xs ! i" and gs: "gs = drop (Suc i) xs"
    using Cons.hyps(2) by (metis drop_all linorder_not_less list.distinct(1))
      (metis Cons.hyps(2) nth_via_drop, metis Cons.hyps(2) drop_Suc list.sel(3) tl_drop)
  show ?case
  proof (cases "g = 0")
    case True
    define c where "c = (if snd cur = 0 then i else fst cur, snd cur + 1)"
    define b where "b = (if snd best < snd c then c else best)"
    have c: "zero_run xs c" "fst c + snd c = Suc i"
      using Cons.prems(3,4) i g True by (auto simp: c_def zero_run_def less_Suc_eq)
    moreover have "zero_run xs b" using c(1) Cons.prems(2) by (simp add: b_def)
    ultimately have "zero_run xs (zero_span (Suc i) gs c b)"
      using Cons.hyps(1) [OF gs, of b c] i gs by simp
    moreover have "zero_span i (g # gs) cur best = zero_span (Suc i) gs c b"
      by (simp only: True zero_span.simps Let_def if_True simp_thms b_def c_def)
    ultimately show ?thesis by (simp only: Cons.hyps(2))
  next
    case False
    then show ?thesis
      using Cons.hyps(1) [OF gs, of best "(0, 0)"] Cons.prems i
      by (simp add: Cons.hyps(2) [symmetric] gs zero_run_def)
  qed
qed simp

lemma zero_run_split:
  assumes "zero_run xs (s, n)"
  shows "take s xs @ replicate n 0 @ drop (s + n) xs = xs"
proof (rule nth_equalityI)
  show "length (take s xs @ replicate n 0 @ drop (s + n) xs) = length xs"
    using assms by (simp add: zero_run_def)
next
  fix j assume "j < length (take s xs @ replicate n 0 @ drop (s + n) xs)"
  then show "(take s xs @ replicate n 0 @ drop (s + n) xs) ! j = xs ! j"
    using assms by (auto simp: zero_run_def nth_append)
qed

lemma parse_ipv6_compressed:
  assumes z: "zero_run xs (s, n)" and n: "0 < n" and l: "length xs = 8"
  shows "parse_ipv6 (fmt_subslice (take s xs) @ ''::'' @ fmt_subslice (drop (s + n) xs))
      = Some (of_segments xs)"
proof -
  have sn: "s + n \<le> 8" using z l by (simp add: zero_run_def)
  have st: "group_stop (''::'' @ fmt_subslice (drop (s + n) xs))"
    using fmt_subslice_no_dot by (simp add: group_stop_def)
  have "read_groups 0 8 (fmt_subslice (take s xs) @ ''::'' @ fmt_subslice (drop (s + n) xs))
      = ((take s xs, False), ''::'' @ fmt_subslice (drop (s + n) xs))"
    using st l by (intro read_groups_fmt) simp_all
  moreover have "read_groups 0 (8 - (s + 1)) (fmt_subslice (drop (s + n) xs))
      = ((drop (s + n) xs, False), [])"
    using read_groups_fmt [of "drop (s + n) xs" "8 - (s + 1)" "[]"] n l sn
    by (simp add: group_stop_def)
  ultimately show ?thesis
    using zero_run_split [OF z] n l sn by (simp add: parse_ipv6_def read_ipv6_addr_def)
qed

lemma parse_ipv6_mapped:
  "parse_ipv6 (''::ffff:'' @ fmt_ipv4 g h) = Some (of_segments [0, 0, 0, 0, 0, 0xffff, g, h])"
proof -
  have f: "hex16 0xffff = ''ffff''" by (simp add: hex16_def) code_simp
  have zeros: "replicate 5 (0 :: u16) = [0, 0, 0, 0, 0]" by (simp add: eval_nat_numeral)
  have v4: "read_ipv4_addr (CHR ''f'' # t) = None" for t
    by (simp add: read_ipv4_unfold read_separator_def read_number_none to_digit_def code_def
        is_ascii_digit_def)
  have joined: "word_of_nat (unat w div 256) * 256 + word_of_nat (unat w mod 256) = w" for w :: u16
  proof -
    have "word_of_nat (unat w div 256 * 256 + unat w mod 256) = w" by simp
    then show ?thesis by (simp only: of_nat_add of_nat_mult of_nat_numeral)
  qed
  have n16: "read_number 16 4 True 65536 (''ffff:'' @ fmt_ipv4 g h) = Some (0xffff, CHR '':'' # fmt_ipv4 g h)"
    using read_hex16 [of "CHR '':'' # fmt_ipv4 g h" "0xffff"] by (simp add: f)
  have "read_groups 0 (Suc k) (''::'' @ t) = (([], False), ''::'' @ t)" for k t
    by (simp add: read_separator_def read_ipv4_unfold)
  from this [of 7 "''ffff:'' @ fmt_ipv4 g h"]
  have head: "read_groups 0 8 (''::ffff:'' @ fmt_ipv4 g h) = (([], False), ''::ffff:'' @ fmt_ipv4 g h)"
    by simp
  have "read_groups 0 (Suc (Suc (Suc k))) (''ffff:'' @ fmt_ipv4 g h) = (([0xffff, g, h], True), [])" for k
    using n16 v4 read_fmt_ipv4 [of g h] joined by (simp add: read_separator_def)
  from this [of 4]
  have "read_groups 0 7 (''ffff:'' @ fmt_ipv4 g h) = (([0xffff, g, h], True), [])" by simp
  with head show ?thesis
    by (simp add: parse_ipv6_def read_ipv6_addr_def zeros)
qed

lemma parse_ipv6_display: "parse_ipv6 (ipv6_display a) = Some a"
proof -
  let ?g = "segments a"
  show ?thesis
  proof (cases "take 6 ?g = [0, 0, 0, 0, 0, 0xffff]")
    case True
    have "?g = take 6 ?g @ [?g ! 6, ?g ! 7]"
      by (simp add: segments_def)
    then have "of_segments [0, 0, 0, 0, 0, 0xffff, ?g ! 6, ?g ! 7] = a"
      using True of_segments_segments [of a] by simp
    then show ?thesis
      using True parse_ipv6_mapped [of "?g ! 6" "?g ! 7"] by (simp add: ipv6_display_def Let_def)
  next
    case False
    obtain s n where sn: "zero_span 0 ?g (0, 0) (0, 0) = (s, n)" by fastforce
    have z: "zero_run ?g (s, n)"
      using zero_span_run [of 0 ?g "(0, 0)" "(0, 0)"] sn by (simp add: zero_run_def)
    show ?thesis
    proof (cases "1 < n")
      case True
      then show ?thesis
        using parse_ipv6_compressed [OF z] False sn by (simp add: ipv6_display_def Let_def)
    next
      case n: False
      have "read_groups 0 8 (fmt_subslice ?g) = ((?g, False), [])"
        using read_groups_fmt [of ?g 8 "[]"] by (simp add: group_stop_def)
      then show ?thesis
        using False sn n by (simp add: ipv6_display_def Let_def parse_ipv6_def read_ipv6_addr_def)
    qed
  qed
qed

text \<open>A printed address consists of hexadecimal digits, colons and dots.\<close>

definition addr_char :: "char \<Rightarrow> bool" where
  "addr_char c \<longleftrightarrow> (\<exists>d<16. c = digit_char d) \<or> c = CHR '':'' \<or> c = CHR ''.''"

lemma addr_char_colon: "addr_char CHR '':''"
  by (simp add: addr_char_def)

lemma hex16_addr_char: "c \<in> set (hex16 h) \<Longrightarrow> addr_char c"
  using hex.fmt_digits by (auto simp: hex16_def addr_char_def)

lemma dec_addr_char: "c \<in> set (fmt_radix 10 n) \<Longrightarrow> addr_char c"
proof -
  assume "c \<in> set (fmt_radix 10 n)"
  then obtain d where "d < 10" "c = digit_char d" using dec.fmt_digits by blast
  then have "d < 16 \<and> c = digit_char d" by simp
  then show ?thesis by (auto simp: addr_char_def)
qed

lemma fmt_subslice_addr_char: "c \<in> set (fmt_subslice gs) \<Longrightarrow> addr_char c"
  by (cases gs) (auto simp: fmt_subslice_def intro: hex16_addr_char addr_char_colon split: if_splits)

lemma ipv6_display_addr_char: "c \<in> set (ipv6_display a) \<Longrightarrow> addr_char c"
proof -
  have "addr_char CHR '':''" "addr_char CHR ''.''" by (simp_all add: addr_char_def)
  moreover have "addr_char CHR ''f''"
    unfolding addr_char_def by (intro disjI1 exI [of _ 15] conjI) (simp, code_simp)
  ultimately show "c \<in> set (ipv6_display a) \<Longrightarrow> addr_char c"
    by (auto simp: ipv6_display_def Let_def fmt_ipv4_def fmt_subslice_addr_char dec_addr_char
        split: if_splits prod.splits)
qed

lemma addr_char_code: "addr_char c \<Longrightarrow>
    (48 \<le> code c \<and> code c \<le> 57) \<or> (97 \<le> code c \<and> code c \<le> 102) \<or> code c = 58 \<or> code c = 46"
  unfolding addr_char_def
proof (elim disjE exE conjE)
  fix d assume "d < 16" "c = digit_char d"
  then show ?thesis by (cases "d < 10") (auto simp: digit_char_def)
qed (simp_all add: code_def)

lemma ipv6_display_lacks: "\<not> addr_char d \<Longrightarrow> d \<notin> set (ipv6_display a)"
  using ipv6_display_addr_char by blast

end
