(* ===== verification/Sworn_Address.thy ===== *)
theory Sworn_Address
  imports Sworn_Prefix Sworn_Ipv6_Text
begin

text \<open>
  \<open>src/address.rs\<close>: IPv6 prefixes, the mask that clears the bits beyond a length, the rules
  for an attested prefix and for an eligible source address, and the text form of a
  prefix. The mask provides the interface \<open>prefix_mask\<close>, from which containment, overlap
  and inclusion of prefixes are characterised by sets of addresses.
\<close>

unbundle bit_operations_syntax

section \<open>Masking\<close>

type_synonym ipv6_addr = u128

text \<open>\<open>mask(addr, len)\<close>: clears every bit of \<open>addr\<close> beyond \<open>len\<close>.\<close>

definition mask_addr :: "ipv6_addr \<Rightarrow> u8 \<Rightarrow> ipv6_addr" where
  "mask_addr addr len =
     (let keep = (if 128 \<le> len then - 1 else NOT (drop_bit (unat len) (- 1)))
      in addr AND keep)"

lemma bit_mask_addr:
  "n < 128 \<Longrightarrow> bit (mask_addr a l) n \<longleftrightarrow> bit a n \<and> 128 \<le> n + unat l"
  by (auto simp: mask_addr_def Let_def bit_simps word_le_nat_alt)

lemma mask_addr_eq_iff:
  "mask_addr a l = mask_addr b l \<longleftrightarrow> (\<forall>n<128. 128 \<le> n + unat l \<longrightarrow> bit a n = bit b n)"
  by (auto simp: bit_eq_iff bit_mask_addr dest: bit_imp_le_length intro!: bit_word_eqI)

lemma mask_addr_mask_addr: "mask_addr (mask_addr a m) n = mask_addr a (min m n)"
  by (rule bit_word_eqI) (auto simp: bit_mask_addr min_def word_le_nat_alt)

lemma mask_addr_full: "128 \<le> l \<Longrightarrow> mask_addr a l = a"
  by (simp add: mask_addr_def)

lemma mask_addr_splits:
  assumes "n < m" and "m \<le> 128"
  shows "\<exists>b. mask_addr b n = mask_addr a n \<and> mask_addr b m \<noteq> mask_addr a m"
proof -
  let ?k = "127 - unat n"
  have n: "unat n < unat m" "unat m \<le> 128" using assms by (simp_all add: word_less_nat_alt word_le_nat_alt)
  have "mask_addr (flip_bit ?k a) n = mask_addr a n"
    using n by (auto simp: mask_addr_eq_iff bit_simps)
  moreover have "mask_addr (flip_bit ?k a) m \<noteq> mask_addr a m"
    using n by (auto simp: mask_addr_eq_iff bit_simps intro!: exI [of _ ?k])
  ultimately show ?thesis by blast
qed

lemma len128: "LENGTH(128) = 128"
  by simp

lemma mask_addr_shift: "mask_addr a l = push_bit (128 - unat l) (drop_bit (128 - unat l) a)"
  by (rule bit_word_eqI) (auto simp: bit_mask_addr bit_simps)

lemma unat_mask_addr:
  "unat (mask_addr a l) = unat a div 2 ^ (128 - unat l) * 2 ^ (128 - unat l)"
proof -
  let ?k = "128 - unat l"
  have a: "unat a < 2 ^ 128" using unsigned_less [of a] by (simp only: len128)
  have "unat a div 2 ^ ?k * 2 ^ ?k \<le> unat a" by simp
  then have "unat a div 2 ^ ?k * 2 ^ ?k < 2 ^ 128" using a by (rule le_less_trans)
  then show ?thesis
    unfolding mask_addr_shift unsigned_push_bit_eq unsigned_drop_bit_eq
    using a by (simp add: push_bit_eq_mult drop_bit_eq_div take_bit_nat_eq_self)
qed

lemma mask_addr_code [code]:
  "mask_addr a l = (let b = 2 ^ (128 - unat l) in word_of_nat (unat a div b * b))"
  unfolding Let_def unat_mask_addr [symmetric] by simp

lemma mask_addr_eq_iff_div:
  "mask_addr a l = mask_addr b l \<longleftrightarrow>
     unat a div 2 ^ (128 - unat l) = unat b div 2 ^ (128 - unat l)"
proof -
  have "mask_addr a l = mask_addr b l \<longleftrightarrow> unat (mask_addr a l) = unat (mask_addr b l)"
    by (simp add: word_unat_eq_iff)
  then show ?thesis by (simp add: unat_mask_addr)
qed

interpretation ip: prefix_mask mask_addr
  by unfold_locales (rule mask_addr_mask_addr)

interpretation ips: strict_prefix_mask mask_addr 128
  by unfold_locales (rule mask_addr_splits)

section \<open>Prefixes\<close>

record ipv6_prefix =
  pfx_addr :: ipv6_addr
  pfx_len :: u8

definition prefix_new :: "ipv6_addr \<Rightarrow> u8 \<Rightarrow> ipv6_prefix option" where
  "prefix_new addr len = (if 128 < len then None else Some \<lparr>pfx_addr = addr, pfx_len = len\<rparr>)"

definition new_unchecked :: "ipv6_addr \<Rightarrow> u8 \<Rightarrow> ipv6_prefix" where
  "new_unchecked addr len = \<lparr>pfx_addr = addr, pfx_len = len\<rparr>"

definition masked :: "ipv6_prefix \<Rightarrow> ipv6_prefix" where
  "masked p = \<lparr>pfx_addr = mask_addr (pfx_addr p) (pfx_len p), pfx_len = pfx_len p\<rparr>"

definition is_canonical :: "ipv6_prefix \<Rightarrow> bool" where
  "is_canonical p \<longleftrightarrow> mask_addr (pfx_addr p) (pfx_len p) = pfx_addr p"

definition contains :: "ipv6_prefix \<Rightarrow> ipv6_addr \<Rightarrow> bool" where
  "contains p addr \<longleftrightarrow> mask_addr addr (pfx_len p) = mask_addr (pfx_addr p) (pfx_len p)"

definition overlaps :: "ipv6_prefix \<Rightarrow> ipv6_prefix \<Rightarrow> bool" where
  "overlaps p other =
     (let shorter = min (pfx_len p) (pfx_len other)
      in mask_addr (pfx_addr p) shorter = mask_addr (pfx_addr other) shorter)"

definition MIN_PREFIX_LEN :: u8 where "MIN_PREFIX_LEN = 32"
definition MAX_PREFIX_LEN :: u8 where "MAX_PREFIX_LEN = 64"

definition GLOBAL_UNICAST :: ipv6_prefix where
  "GLOBAL_UNICAST = new_unchecked (ipv6_new 0x2000 0 0 0 0 0 0 0) 3"

definition TEREDO :: ipv6_prefix where
  "TEREDO = new_unchecked (ipv6_new 0x2001 0 0 0 0 0 0 0) 32"

definition SIX_TO_FOUR :: ipv6_prefix where
  "SIX_TO_FOUR = new_unchecked (ipv6_new 0x2002 0 0 0 0 0 0 0) 16"

definition INELIGIBLE_SOURCE_RANGES :: "ipv6_prefix list" where
  "INELIGIBLE_SOURCE_RANGES =
     [new_unchecked (ipv6_new 0 0 0 0 0 0xffff 0 0) 96,
      new_unchecked (ipv6_new 0 0 0 0 0 0 0 0) 96,
      new_unchecked (ipv6_new 0x64 0xff9b 0 0 0 0 0 0) 96,
      new_unchecked (ipv6_new 0x64 0xff9b 1 0 0 0 0 0) 48,
      TEREDO,
      SIX_TO_FOUR]"

definition is_attestable :: "ipv6_prefix \<Rightarrow> bool" where
  "is_attestable p \<longleftrightarrow>
     is_canonical p \<and>
     (MIN_PREFIX_LEN \<le> pfx_len p \<and> pfx_len p \<le> MAX_PREFIX_LEN) \<and>
     contains GLOBAL_UNICAST (pfx_addr p) \<and>
     \<not> overlaps p TEREDO \<and>
     \<not> overlaps p SIX_TO_FOUR"

definition is_eligible_source :: "ipv6_addr \<Rightarrow> bool" where
  "is_eligible_source addr =
     (if \<not> contains GLOBAL_UNICAST addr then False
      else \<not> list_ex (\<lambda>range. contains range addr) INELIGIBLE_SOURCE_RANGES)"

section \<open>Text form\<close>

datatype parse_prefix_error = ParsePrefixError

text \<open>\<open>impl fmt::Display for ParsePrefixError\<close>.\<close>

definition parse_prefix_error_display :: "parse_prefix_error \<Rightarrow> string" where
  "parse_prefix_error_display e = ''invalid IPv6 prefix''"

text \<open>
  \<open>parse_decimal\<close>: one to three digits without sign or leading zero. The index \<open>bytes[0]\<close>
  is only read behind \<open>!bytes.is_empty()\<close>.
\<close>

definition parse_decimal :: "string \<Rightarrow> u8 option" where
  "parse_decimal s =
     (let well_formed =
        s \<noteq> [] \<and> length s \<le> 3 \<and> list_all (\<lambda>c. is_ascii_digit (code c)) s \<and>
        (length s = 1 \<or> hd s \<noteq> CHR ''0'')
      in if well_formed then map_option of_nat (parse_unsigned 255 s) else None)"

text \<open>\<open>impl fmt::Display for Ipv6Prefix\<close> and \<open>impl FromStr for Ipv6Prefix\<close>.\<close>

definition prefix_display :: "ipv6_prefix \<Rightarrow> string" where
  "prefix_display p = ipv6_display (pfx_addr p) @ CHR ''/'' # fmt_radix 10 (unat (pfx_len p))"

definition prefix_from_str :: "string \<Rightarrow> (ipv6_prefix, parse_prefix_error) result" where
  "prefix_from_str s =
     and_then (ok_or (split_once CHR ''/'' s) ParsePrefixError) (\<lambda>(addr, len).
     and_then (ok_or (parse_ipv6 addr) ParsePrefixError) (\<lambda>addr.
     and_then (ok_or (parse_decimal len) ParsePrefixError) (\<lambda>len.
     ok_or (prefix_new addr len) ParsePrefixError)))"

lemma div_eq_iff_interval: "0 < s \<Longrightarrow> a div s = q \<longleftrightarrow> q * s \<le> a \<and> a < q * s + (s :: nat)"
proof
  assume s: "0 < s" and q: "a div s = q"
  have "a = q * s + a mod s" using q by (metis div_mult_mod_eq)
  then show "q * s \<le> a \<and> a < q * s + s" using mod_less_divisor [OF s, of a] by linarith
next
  assume "q * s \<le> a \<and> a < q * s + s"
  then show "a div s = q" by (intro div_nat_eqI) (auto simp: mult.commute)
qed

section \<open>Prefixes as sets of addresses\<close>

definition prefix_set :: "ipv6_prefix \<Rightarrow> ipv6_addr set" where
  "prefix_set p = {a. contains p a}"

lemma prefix_set_block: "prefix_set p = ip.block (pfx_addr p) (pfx_len p)"
  by (auto simp: prefix_set_def contains_def ip.block_def)

lemma contains_self: "contains p (pfx_addr p)"
  by (simp add: contains_def)

lemma contains_masked [simp]: "contains (masked p) = contains p"
  by (simp add: fun_eq_iff contains_def masked_def ip.msk_idem)

lemma is_canonical_masked: "is_canonical (masked p)"
  by (simp add: is_canonical_def masked_def ip.msk_idem)

lemma prefix_new_Some_iff:
  "prefix_new a l = Some p \<longleftrightarrow> l \<le> 128 \<and> p = \<lparr>pfx_addr = a, pfx_len = l\<rparr>"
  by (auto simp: prefix_new_def)

lemma prefix_set_subset_iff:
  "pfx_len q \<le> 128 \<Longrightarrow>
   prefix_set p \<subseteq> prefix_set q \<longleftrightarrow> pfx_len q \<le> pfx_len p \<and> contains q (pfx_addr p)"
  by (simp add: prefix_set_block ips.block_subset_iff ip.in_block contains_def)

text \<open>C27: A prefix contains exactly the addresses of the interval that starts at its masked
  address and has \<open>2 ^ (128 - len)\<close> members, for every length up to 128.\<close>

theorem contains_interval:
  "contains p a \<longleftrightarrow>
     unat (mask_addr (pfx_addr p) (pfx_len p)) \<le> unat a \<and>
     unat a < unat (mask_addr (pfx_addr p) (pfx_len p)) + 2 ^ (128 - unat (pfx_len p))"
proof -
  let ?s = "2 ^ (128 - unat (pfx_len p)) :: nat"
  let ?q = "unat (pfx_addr p) div ?s"
  have "contains p a \<longleftrightarrow> unat a div ?s = ?q"
    by (simp add: contains_def mask_addr_eq_iff_div)
  also have "\<dots> \<longleftrightarrow> ?q * ?s \<le> unat a \<and> unat a < ?q * ?s + ?s"
    by (rule div_eq_iff_interval) simp
  finally show ?thesis by (simp add: unat_mask_addr)
qed

lemma overlaps_meet: "overlaps p q \<longleftrightarrow> prefix_set p \<inter> prefix_set q \<noteq> {}"
  by (simp add: overlaps_def Let_def prefix_set_block ip.blocks_meet_iff)

text \<open>Two prefixes overlap, as the code decides it by comparing masks at the shorter
  length, exactly when some address lies in both.\<close>

theorem overlaps_iff_meet: "overlaps p q \<longleftrightarrow> prefix_set p \<inter> prefix_set q \<noteq> {}"
  by (rule overlaps_meet)

text \<open>Canonical prefixes of legal length are determined by the addresses they contain.\<close>

theorem canonical_prefix_unique:
  assumes "is_canonical p" and "is_canonical q" and "pfx_len p \<le> 128" and "pfx_len q \<le> 128"
  shows "prefix_set p = prefix_set q \<longleftrightarrow> p = q"
proof
  assume "prefix_set p = prefix_set q"
  then have "prefix_set p \<subseteq> prefix_set q" and "prefix_set q \<subseteq> prefix_set p" by simp_all
  then have "pfx_len p = pfx_len q" and "contains q (pfx_addr p)"
    using assms by (auto simp: prefix_set_subset_iff)
  then show "p = q" using assms(1,2) by (simp add: contains_def is_canonical_def)
qed simp

section \<open>Attestable prefixes and eligible sources\<close>

lemmas prefix_consts = GLOBAL_UNICAST_def TEREDO_def SIX_TO_FOUR_def new_unchecked_def
  ipv6_new_def of_segments_def MIN_PREFIX_LEN_def MAX_PREFIX_LEN_def

lemma const_lens [simp]:
  "pfx_len GLOBAL_UNICAST = 3" "pfx_len TEREDO = 32" "pfx_len SIX_TO_FOUR = 16"
  by (simp_all add: prefix_consts)

lemma u8_trans: "(a :: u8) \<le> b \<Longrightarrow> b \<le> c \<Longrightarrow> a \<le> c"
  by (rule order_trans)

lemma attestable_len: "is_attestable p \<Longrightarrow> 32 \<le> pfx_len p \<and> pfx_len p \<le> 64"
  by (simp add: is_attestable_def prefix_consts)

lemma attestable_cases:
  "is_attestable p \<longleftrightarrow>
     is_canonical p \<and> 32 \<le> unat (pfx_len p) \<and> unat (pfx_len p) \<le> 64 \<and>
     prefix_set p \<subseteq> prefix_set GLOBAL_UNICAST \<and>
     prefix_set p \<inter> prefix_set TEREDO = {} \<and>
     prefix_set p \<inter> prefix_set SIX_TO_FOUR = {}"
proof -
  have "(3 :: u8) \<le> pfx_len p" if "32 \<le> unat (pfx_len p)"
    using that by (simp add: word_le_nat_alt)
  then show ?thesis
    by (auto simp: is_attestable_def overlaps_meet prefix_set_subset_iff MIN_PREFIX_LEN_def
        MAX_PREFIX_LEN_def word_le_nat_alt)
qed

text \<open>C28: A prefix may be attested exactly when it is canonical, 32 to 64 bits long, lies in
  \<open>2000::/3\<close> with all its addresses, and shares none with the Teredo or 6to4 ranges.\<close>

theorem is_attestable_iff:
  "is_attestable p \<longleftrightarrow>
     is_canonical p \<and> 32 \<le> unat (pfx_len p) \<and> unat (pfx_len p) \<le> 64 \<and>
     prefix_set p \<subseteq> prefix_set GLOBAL_UNICAST \<and>
     prefix_set p \<inter> prefix_set TEREDO = {} \<and>
     prefix_set p \<inter> prefix_set SIX_TO_FOUR = {}"
  by (rule attestable_cases)

lemma contains_disjoint:
  "\<not> overlaps q p \<Longrightarrow> contains p a \<Longrightarrow> \<not> contains q a"
  by (auto simp: overlaps_meet prefix_set_def)

text \<open>The ranges outside \<open>2000::/3\<close> need no test of their own.\<close>

lemma outside_global_unicast:
  "r \<in> set (take 4 INELIGIBLE_SOURCE_RANGES) \<Longrightarrow> \<not> overlaps r GLOBAL_UNICAST"
  by (auto simp: INELIGIBLE_SOURCE_RANGES_def overlaps_def prefix_consts mask_addr_shift)

lemma ineligible_ranges_split:
  "INELIGIBLE_SOURCE_RANGES = take 4 INELIGIBLE_SOURCE_RANGES @ [TEREDO, SIX_TO_FOUR]"
  by (simp add: INELIGIBLE_SOURCE_RANGES_def)

lemma eligible_cases:
  "is_eligible_source a \<longleftrightarrow>
     contains GLOBAL_UNICAST a \<and> \<not> contains TEREDO a \<and> \<not> contains SIX_TO_FOUR a"
proof -
  have "contains GLOBAL_UNICAST a \<Longrightarrow>
      \<not> list_ex (\<lambda>r. contains r a) (take 4 INELIGIBLE_SOURCE_RANGES)"
    using outside_global_unicast contains_disjoint by (auto simp: list_ex_iff)
  then show ?thesis
    unfolding is_eligible_source_def by (subst ineligible_ranges_split) auto
qed

text \<open>Of the six ineligible ranges only Teredo and 6to4 matter: the four listed before
  them lie outside global unicast, which is tested first.\<close>

theorem is_eligible_source_iff:
  "is_eligible_source a \<longleftrightarrow>
     contains GLOBAL_UNICAST a \<and> \<not> contains TEREDO a \<and> \<not> contains SIX_TO_FOUR a"
  by (rule eligible_cases)

text \<open>Evaluation by division, as for the mask.\<close>

lemma contains_code [code]:
  "contains p a \<longleftrightarrow> (let b = 2 ^ (128 - unat (pfx_len p)) in unat a div b = unat (pfx_addr p) div b)"
  by (simp add: contains_def mask_addr_eq_iff_div Let_def)

lemma overlaps_code [code]:
  "overlaps p q \<longleftrightarrow>
     (let b = 2 ^ (128 - min (unat (pfx_len p)) (unat (pfx_len q)))
      in unat (pfx_addr p) div b = unat (pfx_addr q) div b)"
  by (simp add: overlaps_def mask_addr_eq_iff_div Let_def min_def word_le_nat_alt)

lemma is_eligible_source_code [code]:
  "is_eligible_source a \<longleftrightarrow>
     (let n = unat a in
      n div 0x20000000000000000000000000000000 = 1 \<and>
      n div 0x1000000000000000000000000 \<noteq> 0x20010000 \<and>
      n div 0x10000000000000000000000000000 \<noteq> 0x2002)"
  by (simp add: eligible_cases contains_code prefix_consts Let_def)

lemma is_attestable_code [code]:
  "is_attestable p \<longleftrightarrow>
     (let n = unat (pfx_addr p); l = unat (pfx_len p); b = 2 ^ (128 - l) in
      32 \<le> l \<and> l \<le> 64 \<and> n div b * b = n \<and>
      n div 0x20000000000000000000000000000000 = 1 \<and>
      n div 0x1000000000000000000000000 \<noteq> 0x20010000 \<and>
      n div 0x10000000000000000000000000000 \<noteq> 0x2002)"
proof (cases "32 \<le> unat (pfx_len p) \<and> unat (pfx_len p) \<le> 64")
  case True
  then have l: "min 32 (pfx_len p) = 32" "min 16 (pfx_len p) = 16" "(3 :: u8) \<le> pfx_len p"
    by (simp_all add: min_def word_le_nat_alt)
  have "is_canonical p \<longleftrightarrow> unat (mask_addr (pfx_addr p) (pfx_len p)) = unat (pfx_addr p)"
    by (simp only: is_canonical_def word_unat_eq_iff)
  then show ?thesis
    using True l
    by (simp add: is_attestable_def overlaps_def mask_addr_eq_iff_div contains_code prefix_consts Let_def
        unat_mask_addr word_le_nat_alt)
next
  case False
  then show ?thesis by (auto simp: attestable_cases Let_def)
qed

lemma attested_eligible:
  assumes "is_attestable p" and "contains p a"
  shows "is_eligible_source a"
proof -
  have a: "a \<in> prefix_set p" using assms(2) by (simp add: prefix_set_def)
  have "prefix_set p \<subseteq> prefix_set GLOBAL_UNICAST" "prefix_set p \<inter> prefix_set TEREDO = {}"
    "prefix_set p \<inter> prefix_set SIX_TO_FOUR = {}"
    using assms(1) by (simp_all add: attestable_cases)
  then show ?thesis using a by (auto simp: eligible_cases prefix_set_def)
qed

text \<open>C29: Every address inside an attestable prefix is an eligible source: the eligibility
  check never rejects a source that the membership check would accept.\<close>

theorem attested_source_eligible:
  assumes "is_attestable p" and "contains p a"
  shows "is_eligible_source a"
  using assms by (rule attested_eligible)

section \<open>Numbers and prefixes as text\<close>

lemma parse_decimal_fmt: "parse_decimal s = Some n \<longleftrightarrow> s = fmt_radix 10 (unat n)"
proof
  assume n: "parse_decimal s = Some n"
  then obtain v where s: "s \<noteq> []" "length s = 1 \<or> hd s \<noteq> CHR ''0''"
    and digits: "list_all (\<lambda>c. is_ascii_digit (code c)) s"
    and v: "parse_unsigned 255 s = Some v" and nv: "n = of_nat v"
    by (auto simp: parse_decimal_def Let_def split: if_splits)
  have "\<not> starts_with s CHR ''+''"
    using s(1) digits by (cases s) (auto simp: is_ascii_digit_def code_def)
  then have r: "read_digits 10 0 s = Some v" and "v \<le> 255"
    using v s(1) by (auto simp: parse_unsigned_def Let_def split: option.splits if_splits)
  then have "unat n = v" using nv by (simp add: unat_of_nat take_bit_nat_eq_self)
  then show "s = fmt_radix 10 (unat n)"
    using udec.read_canonical [OF r s(1)] s(2) by (simp add: digit_char_0)
next
  assume s: "s = fmt_radix 10 (unat n)"
  have n: "unat n < 256" by (rule unat_u8_less)
  have d: "list_all (\<lambda>c. is_ascii_digit (code c)) s"
    unfolding s list_all_iff
  proof
    fix c assume "c \<in> set (fmt_radix 10 (unat n))"
    then obtain d where "d < 10" "c = digit_char d" using dec.fmt_digits by blast
    then show "is_ascii_digit (code c)" by (simp add: digit_char_def is_ascii_digit_def)
  qed
  have z: "length s = 1 \<or> hd s \<noteq> CHR ''0''"
    using dec.fmt_hd [of "unat n"] udec.fmt_zero unfolding s digit_char_0 [symmetric] by auto
  have "\<not> starts_with s CHR ''+''"
    using d by (cases s) (auto simp: is_ascii_digit_def code_def)
  then have "parse_unsigned 255 s = Some (unat n)"
    using n dec.read_fmt [of "unat n"] dec.fmt_nonempty [of "unat n"]
    by (simp add: parse_unsigned_def s)
  then show "parse_decimal s = Some n"
    using d z dec.fmt_nonempty [of "unat n"] dec.fmt_length [of "unat n" 3] n
    by (simp add: parse_decimal_def s)
qed

text \<open>A record number parses exactly when it is the decimal form of the value, so every
  value has one spelling: no sign, no leading zero, nothing beyond 255.\<close>

theorem parse_decimal_iff: "parse_decimal s = Some n \<longleftrightarrow> s = fmt_radix 10 (unat n)"
  by (rule parse_decimal_fmt)

lemma prefix_from_str_len: "prefix_from_str s = Ok p \<Longrightarrow> pfx_len p \<le> 128"
  by (auto simp: prefix_from_str_def ok_iff prefix_new_Some_iff split: prod.splits)

lemma prefix_text:
  assumes "pfx_len p \<le> 128"
  shows "prefix_from_str (prefix_display p) = Ok p"
proof -
  have "CHR ''/'' \<notin> set (ipv6_display (pfx_addr p))"
    by (rule ipv6_display_lacks) (auto dest!: addr_char_code simp: code_def)
  then have "split_once CHR ''/'' (prefix_display p)
      = Some (ipv6_display (pfx_addr p), fmt_radix 10 (unat (pfx_len p)))"
    by (simp add: prefix_display_def split_once_Some_iff)
  moreover have "parse_decimal (fmt_radix 10 (unat (pfx_len p))) = Some (pfx_len p)"
    by (simp add: parse_decimal_fmt)
  ultimately show ?thesis
    using assms by (simp add: prefix_from_str_def parse_ipv6_display prefix_new_def)
qed

text \<open>C30: Parsing a printed prefix returns it, for every address and every length up to 128.\<close>

theorem prefix_text_roundtrip:
  assumes "pfx_len p \<le> 128"
  shows "prefix_from_str (prefix_display p) = Ok p"
  using assms by (rule prefix_text)

section \<open>Witnesses\<close>

text \<open>The documentation prefix used throughout the test vectors, \<open>2001:db8:f00::/48\<close>.\<close>

definition doc_prefix :: ipv6_prefix where
  "doc_prefix = \<lparr>pfx_addr = 0x20010db80f0000000000000000000000, pfx_len = 48\<rparr>"

lemma doc_prefix_attestable: "is_attestable doc_prefix"
  by (simp add: doc_prefix_def is_attestable_def is_canonical_def contains_def overlaps_def
      mask_addr_shift prefix_consts)

lemma doc_prefix_contains: "contains doc_prefix 0x20010db80f00123400000000000a0001"
  by (simp add: doc_prefix_def contains_def mask_addr_shift)

lemma canonical_prefix_unique_witness:
  "prefix_set doc_prefix \<noteq> prefix_set (masked GLOBAL_UNICAST)"
proof -
  have c: "is_canonical doc_prefix" using doc_prefix_attestable by (simp add: is_attestable_def)
  have l: "pfx_len doc_prefix \<le> 128" "pfx_len (masked GLOBAL_UNICAST) \<le> 128"
    by (simp_all add: doc_prefix_def masked_def)
  have "doc_prefix \<noteq> masked GLOBAL_UNICAST" by (simp add: doc_prefix_def masked_def)
  then show ?thesis using canonical_prefix_unique [OF c is_canonical_masked l] by simp
qed

lemma attested_source_eligible_witness: "is_eligible_source 0x20010db80f00123400000000000a0001"
  by (rule attested_source_eligible [OF doc_prefix_attestable doc_prefix_contains])

lemma prefix_text_roundtrip_witness: "prefix_from_str (prefix_display doc_prefix) = Ok doc_prefix"
  by (rule prefix_text_roundtrip) (simp add: doc_prefix_def)

end
