(* ===== verification/Sworn_Reason.thy ===== *)
theory Sworn_Reason
  imports Sworn_Str
begin

text \<open>
  \<open>src/reason.rs\<close>: the reason codes of a failed verification, their wire tokens and the
  \<open>Authentication-Results\<close> value each reports as. The type is an instance of \<open>enum\<close>, so
  a statement about all reasons is decided by going through them.
\<close>

definition PASS :: string where
  "PASS = ''pass''"

datatype reason =
    OffPrefix
  | IneligibleSource
  | Expired
  | NotYetValid
  | BadSignature
  | LifetimeTooLong
  | BadUnit
  | BadPrefix
  | BadValidity
  | UnauthorizedPrefix
  | PolicyUnitMismatch
  | BadContentType
  | BadKid
  | HeaderConfusion
  | BadRole
  | Malformed

fun as_str :: "reason \<Rightarrow> string" where
  "as_str OffPrefix = ''off_prefix''"
| "as_str IneligibleSource = ''ineligible_source''"
| "as_str Expired = ''expired''"
| "as_str NotYetValid = ''not_yet_valid''"
| "as_str BadSignature = ''bad_signature''"
| "as_str LifetimeTooLong = ''lifetime_too_long''"
| "as_str BadUnit = ''bad_unit''"
| "as_str BadPrefix = ''bad_prefix''"
| "as_str BadValidity = ''bad_validity''"
| "as_str UnauthorizedPrefix = ''unauthorized_prefix''"
| "as_str PolicyUnitMismatch = ''policy_unit_mismatch''"
| "as_str BadContentType = ''bad_content_type''"
| "as_str BadKid = ''bad_kid''"
| "as_str HeaderConfusion = ''header_confusion''"
| "as_str BadRole = ''bad_role''"
| "as_str Malformed = ''malformed''"

fun reason_auth_result :: "reason \<Rightarrow> string" where
  "reason_auth_result BadSignature = ''fail''"
| "reason_auth_result OffPrefix = ''fail''"
| "reason_auth_result Expired = ''fail''"
| "reason_auth_result NotYetValid = ''fail''"
| "reason_auth_result _ = ''permerror''"

text \<open>\<open>impl fmt::Display for Reason\<close>.\<close>

definition reason_display :: "reason \<Rightarrow> string" where
  "reason_display r = as_str r"

instantiation reason :: enum
begin

definition enum_reason :: "reason list" where
  "enum_reason = [OffPrefix, IneligibleSource, Expired, NotYetValid, BadSignature,
     LifetimeTooLong, BadUnit, BadPrefix, BadValidity, UnauthorizedPrefix,
     PolicyUnitMismatch, BadContentType, BadKid, HeaderConfusion, BadRole, Malformed]"

definition enum_all_reason :: "(reason \<Rightarrow> bool) \<Rightarrow> bool" where
  "enum_all_reason P = list_all P enum_class.enum"

definition enum_ex_reason :: "(reason \<Rightarrow> bool) \<Rightarrow> bool" where
  "enum_ex_reason P = list_ex P enum_class.enum"

instance
proof
  have u: "r \<in> set (enum_class.enum :: reason list)" for r
    by (cases r) (simp_all add: enum_reason_def)
  show "(UNIV :: reason set) = set enum_class.enum" using u by blast
  show "distinct (enum_class.enum :: reason list)" by (simp add: enum_reason_def)
  show "enum_class.enum_all P \<longleftrightarrow> Ball (UNIV :: reason set) P" for P
    using u by (auto simp: enum_all_reason_def list_all_iff)
  show "enum_class.enum_ex P \<longleftrightarrow> Bex (UNIV :: reason set) P" for P
    using u by (auto simp: enum_ex_reason_def list_ex_iff)
qed

end

lemma all_reasons: "(\<forall>r. P r) \<longleftrightarrow> list_all P (Enum.enum :: reason list)"
  by (metis UNIV_I enum_UNIV list_all_iff)

lemma as_str_distinct: "distinct (map as_str Enum.enum)"
  by (simp add: enum_reason_def)

lemma inj_as_str: "inj as_str"
  using as_str_distinct by (simp add: distinct_map enum_UNIV)

end
