(* ===== verification/Sworn_Cbor.thy ===== *)
theory Sworn_Cbor
  imports Sworn_Str
begin

text \<open>
  The interface to \<open>ciborium\<close>. Its public \<open>Value\<close> type is a datatype here; decoding and
  encoding, whose code is not part of the repository, are parameters of every definition
  that uses them, collected in the record \<open>cbor_lib\<close>. No law is assumed of them in general;
  the few theorems that need one state it as a hypothesis.
\<close>

datatype cbor =
    Integer int
  | Bytes "u8 list"
  | Float u64
  | Text string
  | Bool bool
  | Null
  | Tag u64 cbor
  | Array "cbor list"
  | Map "(cbor \<times> cbor) list"

text \<open>
  \<^item> \<open>de_value bs\<close>: \<open>from_reader::<Value>\<close> on a cursor over \<open>bs\<close>, the value read and the
    cursor's position afterwards;
  \<^item> \<open>de_map bs\<close>: \<open>from_reader::<BTreeMap<i128, Captured<Value>>>\<close>, the entries of the map
    with the tag captured on each value;
  \<^item> \<open>ser_value v\<close>: \<open>into_writer\<close> into a vector.
  \<open>None\<close> is an error of the library.
\<close>

record cbor_lib =
  de_value :: "u8 list \<Rightarrow> (cbor \<times> nat) option"
  de_map :: "u8 list \<Rightarrow> (int \<times> (u64 option \<times> cbor)) list option"
  ser_value :: "cbor \<Rightarrow> u8 list option"

end
