(* ===== verification/Sworn_Key.thy ===== *)
theory Sworn_Key
  imports Sworn_Num
begin

text \<open>
  \<open>src/key.rs\<close>: the wrapper around the Ed25519 verifying key. The curve arithmetic of
  \<open>ed25519_dalek\<close> is a parameter, a record of the three functions the source calls; a
  verifying key is a value of an arbitrary type \<open>'k\<close>. Tokens rely on the interface
  \<open>signature_check\<close>: a check that accepts nothing but 64-octet signatures.
\<close>

record 'k dalek =
  vk_from_bytes :: "u8 list \<Rightarrow> 'k option"
  vk_to_bytes :: "'k \<Rightarrow> u8 list"
  vk_verify_strict :: "'k \<Rightarrow> u8 list \<Rightarrow> u8 list \<Rightarrow> bool"

datatype 'k ed25519_public_key = Ed25519PublicKey (inner: 'k)

definition LEN :: nat where "LEN = 32"

text \<open>\<open><[u8; n]>::try_from(slice)\<close>.\<close>

definition try_into_array :: "nat \<Rightarrow> u8 list \<Rightarrow> u8 list option" where
  "try_into_array n bs = (if length bs = n then Some bs else None)"

definition key_from_bytes :: "'k dalek \<Rightarrow> u8 list \<Rightarrow> 'k ed25519_public_key option" where
  "key_from_bytes d bytes =
     (case try_into_array LEN bytes of
        None \<Rightarrow> None
      | Some bytes \<Rightarrow> map_option Ed25519PublicKey (vk_from_bytes d bytes))"

definition key_to_bytes :: "'k dalek \<Rightarrow> 'k ed25519_public_key \<Rightarrow> u8 list" where
  "key_to_bytes d key = vk_to_bytes d (inner key)"

definition key_verify :: "'k dalek \<Rightarrow> 'k ed25519_public_key \<Rightarrow> u8 list \<Rightarrow> u8 list \<Rightarrow> bool" where
  "key_verify d key message signature =
     (case try_into_array 64 signature of
        None \<Rightarrow> False
      | Some signature \<Rightarrow> vk_verify_strict d (inner key) message signature)"

text \<open>\<open>impl fmt::Display\<close>: two lower-case hexadecimal digits per octet (\<open>{byte:02x}\<close>).\<close>

definition hex_byte :: "u8 \<Rightarrow> string" where
  "hex_byte b = [digit_char (unat b div 16), digit_char (unat b mod 16)]"

definition key_display :: "'k dalek \<Rightarrow> 'k ed25519_public_key \<Rightarrow> string" where
  "key_display d key = concat (map hex_byte (key_to_bytes d key))"

section \<open>The interface the token code relies on\<close>

locale signature_check =
  fixes check :: "'key \<Rightarrow> u8 list \<Rightarrow> u8 list \<Rightarrow> bool"
  assumes check_length: "check key message signature \<Longrightarrow> length signature = 64"
begin

lemma empty_signature: "\<not> check key message []"
  using check_length by fastforce

lemma truncated_signature: "n < 64 \<Longrightarrow> \<not> check key message (take n signature)"
  using check_length by fastforce

lemma extended_signature:
  "check key message signature \<Longrightarrow> extra \<noteq> [] \<Longrightarrow> \<not> check key message' (signature @ extra)"
  using check_length by (fastforce dest: check_length)

end

interpretation ed: signature_check "key_verify d" for d
  by unfold_locales (auto simp: key_verify_def try_into_array_def split: if_splits)

lemma key_verify_iff:
  "key_verify d key m s \<longleftrightarrow> length s = 64 \<and> vk_verify_strict d (inner key) m s"
  by (simp add: key_verify_def try_into_array_def)

lemma hex_byte_inject: "hex_byte a = hex_byte b \<longleftrightarrow> a = b"
proof
  assume h: "hex_byte a = hex_byte b"
  have "unat a div 16 < 16" "unat a mod 16 < 16" "unat b div 16 < 16" "unat b mod 16 < 16"
    using unat_u8_less [of a] unat_u8_less [of b] by auto
  then have "unat a div 16 = unat b div 16" "unat a mod 16 = unat b mod 16"
    using h by (simp_all add: hex_byte_def hex.digit_char_inject)
  then have "unat a = unat b" by (metis div_mult_mod_eq)
  then show "a = b" by (simp add: word_unat_eq_iff)
qed simp

lemma concat_hex_inject: "concat (map hex_byte xs) = concat (map hex_byte ys) \<longleftrightarrow> xs = ys"
proof (induction xs arbitrary: ys)
  case Nil
  show ?case by (cases ys) (simp_all add: hex_byte_def)
next
  case (Cons x xs)
  have app: "hex_byte x @ s = hex_byte y @ t \<longleftrightarrow> x = y \<and> s = t" for y s t
    using hex_byte_inject [of x y] by (auto simp: hex_byte_def)
  show ?case
  proof (cases ys)
    case Nil
    then show ?thesis by (simp add: hex_byte_def)
  next
    case (Cons y ys')
    then show ?thesis using app Cons.IH by simp
  qed
qed

lemma length_concat_hex: "length (concat (map hex_byte xs)) = 2 * length xs"
  by (induction xs) (simp_all add: hex_byte_def)

text \<open>The printed form of a key is its octets in hexadecimal: two keys print the same
  exactly when their encodings are the same, and a 32-octet encoding prints as 64 digits.\<close>

theorem key_display_faithful:
  "(key_display d a = key_display d b \<longleftrightarrow> key_to_bytes d a = key_to_bytes d b) \<and>
   length (key_display d a) = 2 * length (key_to_bytes d a)"
  by (simp add: key_display_def concat_hex_inject length_concat_hex)

text \<open>A public key is only ever built from exactly 32 octets that the curve library accepts,
  and a signature is only accepted when it has exactly 64 octets and passes the strict check.\<close>

theorem key_octet_lengths:
  "(key_from_bytes d bs = Some key \<longleftrightarrow> length bs = 32 \<and> vk_from_bytes d bs = Some (inner key)) \<and>
   (key_verify d key m s \<longleftrightarrow> length s = 64 \<and> vk_verify_strict d (inner key) m s)"
  by (cases key) (auto simp: key_from_bytes_def try_into_array_def LEN_def key_verify_iff)

end
