(* ===== verification/Sworn_Payload.thy ===== *)
theory Sworn_Payload
  imports Sworn_Address Sworn_Reason Sworn_Cbor Sworn_Key
begin

text \<open>
  \<open>src/payload.rs\<close>: the signed claim of a token. \<open>payload_from_value\<close> is
  \<open>Payload::from_value\<close>: a loop over the entries of the CBOR map that keeps the keys seen
  and the six fields (an instance of \<open>keyed_scan\<close>), then the checks on the fields in the
  order of the source.
\<close>

section \<open>Roles and payloads\<close>

definition MAX_LIFETIME_SECS :: u64 where "MAX_LIFETIME_SECS = 86400"
definition DEFAULT_UNIT :: u8 where "DEFAULT_UNIT = 64"
definition KEY_OPERATOR :: int where "KEY_OPERATOR = 1"
definition KEY_PREFIX :: int where "KEY_PREFIX = 2"
definition KEY_UNIT :: int where "KEY_UNIT = 3"
definition KEY_IAT :: int where "KEY_IAT = 4"
definition KEY_EXP :: int where "KEY_EXP = 5"
definition KEY_ROLE :: int where "KEY_ROLE = 6"

lemmas key_consts = KEY_OPERATOR_def KEY_PREFIX_def KEY_UNIT_def KEY_IAT_def KEY_EXP_def
  KEY_ROLE_def

datatype role = Mta | EspTenant | Forwarder

fun role_as_str :: "role \<Rightarrow> string" where
  "role_as_str Mta = ''mta''"
| "role_as_str EspTenant = ''esp-tenant''"
| "role_as_str Forwarder = ''forwarder''"

definition role_parse :: "string \<Rightarrow> role option" where
  "role_parse s =
     (if s = ''mta'' then Some Mta
      else if s = ''esp-tenant'' then Some EspTenant
      else if s = ''forwarder'' then Some Forwarder
      else None)"

record payload =
  pl_operator :: string
  pl_prefix :: ipv6_prefix
  pl_unit :: u8
  pl_iat :: u64
  pl_exp :: u64
  pl_role :: role

section \<open>Operator domains\<close>

definition LDH :: "nat \<Rightarrow> bool" where
  "LDH n \<longleftrightarrow> is_ascii_alphanumeric n \<or> n = 45"

definition label_ok :: "string \<Rightarrow> bool" where
  "label_ok label \<longleftrightarrow>
     label \<noteq> [] \<and> length label \<le> 63 \<and>
     \<not> starts_with label CHR ''-'' \<and> \<not> ends_with label CHR ''-'' \<and>
     list_all (\<lambda>c. LDH (code c)) label"

definition is_operator_domain :: "string \<Rightarrow> bool" where
  "is_operator_domain s =
     (if s = [] \<or> 253 < length s \<or> \<not> list_all (\<lambda>c. code c < 128) s then False
      else list_all label_ok (split_on CHR ''.'' s))"

section \<open>Typed reads of CBOR values\<close>

fun value_text :: "cbor \<Rightarrow> (string, reason) result" where
  "value_text (Text s) = Ok s"
| "value_text _ = Err Malformed"

fun value_bytes :: "cbor \<Rightarrow> (u8 list, reason) result" where
  "value_bytes (Bytes b) = Ok b"
| "value_bytes _ = Err Malformed"

definition u64_try_from :: "int \<Rightarrow> u64 option" where
  "u64_try_from i = (if 0 \<le> i \<and> i < 2 ^ 64 then Some (word_of_int i) else None)"

fun value_uint :: "cbor \<Rightarrow> (u64, reason) result" where
  "value_uint (Integer i) = ok_or (u64_try_from i) Malformed"
| "value_uint _ = Err Malformed"

text \<open>
  The 17-octet wire form of a prefix. The slice \<open>raw[..16]\<close> and the index \<open>raw[16]\<close> are in
  bounds once the length is 17; the conversion of the slice is an \<open>expect\<close>.
\<close>

definition decode_prefix :: "u8 list \<Rightarrow> (ipv6_prefix, reason) result" where
  "decode_prefix b =
     and_then (ok_or (try_into_array 17 b) Malformed) (\<lambda>raw.
     and_then (expect (try_into_array 16 (take 16 raw))) (\<lambda>addr.
     ok_or (prefix_new (of_octets addr) (raw ! 16)) BadPrefix))"

section \<open>The loop over the map entries\<close>

record read_state =
  st_operator :: "string option"
  st_prefix_bytes :: "u8 list option"
  st_unit :: "u64 option"
  st_iat :: "u64 option"
  st_exp :: "u64 option"
  st_role_text :: "string option"
  st_seen :: "int list"

definition read_init :: read_state where
  "read_init = \<lparr>st_operator = None, st_prefix_bytes = None, st_unit = None, st_iat = None,
     st_exp = None, st_role_text = None, st_seen = []\<rparr>"

definition read_field :: "read_state \<Rightarrow> int \<Rightarrow> cbor \<Rightarrow> (read_state, reason) result" where
  "read_field s key val =
     (if key = KEY_OPERATOR
      then and_then (value_text val) (\<lambda>t. Ok (s\<lparr>st_operator := Some t\<rparr>))
      else if key = KEY_PREFIX
      then and_then (value_bytes val) (\<lambda>b. Ok (s\<lparr>st_prefix_bytes := Some b\<rparr>))
      else if key = KEY_UNIT then and_then (value_uint val) (\<lambda>u. Ok (s\<lparr>st_unit := Some u\<rparr>))
      else if key = KEY_IAT then and_then (value_uint val) (\<lambda>u. Ok (s\<lparr>st_iat := Some u\<rparr>))
      else if key = KEY_EXP then and_then (value_uint val) (\<lambda>u. Ok (s\<lparr>st_exp := Some u\<rparr>))
      else if key = KEY_ROLE
      then and_then (value_text val) (\<lambda>t. Ok (s\<lparr>st_role_text := Some t\<rparr>))
      else Ok s)"

fun read_entries :: "read_state \<Rightarrow> (cbor \<times> cbor) list \<Rightarrow> (read_state, reason) result" where
  "read_entries s [] = Ok s"
| "read_entries s ((key, val) # entries) =
     (case key of
        Integer i \<Rightarrow>
          if i \<in> set (st_seen s) then Err Malformed
          else and_then (read_field (s\<lparr>st_seen := st_seen s @ [i]\<rparr>) i val)
                 (\<lambda>s'. read_entries s' entries)
      | _ \<Rightarrow> Err Malformed)"

section \<open>Validation\<close>

text \<open>
  The subtraction \<open>exp - iat\<close> is on \<open>u64\<close> and follows the test \<open>exp <= iat\<close>; the cast
  \<open>unit as u8\<close> follows the test \<open>unit > 64\<close>.
\<close>

definition payload_from_value :: "cbor \<Rightarrow> (payload, reason) result" where
  "payload_from_value value =
     (case value of
        Map entries \<Rightarrow>
          and_then (read_entries read_init entries) (\<lambda>s.
          (case (st_operator s, st_prefix_bytes s, st_iat s, st_exp s, st_role_text s) of
             (Some operator, Some prefix_bytes, Some iat, Some exp, Some role_text) \<Rightarrow>
               if \<not> is_operator_domain operator then Err Malformed
               else and_then (ok_or (role_parse role_text) BadRole) (\<lambda>role.
                    and_then (decode_prefix prefix_bytes) (\<lambda>prefix.
                    if \<not> is_attestable prefix then Err BadPrefix
                    else if exp \<le> iat then Err BadValidity
                    else if MAX_LIFETIME_SECS < exp - iat then Err LifetimeTooLong
                    else
                      let unit = (case st_unit s of Some u \<Rightarrow> u | None \<Rightarrow> ucast DEFAULT_UNIT) in
                      if ucast MAX_PREFIX_LEN < unit \<or> unit < ucast (pfx_len prefix)
                      then Err BadUnit
                      else
                        let unit = (ucast unit :: u8) in
                        if role = EspTenant \<and> unit \<noteq> pfx_len prefix then Err BadUnit
                        else Ok \<lparr>pl_operator = to_ascii_lowercase operator, pl_prefix = prefix,
                                 pl_unit = unit, pl_iat = iat, pl_exp = exp, pl_role = role\<rparr>))
           | _ \<Rightarrow> Err Malformed))
      | _ \<Rightarrow> Err Malformed)"

definition reject_tagged_fields :: "cbor_lib \<Rightarrow> u8 list \<Rightarrow> (unit, reason) result" where
  "reject_tagged_fields lib bytes =
     and_then (ok_or (de_map lib bytes) Malformed) (\<lambda>map.
       let defined = [KEY_OPERATOR, KEY_PREFIX, KEY_UNIT, KEY_IAT, KEY_EXP, KEY_ROLE] in
       if list_ex (\<lambda>(key, (tag, _)). tag \<noteq> None \<and> key \<in> set defined) map
       then Err Malformed
       else Ok ())"

section \<open>Operator domains as a grammar\<close>

lemma LDH_ascii: "LDH n \<Longrightarrow> n < 128"
  by (auto simp: LDH_def is_ascii_alphanumeric_def is_ascii_digit_def)

lemma label_ok_no_dot: "label_ok l \<Longrightarrow> CHR ''.'' \<notin> set l"
  by (auto simp: label_ok_def list_all_iff LDH_def is_ascii_alphanumeric_def is_ascii_digit_def
      code_def)

lemma set_join: "c \<in> set (join d ls) \<Longrightarrow> c = d \<or> (\<exists>l\<in>set ls. c \<in> set l)"
  by (induction d ls rule: join.induct) auto

lemma is_operator_domain_split:
  "is_operator_domain s \<longleftrightarrow>
     s \<noteq> [] \<and> length s \<le> 253 \<and> list_all label_ok (split_on CHR ''.'' s)"
proof -
  have "list_all (\<lambda>c. code c < 128) s" if "list_all label_ok (split_on CHR ''.'' s)"
  proof -
    have "code c < 128" if "c \<in> set s" for c
      using set_subset_split_on [OF that, of "CHR ''.''"] \<open>list_all label_ok _\<close> LDH_ascii
      by (auto simp: list_all_iff label_ok_def) (simp add: code_def)
    then show ?thesis by (simp add: list_all_iff)
  qed
  then show ?thesis by (auto simp: is_operator_domain_def)
qed

text \<open>The grammar, written out without the code's own tests.\<close>

definition alphanumerics :: string where
  "alphanumerics = ''abcdefghijklmnopqrstuvwxyzABCDEFGHIJKLMNOPQRSTUVWXYZ0123456789''"

lemma alphanumerics_iff: "is_ascii_alphanumeric (code c) \<longleftrightarrow> c \<in> set alphanumerics"
proof -
  have "is_ascii_alphanumeric n \<longleftrightarrow> n \<in> {97..<123} \<union> {65..<91} \<union> {48..<58}" for n
    by (auto simp: is_ascii_alphanumeric_def is_ascii_digit_def)
  moreover have "map code alphanumerics = [97..<123] @ [65..<91] @ [48..<58]" by code_simp
  then have "code ` set alphanumerics = {97..<123} \<union> {65..<91} \<union> {48..<58}"
    by (simp only: flip: set_map) (simp only: set_append set_upt Un_assoc)
  ultimately have "is_ascii_alphanumeric (code c) \<longleftrightarrow> code c \<in> code ` set alphanumerics" by simp
  then show ?thesis by auto
qed

definition dns_label :: "string \<Rightarrow> bool" where
  "dns_label l \<longleftrightarrow> 1 \<le> length l \<and> length l \<le> 63 \<and> set l \<subseteq> set alphanumerics \<union> {CHR ''-''} \<and>
     hd l \<noteq> CHR ''-'' \<and> last l \<noteq> CHR ''-''"

lemma code_hyphen: "code c = 45 \<longleftrightarrow> c = CHR ''-''"
proof -
  have "code CHR ''-'' = 45" by (simp add: code_def)
  then show ?thesis by (metis code_inject)
qed

lemma label_ok_dns: "label_ok l \<longleftrightarrow> dns_label l"
proof -
  have "LDH (code c) \<longleftrightarrow> c \<in> set alphanumerics \<union> {CHR ''-''}" for c
    by (auto simp: LDH_def alphanumerics_iff code_hyphen)
  then show ?thesis
    by (cases l) (auto simp: label_ok_def dns_label_def starts_with_iff ends_with_iff list_all_iff)
qed

definition dns_name :: "string \<Rightarrow> bool" where
  "dns_name s \<longleftrightarrow> length s \<le> 253 \<and>
     (\<exists>labels. labels \<noteq> [] \<and> list_all dns_label labels \<and> s = join CHR ''.'' labels)"

lemma operator_domain_dns: "is_operator_domain s \<longleftrightarrow> dns_name s"
proof
  assume "is_operator_domain s"
  then show "dns_name s"
    unfolding dns_name_def
    by (intro conjI exI [of _ "split_on CHR ''.'' s"]) (simp_all add: is_operator_domain_split label_ok_dns [abs_def])
next
  assume "dns_name s"
  then obtain ls where ls: "ls \<noteq> []" "s = join CHR ''.'' ls" "list_all label_ok ls" "length s \<le> 253"
    by (auto simp: dns_name_def label_ok_dns [abs_def])
  have "split_on CHR ''.'' s = ls"
    unfolding ls(2) using ls(1,3) label_ok_no_dot by (intro split_on_join) (auto simp: list_all_iff)
  moreover have "s \<noteq> []"
    using ls(1-3) by (cases ls; cases "tl ls") (auto simp: label_ok_def)
  ultimately show "is_operator_domain s" using ls(3,4) by (simp add: is_operator_domain_split)
qed

text \<open>C31: An operator domain is a dot-joined, non-empty sequence of labels of one to 63 letters, digits
  and hyphens, none of which begins or ends with a hyphen, at most 253 octets long in all.\<close>

theorem is_operator_domain_iff: "is_operator_domain s \<longleftrightarrow> dns_name s"
  by (rule operator_domain_dns)

text \<open>Nothing but letters, digits, hyphens and dots ever gets into an operator domain: no
  space, control character, wildcard or octet outside ASCII can reach a query name.\<close>

theorem operator_domain_alphabet:
  assumes "is_operator_domain s" and "c \<in> set s"
  shows "is_ascii_alphanumeric (code c) \<or> c = CHR ''-'' \<or> c = CHR ''.''"
proof -
  from set_subset_split_on [OF assms(2), of "CHR ''.''"]
  consider "c = CHR ''.''" | l where "l \<in> set (split_on CHR ''.'' s)" "c \<in> set l" by blast
  then show ?thesis
  proof cases
    case 2
    then have "LDH (code c)"
      using assms(1) by (auto simp: is_operator_domain_split list_all_iff label_ok_def)
    then show ?thesis by (auto simp: LDH_def code_hyphen)
  qed simp
qed

lemma to_ascii_lower_eq_punct:
  "to_ascii_lower c = CHR ''.'' \<longleftrightarrow> c = CHR ''.''" "to_ascii_lower c = CHR ''-'' \<longleftrightarrow> c = CHR ''-''"
  by (auto simp: to_ascii_lower_def code_def) (auto dest!: arg_cong [where f = code] simp: code_def)

lemma LDH_lower: "LDH (code (to_ascii_lower c)) = LDH (code c)"
  by (auto simp: LDH_def code_to_ascii_lower is_ascii_alphanumeric_def is_ascii_digit_def)

lemma split_on_lower:
  "split_on CHR ''.'' (to_ascii_lowercase s) = map to_ascii_lowercase (split_on CHR ''.'' s)"
  by (induction s) (auto simp: to_ascii_lowercase_def to_ascii_lower_eq_punct split: list.splits)

lemma label_ok_lower [simp]: "label_ok (to_ascii_lowercase l) = label_ok l"
proof (cases "l = []")
  case False
  then show ?thesis
    by (simp add: label_ok_def to_ascii_lowercase_def starts_with_iff ends_with_iff hd_map last_map
        to_ascii_lower_eq_punct list.pred_map o_def LDH_lower)
qed (simp add: to_ascii_lowercase_def)

lemma is_operator_domain_lower [simp]:
  "is_operator_domain (to_ascii_lowercase s) = is_operator_domain s"
  by (simp add: is_operator_domain_split split_on_lower list.pred_map o_def)
    (simp add: to_ascii_lowercase_def)

text \<open>A role and its wire value determine each other.\<close>

lemma role_parse_iff: "role_parse s = Some r \<longleftrightarrow> s = role_as_str r"
  by (cases r) (auto simp: role_parse_def)

section \<open>The loop as an instance of the keyed scan\<close>

fun entry_key :: "cbor \<times> cbor \<Rightarrow> int option" where
  "entry_key (key, val) = (case key of Integer i \<Rightarrow> Some i | _ \<Rightarrow> None)"

definition field_ok :: "int \<Rightarrow> cbor \<Rightarrow> bool" where
  "field_ok i v \<longleftrightarrow>
     (i \<in> {1, 6} \<longrightarrow> (\<exists>t. v = Text t)) \<and> (i = 2 \<longrightarrow> (\<exists>b. v = Bytes b)) \<and>
     (i \<in> {3, 4, 5} \<longrightarrow> (\<exists>u. v = Integer u \<and> 0 \<le> u \<and> u < 2 ^ 64))"

fun entry_good :: "cbor \<times> cbor \<Rightarrow> bool" where
  "entry_good (key, val) = (case key of Integer i \<Rightarrow> field_ok i val | _ \<Rightarrow> False)"

fun entry_upd :: "read_state \<Rightarrow> cbor \<times> cbor \<Rightarrow> read_state" where
  "entry_upd s (key, val) =
     (case key of
        Integer i \<Rightarrow>
          (case read_field (s\<lparr>st_seen := st_seen s @ [i]\<rparr>) i val of
             Ok s' \<Rightarrow> s' | _ \<Rightarrow> s\<lparr>st_seen := st_seen s @ [i]\<rparr>)
      | _ \<Rightarrow> s)"

lemma value_text_Ok [ok_iff]: "value_text v = Ok t \<longleftrightarrow> v = Text t"
  by (cases v) auto

lemma value_bytes_Ok [ok_iff]: "value_bytes v = Ok b \<longleftrightarrow> v = Bytes b"
  by (cases v) auto

lemma u64_try_from_Some: "u64_try_from i = Some u \<longleftrightarrow> i = uint u"
proof
  assume "u64_try_from i = Some u"
  then have "0 \<le> i" "i < 2 ^ 64" "u = word_of_int i"
    by (auto simp: u64_try_from_def split: if_splits)
  then show "i = uint u" by (simp add: uint_word_of_int_eq take_bit_int_eq_self)
next
  assume i: "i = uint u"
  have "uint u < 2 ^ LENGTH(64)" by (rule unsigned_less)
  then show "u64_try_from i = Some u" using i by (simp add: u64_try_from_def)
qed

lemma value_uint_Ok [ok_iff]: "value_uint v = Ok u \<longleftrightarrow> v = Integer (uint u)"
  by (cases v) (auto simp: ok_iff u64_try_from_Some)

lemma read_field_Ok: "(\<exists>s'. read_field s i v = Ok s') \<longleftrightarrow> field_ok i v"
proof -
  have "(\<exists>u. v = Integer (uint (u :: u64))) \<longleftrightarrow> (\<exists>u. v = Integer u \<and> 0 \<le> u \<and> u < 2 ^ 64)"
    by (metis u64_try_from_Some u64_try_from_def option.distinct(1))
  then show ?thesis by (auto simp: read_field_def field_ok_def key_consts ok_iff)
qed

lemma read_field_seen: "read_field s i v = Ok s' \<Longrightarrow> st_seen s' = st_seen s"
  by (auto simp: read_field_def ok_iff split: if_splits)

lemma value_no_panic [simp]: "value_text v \<noteq> Panic" "value_bytes v \<noteq> Panic" "value_uint v \<noteq> Panic"
  by (cases v; auto simp: ok_iff)+

lemma value_err:
  "value_text v = Err e \<Longrightarrow> e = Malformed" "value_bytes v = Err e \<Longrightarrow> e = Malformed"
  "value_uint v = Err e \<Longrightarrow> e = Malformed"
  by (cases v; auto simp: ok_iff)+

lemma read_field_no_panic: "read_field s i v \<noteq> Panic"
  by (auto simp: read_field_def ok_iff)

lemma read_field_err: "read_field s i v = Err e \<Longrightarrow> e = Malformed"
  by (auto simp: read_field_def ok_iff split: if_splits dest: value_err)

interpretation pl: keyed_scan read_entries st_seen entry_good entry_key entry_upd
proof (unfold_locales, goal_cases)
  case (1 s)
  show ?case by simp
next
  case (2 s x xs r)
  obtain key val where x: "x = (key, val)" by fastforce
  show ?case
  proof (cases key)
    case (Integer i)
    let ?s = "s\<lparr>st_seen := st_seen s @ [i]\<rparr>"
    show ?thesis
      using Integer x read_field_Ok [of ?s i val] by (auto simp: ok_iff split: result.splits)
  qed (use x in simp_all)
next
  case (3 x k s)
  then show ?case
    by (cases x) (auto split: cbor.splits result.splits dest: read_field_seen)
qed

lemma read_entries_no_panic: "read_entries s es \<noteq> Panic"
  by (induction s es rule: read_entries.induct)
    (auto simp: ok_iff read_field_no_panic split: cbor.splits if_splits)

lemma read_entries_err: "read_entries s es = Err e \<Longrightarrow> e = Malformed"
  by (induction s es rule: read_entries.induct)
    (auto simp: ok_iff split: cbor.splits if_splits dest: read_field_err)

section \<open>What the loop computes\<close>

text \<open>The entries with integer keys, and the value of a key.\<close>

definition int_entries :: "(cbor \<times> cbor) list \<Rightarrow> (int \<times> cbor) list" where
  "int_entries es = List.map_filter
     (\<lambda>(k, v). case k of Integer i \<Rightarrow> Some (i, v) | _ \<Rightarrow> None) es"

definition field :: "(cbor \<times> cbor) list \<Rightarrow> int \<Rightarrow> cbor option" where
  "field es k = map_of (int_entries es) k"

definition int_keys :: "(cbor \<times> cbor) list \<Rightarrow> bool" where
  "int_keys es \<longleftrightarrow> list_all (\<lambda>(k, v). \<exists>i. k = Integer i) es \<and> distinct (map fst es)"

lemma field_Cons:
  "field ((Integer i, v) # es) k = (if k = i then Some v else field es k)"
  by (simp add: field_def int_entries_def map_filter_simps)

lemma field_Nil [simp]: "field [] k = None"
  by (simp add: field_def int_entries_def map_filter_simps)

lemma field_Some_in: "field es k = Some v \<Longrightarrow> (Integer k, v) \<in> set es"
  by (auto simp: field_def int_entries_def split: cbor.splits dest!: map_of_SomeD)

lemma field_of_in: "int_keys es \<Longrightarrow> (Integer k, v) \<in> set es \<Longrightarrow> field es k = Some v"
proof (induction es)
  case (Cons e es)
  then show ?case
    by (cases e) (force simp: int_keys_def field_Cons image_iff)
qed simp

lemma read_entries_Ok_iff:
  "(\<exists>s. read_entries read_init es = Ok s) \<longleftrightarrow>
     int_keys es \<and> (\<forall>k v. field es k = Some v \<longrightarrow> field_ok k v)"
proof -
  have k: "List.map_filter entry_key es = map fst (int_entries es)" for es
    by (induction es) (auto simp: int_entries_def map_filter_simps split: cbor.splits)
  have e: "map fst es = map Integer (map fst (int_entries es))"
    if "list_all (\<lambda>(k, v). \<exists>i. k = Integer i) es" for es
    using that by (induction es) (auto simp: int_entries_def map_filter_simps)
  have i: "distinct (List.map_filter entry_key es) \<longleftrightarrow> distinct (map fst es)"
    if "list_all (\<lambda>(k, v). \<exists>i. k = Integer i) es"
    unfolding k e [OF that] by (simp add: distinct_map inj_on_def)
  have g: "list_all entry_good es \<longleftrightarrow>
      list_all (\<lambda>(k, v). \<exists>i. k = Integer i) es \<and> (\<forall>i v. (Integer i, v) \<in> set es \<longrightarrow> field_ok i v)"
    by (fastforce simp: list_all_iff split: cbor.splits)
  have "(\<exists>s. read_entries read_init es = Ok s) \<longleftrightarrow>
      list_all entry_good es \<and> distinct (List.map_filter entry_key es)"
    by (simp add: pl.scan_Ok_iff read_init_def)
  then show ?thesis
    using i g field_of_in field_Some_in unfolding int_keys_def by blast
qed

lemma read_entries_seen_field:
  "read_entries s es = Ok r \<Longrightarrow> k \<in> set (st_seen s) \<Longrightarrow> field es k = None"
proof (induction s es rule: read_entries.induct)
  case (2 s key val entries)
  then obtain i s' where i: "key = Integer i" "i \<noteq> k"
    and s': "read_field (s\<lparr>st_seen := st_seen s @ [i]\<rparr>) i val = Ok s'" "read_entries s' entries = Ok r"
    by (auto simp: ok_iff split: cbor.splits if_splits)
  have "k \<in> set (st_seen s')" using read_field_seen [OF s'(1)] "2.prems"(2) by simp
  then show ?case using "2" i s' by (auto simp: field_Cons split: if_splits)
qed simp

lemma read_entries_get:
  assumes seen: "\<And>s x. g (s\<lparr>st_seen := x\<rparr>) = g s"
    and step: "\<And>s i v s'. read_field s i v = Ok s' \<Longrightarrow> g s' = (if i = k then f v else g s)"
  shows "read_entries s es = Ok r \<Longrightarrow> g r = (case field es k of Some v \<Rightarrow> f v | None \<Rightarrow> g s)"
proof (induction s es rule: read_entries.induct)
  case (2 s key val entries)
  then obtain i s' where i: "key = Integer i" "i \<notin> set (st_seen s)"
    and s': "read_field (s\<lparr>st_seen := st_seen s @ [i]\<rparr>) i val = Ok s'" "read_entries s' entries = Ok r"
    by (auto simp: ok_iff split: cbor.splits if_splits)
  have IH: "g r = (case field entries k of Some v \<Rightarrow> f v | None \<Rightarrow> g s')"
    using "2.IH" i s' by simp
  have g: "g s' = (if i = k then f val else g s)" using step [OF s'(1)] seen by simp
  have "field entries i = None"
    using read_entries_seen_field [OF s'(2), of i] read_field_seen [OF s'(1)] by simp
  then show ?case using IH g i by (auto simp: field_Cons split: option.splits)
qed simp

definition opt_text :: "cbor option \<Rightarrow> string option" where
  "opt_text v = (case v of Some x \<Rightarrow> ok (value_text x) | None \<Rightarrow> None)"

definition opt_bytes :: "cbor option \<Rightarrow> u8 list option" where
  "opt_bytes v = (case v of Some x \<Rightarrow> ok (value_bytes x) | None \<Rightarrow> None)"

definition opt_uint :: "cbor option \<Rightarrow> u64 option" where
  "opt_uint v = (case v of Some x \<Rightarrow> ok (value_uint x) | None \<Rightarrow> None)"

lemma ok_Some_iff: "ok m = Some x \<longleftrightarrow> m = Ok x"
  by (cases m) auto

lemma opt_Some_iff:
  "opt_text v = Some t \<longleftrightarrow> v = Some (Text t)"
  "opt_bytes v = Some b \<longleftrightarrow> v = Some (Bytes b)"
  "opt_uint v = Some u \<longleftrightarrow> v = Some (Integer (uint u))"
  by (cases v; auto simp: opt_text_def opt_bytes_def opt_uint_def ok_Some_iff ok_iff)+

lemma ok_value_uint [simp]: "ok (ok_or (u64_try_from (uint u)) Malformed) = Some u"
  by (simp add: ok_Some_iff ok_iff u64_try_from_Some)

lemma read_field_fields:
  assumes "read_field s i v = Ok s'"
  shows "st_operator s' = (if i = 1 then ok (value_text v) else st_operator s)"
    "st_prefix_bytes s' = (if i = 2 then ok (value_bytes v) else st_prefix_bytes s)"
    "st_unit s' = (if i = 3 then ok (value_uint v) else st_unit s)"
    "st_iat s' = (if i = 4 then ok (value_uint v) else st_iat s)"
    "st_exp s' = (if i = 5 then ok (value_uint v) else st_exp s)"
    "st_role_text s' = (if i = 6 then ok (value_text v) else st_role_text s)"
  using assms by (auto simp: read_field_def key_consts ok_iff split: if_splits)

lemma read_entries_opt:
  assumes "\<And>s x. g (s\<lparr>st_seen := x\<rparr>) = g s"
    and "\<And>s i v s'. read_field s i v = Ok s' \<Longrightarrow> g s' = (if i = k then f v else g s)"
    and "g read_init = None" and "read_entries read_init es = Ok s"
  shows "g s = (case field es k of Some v \<Rightarrow> f v | None \<Rightarrow> None)"
  using read_entries_get [of g k f, OF assms(1,2,4)] assms(3) by (simp split: option.splits)

lemma read_entries_fields:
  assumes "read_entries read_init es = Ok s"
  shows "st_operator s = opt_text (field es 1)" "st_prefix_bytes s = opt_bytes (field es 2)"
    "st_unit s = opt_uint (field es 3)" "st_iat s = opt_uint (field es 4)"
    "st_exp s = opt_uint (field es 5)" "st_role_text s = opt_text (field es 6)"
  unfolding opt_text_def opt_bytes_def opt_uint_def
  by (rule read_entries_opt [OF _ _ _ assms]; simp add: read_field_fields read_init_def)+

section \<open>What a valid payload is\<close>

text \<open>
  The draft's rules, stated on the table of fields instead of the loop. The first predicate
  ties the payload to the map entries, the second is the invariant of every payload.
\<close>

definition payload_claims :: "(cbor \<times> cbor) list \<Rightarrow> payload \<Rightarrow> bool" where
  "payload_claims es p \<longleftrightarrow>
     (\<exists>dom. field es 1 = Some (Text dom) \<and> is_operator_domain dom \<and>
        pl_operator p = to_ascii_lowercase dom) \<and>
     (\<exists>pb. field es 2 = Some (Bytes pb) \<and> length pb = 17 \<and>
        pl_prefix p = \<lparr>pfx_addr = of_octets (take 16 pb), pfx_len = pb ! 16\<rparr>) \<and>
     (field es 3 = None \<and> pl_unit p = 64 \<or> field es 3 = Some (Integer (uint (pl_unit p)))) \<and>
     field es 4 = Some (Integer (uint (pl_iat p))) \<and>
     field es 5 = Some (Integer (uint (pl_exp p))) \<and>
     field es 6 = Some (Text (role_as_str (pl_role p)))"

definition fields_typed :: "(cbor \<times> cbor) list \<Rightarrow> bool" where
  "fields_typed es \<longleftrightarrow> (\<forall>k u. field es k = Some u \<longrightarrow> field_ok k u)"

definition payload_ok :: "payload \<Rightarrow> bool" where
  "payload_ok p \<longleftrightarrow>
     is_operator_domain (pl_operator p) \<and>
     to_ascii_lowercase (pl_operator p) = pl_operator p \<and>
     is_attestable (pl_prefix p) \<and>
     uint (pl_iat p) < uint (pl_exp p) \<and> uint (pl_exp p) - uint (pl_iat p) \<le> 86400 \<and>
     unat (pfx_len (pl_prefix p)) \<le> unat (pl_unit p) \<and> unat (pl_unit p) \<le> 64 \<and>
     (pl_role p = EspTenant \<longrightarrow> pl_unit p = pfx_len (pl_prefix p))"

lemma decode_prefix_Ok_iff [ok_iff]:
  "decode_prefix b = Ok p \<longleftrightarrow> length b = 17 \<and> b ! 16 \<le> 128 \<and>
     p = \<lparr>pfx_addr = of_octets (take 16 b), pfx_len = b ! 16\<rparr>"
  by (auto simp: decode_prefix_def ok_iff try_into_array_def prefix_new_Some_iff)

lemma decode_prefix_no_panic [simp]: "decode_prefix b \<noteq> Panic"
  by (auto simp: decode_prefix_def ok_iff try_into_array_def split: if_splits)

lemma lifetime_iff:
  "uint (i :: u64) < uint e \<Longrightarrow> MAX_LIFETIME_SECS < e - i \<longleftrightarrow> 86400 < uint e - uint i"
  by (simp add: word_less_def MAX_LIFETIME_SECS_def uint_sub_if')

lemma unit_bounds_iff:
  "ucast MAX_PREFIX_LEN < (u :: u64) \<longleftrightarrow> 64 < uint u"
  "(u :: u64) < ucast (l :: u8) \<longleftrightarrow> uint u < uint l"
  by (simp_all add: word_less_def MAX_PREFIX_LEN_def uint_up_ucast is_up)

lemma ucast_small: "uint (u :: u64) \<le> 64 \<Longrightarrow> uint (ucast u :: u8) = uint u"
  by (simp add: unsigned_ucast_eq take_bit_int_eq_self)

lemma payload_state_iff:
  assumes "read_entries read_init es = Ok s"
  shows "payload_from_value (Map es) = Ok p \<longleftrightarrow>
     (\<exists>dom pb r. st_operator s = Some dom \<and> st_prefix_bytes s = Some pb \<and>
        st_iat s = Some (pl_iat p) \<and> st_exp s = Some (pl_exp p) \<and> st_role_text s = Some r \<and>
        is_operator_domain dom \<and> pl_operator p = to_ascii_lowercase dom \<and>
        r = role_as_str (pl_role p) \<and> decode_prefix pb = Ok (pl_prefix p)) \<and>
     is_attestable (pl_prefix p) \<and> uint (pl_iat p) < uint (pl_exp p) \<and>
     uint (pl_exp p) - uint (pl_iat p) \<le> 86400 \<and>
     (\<exists>u. u = (case st_unit s of Some u \<Rightarrow> u | None \<Rightarrow> ucast DEFAULT_UNIT) \<and>
        uint (pfx_len (pl_prefix p)) \<le> uint u \<and> uint u \<le> 64 \<and> pl_unit p = ucast u) \<and>
     (pl_role p = EspTenant \<longrightarrow> pl_unit p = pfx_len (pl_prefix p))"
  apply (cases p)
  apply (simp add: payload_from_value_def assms Let_def del: decode_prefix_Ok_iff split: option.split)
  apply (auto simp: Let_def and_then_Ok_iff ok_or_Ok_iff role_parse_iff lifetime_iff unit_bounds_iff
      word_le_def not_le not_less simp del: decode_prefix_Ok_iff split: if_splits option.splits)
  done

lemma unit_field_iff:
  assumes "\<And>v. field es 3 = Some v \<Longrightarrow> field_ok 3 v"
  shows "(\<exists>u. u = (case opt_uint (field es 3) of Some u \<Rightarrow> u | None \<Rightarrow> ucast DEFAULT_UNIT) \<and>
        uint (l :: u8) \<le> uint u \<and> uint u \<le> 64 \<and> n = (ucast u :: u8)) \<longleftrightarrow>
     (field es 3 = None \<and> n = 64 \<or> field es 3 = Some (Integer (uint n))) \<and> l \<le> n \<and> n \<le> 64"
proof (cases "field es 3")
  case None
  have "uint (ucast DEFAULT_UNIT :: u64) = 64" "(ucast (ucast DEFAULT_UNIT :: u64) :: u8) = 64"
    by (simp_all add: DEFAULT_UNIT_def)
  with None show ?thesis by (auto simp: opt_uint_def word_le_def)
next
  case (Some v)
  then obtain u where v: "v = Integer (uint (u :: u64))"
    using assms u64_try_from_Some by (fastforce simp: field_ok_def u64_try_from_def)
  show ?thesis
  proof (cases "uint u \<le> 64")
    case True
    have "(ucast (n :: u8) :: u64) = u \<longleftrightarrow> n = ucast u" if "uint n = uint u \<or> n = ucast u"
      using that True by (auto simp: word_uint_eq_iff uint_up_ucast is_up ucast_small)
    then show ?thesis using True Some v
      by (auto simp: opt_uint_def word_le_def ucast_small word_uint_eq_iff)
  next
    case False
    then show ?thesis using Some v by (auto simp: opt_uint_def word_le_def)
  qed
qed

lemma payload_Ok_iff:
  "payload_from_value v = Ok p \<longleftrightarrow>
     (\<exists>es. v = Map es \<and> int_keys es \<and> (\<forall>k u. field es k = Some u \<longrightarrow> field_ok k u) \<and>
        payload_claims es p \<and> payload_ok p)"
proof (cases v)
  case (Map es)
  show ?thesis
  proof (cases "read_entries read_init es")
    case (Ok s)
    then have wf: "int_keys es" "\<forall>k u. field es k = Some u \<longrightarrow> field_ok k u"
      using read_entries_Ok_iff by blast+
    note f = read_entries_fields [OF Ok]
    have u: "field es 3 = Some v \<Longrightarrow> field_ok 3 v" for v using wf by blast
    have l: "is_attestable (pl_prefix p) \<Longrightarrow> pfx_len (pl_prefix p) \<le> 128"
      using attestable_len by (fastforce simp: word_le_nat_alt)
    have "payload_from_value (Map es) = result.Ok p \<longleftrightarrow> payload_claims es p \<and> payload_ok p"
      unfolding payload_state_iff [OF Ok] f
      apply (subst unit_field_iff, erule u)
      unfolding opt_Some_iff payload_claims_def payload_ok_def decode_prefix_Ok_iff
      using l by (cases "pl_prefix p") (auto simp: word_le_nat_alt)
    then show ?thesis using Map wf by blast
  next
    case (Err e)
    then show ?thesis using Map read_entries_Ok_iff [of es] by (auto simp: payload_from_value_def)
  next
    case Panic
    then show ?thesis using read_entries_no_panic by blast
  qed
qed (simp_all add: payload_from_value_def)

text \<open>C9: A CBOR value is accepted as a payload exactly when it is a map with integer keys,
  none of them repeated, whose six defined fields hold the payload's values and satisfy
  every payload-intrinsic rule of the draft.\<close>

theorem payload_from_value_iff:
  "payload_from_value v = Ok p \<longleftrightarrow>
     (\<exists>es. v = Map es \<and> int_keys es \<and> fields_typed es \<and>
        payload_claims es p \<and> payload_ok p)"
  by (simp add: payload_Ok_iff fields_typed_def)

lemma payload_from_value_ok: "payload_from_value v = Ok p \<Longrightarrow> payload_ok p"
  by (auto simp: payload_Ok_iff)

section \<open>Errors, order and unknown keys\<close>

lemma read_entries_cases:
  obtains s where "read_entries read_init es = Ok s"
  | "read_entries read_init es = Err Malformed"
  using read_entries_no_panic read_entries_err by (metis result.exhaust)

text \<open>The part of \<open>from_value\<close> after the loop depends on the six fields only.\<close>

lemma payload_after_loop:
  assumes "read_entries read_init es = Ok s" and "read_entries read_init es' = Ok s'"
    and "\<And>k. k \<in> {1, 2, 3, 4, 5, 6} \<Longrightarrow> field es' k = field es k"
  shows "payload_from_value (Map es') = payload_from_value (Map es)"
proof -
  have f: "st_operator s' = st_operator s" "st_prefix_bytes s' = st_prefix_bytes s"
    "st_unit s' = st_unit s" "st_iat s' = st_iat s" "st_exp s' = st_exp s"
    "st_role_text s' = st_role_text s"
    using assms(3) by (simp_all add: read_entries_fields [OF assms(1)] read_entries_fields [OF assms(2)])
  show ?thesis unfolding payload_from_value_def cbor.case assms(1,2) and_then.simps f ..
qed

lemma payload_loop_err:
  "read_entries read_init es = Err e \<Longrightarrow> payload_from_value (Map es) = Err Malformed"
  using read_entries_err by (auto simp: payload_from_value_def)

lemma field_permute:
  assumes "mset es' = mset es" and "int_keys es"
  shows "field es' k = field es k"
proof -
  have i: "int_keys es'"
    using assms by (metis int_keys_def list_all_iff mset_eq_setD mset_map mset_eq_imp_distinct_iff)
  have "field es' k = Some v \<longleftrightarrow> field es k = Some v" for v
    using field_of_in field_Some_in i assms mset_eq_setD by metis
  then show ?thesis by (metis not_Some_eq)
qed

text \<open>Permuting the entries never changes the verdict, neither the payload accepted nor the reason.\<close>

lemma payload_permute:
  assumes "mset es' = mset es"
  shows "payload_from_value (Map es') = payload_from_value (Map es)"
proof -
  have loop: "(\<exists>s. read_entries read_init es = Ok s) \<Longrightarrow> (\<exists>s. read_entries read_init es' = Ok s)"
    if "mset es' = mset es" for es es'
    using pl.scan_Ok_mset [OF _ that, of read_init] by (auto simp: read_init_def)
  show ?thesis
  proof (cases es rule: read_entries_cases)
    case (1 s)
    then obtain s' where s': "read_entries read_init es' = Ok s'" using loop assms by blast
    have "int_keys es" using 1 read_entries_Ok_iff by blast
    then show ?thesis using payload_after_loop [OF 1 s'] field_permute [OF assms] by blast
  next
    case 2
    then have "read_entries read_init es' = Err Malformed"
      using loop [of es es'] assms by (cases es' rule: read_entries_cases) auto
    then show ?thesis using 2 by (simp add: payload_loop_err)
  qed
qed

text \<open>A map in which any key occurs twice is malformed, whatever the key, its values and the
  rest of the map: a second attested prefix cannot hide behind a first one.\<close>

theorem payload_duplicate_key:
  assumes "\<not> distinct (map fst es)"
  shows "payload_from_value (Map es) = Err Malformed"
  using assms read_entries_Ok_iff [of es]
  by (cases es rule: read_entries_cases) (auto simp: int_keys_def payload_loop_err)

text \<open>Nor does an entry whose integer key the draft leaves open.\<close>

lemma payload_ignore:
  assumes "k < 1 \<or> 6 < k" and "Integer k \<notin> fst ` set es"
  shows "payload_from_value (Map ((Integer k, v) # es)) = payload_from_value (Map es)"
proof -
  let ?es = "(Integer k, v) # es"
  have f: "field ?es i = field es i" if "i \<in> {1, 2, 3, 4, 5, 6}" for i
    using that assms(1) by (auto simp: field_Cons)
  have "field es k = None"
    using assms(2) field_Some_in by (metis fst_conv image_eqI not_Some_eq)
  moreover have "field_ok k v" using assms(1) by (auto simp: field_ok_def)
  moreover have "int_keys ?es \<longleftrightarrow> int_keys es" using assms(2) by (auto simp: int_keys_def)
  ultimately have "(\<exists>s. read_entries read_init ?es = Ok s) \<longleftrightarrow> (\<exists>s. read_entries read_init es = Ok s)"
    unfolding read_entries_Ok_iff by (auto simp: field_Cons) (metis option.distinct(1))
  then show ?thesis
    using f payload_after_loop [of es _ ?es] payload_loop_err read_entries_no_panic
    by (metis result.exhaust)
qed

definition open_entries :: "(cbor \<times> cbor) list \<Rightarrow> bool" where
  "open_entries es \<longleftrightarrow> distinct (map fst es) \<and>
     list_all (\<lambda>e. \<exists>k. fst e = Integer k \<and> (k < 1 \<or> 6 < k)) es"

lemma payload_ignore_all:
  assumes "open_entries extra" and "fst ` set extra \<inter> fst ` set es = {}"
  shows "payload_from_value (Map (extra @ es)) = payload_from_value (Map es)"
  using assms
proof (induction extra)
  case (Cons e extra)
  from Cons.prems(1) obtain k v where e: "e = (Integer k, v)" and k: "k < 1 \<or> 6 < k"
    by (cases e) (auto simp: open_entries_def)
  have "Integer k \<notin> fst ` set (extra @ es)" using Cons.prems by (auto simp: e open_entries_def)
  then have "payload_from_value (Map (e # extra @ es)) = payload_from_value (Map (extra @ es))"
    unfolding e by (rule payload_ignore [OF k])
  then show ?case using Cons by (simp add: open_entries_def)
qed simp

text \<open>C15: The map of a payload is open and unordered: entries under integer keys the draft leaves open, as
  many as one likes and in any places among the others, change neither the payload accepted nor
  the reason for refusing it, and nor does the order of the entries. (Deterministic encoding is
  not required.)\<close>

theorem payload_open_map:
  assumes "mset es' = mset (extra @ es)" and "open_entries extra"
    and "fst ` set extra \<inter> fst ` set es = {}"
  shows "payload_from_value (Map es') = payload_from_value (Map es)"
  using payload_permute [OF assms(1)] payload_ignore_all [OF assms(2,3)] by simp

lemma payload_total:
  "(\<exists>p. payload_from_value v = Ok p) \<or>
   (\<exists>e \<in> {Malformed, BadRole, BadPrefix, BadValidity, LifetimeTooLong, BadUnit}.
      payload_from_value v = Err e)"
proof (cases v)
  case (Map es)
  show ?thesis
  proof (cases es rule: read_entries_cases)
    case (1 s)
    have d: "decode_prefix b = Err e \<Longrightarrow> e = Malformed \<or> e = BadPrefix" for b e
      by (auto simp: decode_prefix_def ok_iff try_into_array_def split: if_splits)
    show ?thesis
    proof (cases "payload_from_value v")
      case (Err e)
      then show ?thesis
        using Map 1 by (auto simp: payload_from_value_def ok_iff Let_def dest!: d split: option.splits if_splits)
    next
      case Panic
      then show ?thesis
        using Map 1 by (auto simp: payload_from_value_def ok_iff Let_def split: option.splits if_splits)
    qed simp
  qed (use Map in \<open>simp add: payload_loop_err\<close>)
qed (simp_all add: payload_from_value_def)

lemma payload_no_panic: "payload_from_value v \<noteq> Panic"
  using payload_total by (metis result.distinct)

text \<open>The raw contents of a map that has every required field, with the types the draft gives them.\<close>

definition payload_fields ::
  "(cbor \<times> cbor) list \<Rightarrow> string \<Rightarrow> u8 list \<Rightarrow> int \<Rightarrow> u64 \<Rightarrow> u64 \<Rightarrow> string \<Rightarrow> bool" where
  "payload_fields es name pb unit iat exp r \<longleftrightarrow>
     int_keys es \<and> fields_typed es \<and>
     field es 1 = Some (Text name) \<and> field es 2 = Some (Bytes pb) \<and>
     (field es 3 = None \<and> unit = 64 \<or> field es 3 = Some (Integer unit)) \<and>
     field es 4 = Some (Integer (uint iat)) \<and> field es 5 = Some (Integer (uint exp)) \<and>
     field es 6 = Some (Text r)"

text \<open>The rules in the order of the source, each with the reason it gives.\<close>

definition payload_checks ::
  "string \<Rightarrow> u8 list \<Rightarrow> int \<Rightarrow> u64 \<Rightarrow> u64 \<Rightarrow> string \<Rightarrow> (bool \<times> reason) list" where
  "payload_checks name pb unit iat exp r =
      [(\<not> is_operator_domain name, Malformed),
       (r \<notin> range role_as_str, BadRole),
       (length pb \<noteq> 17, Malformed),
       (128 < pb ! 16 \<or> \<not> is_attestable \<lparr>pfx_addr = of_octets (take 16 pb), pfx_len = pb ! 16\<rparr>, BadPrefix),
       (exp \<le> iat, BadValidity),
       (86400 < uint exp - uint iat, LifetimeTooLong),
       (64 < unit \<or> unit < uint (pb ! 16) \<or> r = ''esp-tenant'' \<and> unit \<noteq> uint (pb ! 16), BadUnit)]"

lemma role_parse_None_iff: "role_parse s = None \<longleftrightarrow> s \<notin> range role_as_str"
  using role_parse_iff by (metis not_Some_eq rangeE rangeI)

lemma decode_prefix_cases:
  "decode_prefix b =
     (if length b \<noteq> 17 then Err Malformed
      else if 128 < b ! 16 then Err BadPrefix
      else Ok \<lparr>pfx_addr = of_octets (take 16 b), pfx_len = b ! 16\<rparr>)"
  by (auto simp: decode_prefix_def try_into_array_def prefix_new_def)

lemma unit_state:
  assumes "field es 3 = None \<and> unit = 64 \<or> field es 3 = Some (Integer unit)" and "fields_typed es"
  shows "uint (case opt_uint (field es 3) of Some u \<Rightarrow> u | None \<Rightarrow> ucast DEFAULT_UNIT) = unit"
  using assms(1)
proof
  assume "field es 3 = None \<and> unit = 64"
  then show ?thesis by (simp add: opt_uint_def DEFAULT_UNIT_def)
next
  assume f: "field es 3 = Some (Integer unit)"
  then have "field_ok 3 (Integer unit)" using assms(2) by (simp add: fields_typed_def)
  then obtain u :: u64 where "unit = uint u"
    using u64_try_from_Some by (fastforce simp: field_ok_def u64_try_from_def)
  then show ?thesis using f by (simp add: opt_uint_def)
qed

text \<open>\<open>from_value\<close> after the loop, on the raw contents.\<close>

definition validate :: "string \<Rightarrow> u8 list \<Rightarrow> u64 \<Rightarrow> u64 \<Rightarrow> u64 \<Rightarrow> string \<Rightarrow> (payload, reason) result" where
  "validate name pb u iat exp r =
     (if \<not> is_operator_domain name then Err Malformed
      else and_then (ok_or (role_parse r) BadRole) (\<lambda>role.
           and_then (decode_prefix pb) (\<lambda>prefix.
           if \<not> is_attestable prefix then Err BadPrefix
           else if exp \<le> iat then Err BadValidity
           else if MAX_LIFETIME_SECS < exp - iat then Err LifetimeTooLong
           else if ucast MAX_PREFIX_LEN < u \<or> u < ucast (pfx_len prefix) then Err BadUnit
           else if role = EspTenant \<and> ucast u \<noteq> pfx_len prefix then Err BadUnit
           else Ok \<lparr>pl_operator = to_ascii_lowercase name, pl_prefix = prefix,
                    pl_unit = ucast u, pl_iat = iat, pl_exp = exp, pl_role = role\<rparr>)))"

lemma payload_of_fields:
  assumes f: "payload_fields es name pb unit iat exp r"
  obtains u :: u64 where "uint u = unit" and "payload_from_value (Map es) = validate name pb u iat exp r"
proof -
  obtain s where s: "read_entries read_init es = Ok s"
    using f read_entries_Ok_iff [of es] by (auto simp: payload_fields_def fields_typed_def)
  note st = read_entries_fields [OF s]
  define u where "u = (case st_unit s of Some u \<Rightarrow> u | None \<Rightarrow> ucast DEFAULT_UNIT)"
  have u: "uint u = unit" using f unit_state [of es unit] by (simp add: u_def st payload_fields_def)
  have v: "st_operator s = Some name" "st_prefix_bytes s = Some pb" "st_iat s = Some iat"
    "st_exp s = Some exp" "st_role_text s = Some r"
    using f by (simp_all add: st payload_fields_def opt_Some_iff)
  show thesis
    by (rule that [OF u]) (unfold payload_from_value_def validate_def u_def Let_def, simp add: s v)
qed

text \<open>The two tests on the unit as one condition on integers.\<close>

lemma unit_rule:
  assumes "role_parse r = Some ro"
  shows "(ucast MAX_PREFIX_LEN < (u :: u64) \<or> u < ucast l) \<or> ro = EspTenant \<and> ucast u \<noteq> (l :: u8) \<longleftrightarrow>
    64 < uint u \<or> uint u < uint l \<or> r = ''esp-tenant'' \<and> uint u \<noteq> uint l"
proof -
  have "(ucast u :: u8) \<noteq> l \<longleftrightarrow> uint u \<noteq> uint l" if "uint u \<le> 64"
    using that ucast_small [of u] by (auto simp: word_uint_eq_iff)
  moreover have "ro = EspTenant \<longleftrightarrow> r = ''esp-tenant''"
    using assms by (cases ro) (auto simp: role_parse_iff)
  ultimately show ?thesis using unit_bounds_iff(1) [of u] unit_bounds_iff(2) [of u l] by auto
qed

lemma validate_first_reason:
  "validate name pb u iat exp r = Err e \<longleftrightarrow>
    first_reason (payload_checks name pb (uint u) iat exp r) = Some e"
proof (cases "role_parse r")
  case None
  then have "r \<notin> range role_as_str" by (simp add: role_parse_None_iff)
  with None show ?thesis by (simp add: validate_def payload_checks_def)
next
  case (Some ro)
  then have r: "r \<in> range role_as_str" by (auto simp: role_parse_iff)
  have life: "\<not> exp \<le> iat \<Longrightarrow> MAX_LIFETIME_SECS < exp - iat \<longleftrightarrow> 86400 < uint exp - uint iat"
    by (intro lifetime_iff) (simp add: word_le_def)
  have merge: "(if A then x else if B then x else y) = (if A \<or> B then x else y)"
    for A B and x y :: "(payload, reason) result" by simp
  have v: "validate name pb u iat exp r =
     (if \<not> is_operator_domain name then Err Malformed
      else and_then (decode_prefix pb) (\<lambda>prefix.
           if \<not> is_attestable prefix then Err BadPrefix
           else if exp \<le> iat then Err BadValidity
           else if MAX_LIFETIME_SECS < exp - iat then Err LifetimeTooLong
           else if 64 < uint u \<or> uint u < uint (pfx_len prefix) \<or>
             r = ''esp-tenant'' \<and> uint u \<noteq> uint (pfx_len prefix) then Err BadUnit
           else Ok \<lparr>pl_operator = to_ascii_lowercase name, pl_prefix = prefix,
                    pl_unit = ucast u, pl_iat = iat, pl_exp = exp, pl_role = ro\<rparr>))"
    unfolding validate_def Some ok_or.simps and_then.simps unit_rule [OF Some, symmetric] merge ..
  show ?thesis
    unfolding v decode_prefix_cases payload_checks_def using r life by (cases "exp \<le> iat") simp_all
qed

lemma payload_first_reason:
  assumes "payload_fields es name pb unit iat exp r"
  shows "payload_from_value (Map es) = Err e \<longleftrightarrow>
    first_reason (payload_checks name pb unit iat exp r) = Some e"
  using payload_of_fields [OF assms] validate_first_reason by metis

lemma payload_no_fields:
  assumes "\<nexists>name pb unit iat exp r. payload_fields es name pb unit iat exp r"
  shows "payload_from_value (Map es) = Err Malformed"
proof (cases es rule: read_entries_cases)
  case (1 s)
  then have wf: "int_keys es" "fields_typed es"
    using read_entries_Ok_iff [of es] by (auto simp: fields_typed_def)
  note st = read_entries_fields [OF 1]
  have "\<exists>unit. field es 3 = None \<and> unit = 64 \<or> field es 3 = Some (Integer unit)"
    using wf(2) by (cases "field es 3") (fastforce simp: fields_typed_def field_ok_def)+
  then have "\<not> (\<exists>name pb iat exp r. st_operator s = Some name \<and> st_prefix_bytes s = Some pb \<and>
      st_iat s = Some iat \<and> st_exp s = Some exp \<and> st_role_text s = Some r)"
    using assms wf by (auto simp: payload_fields_def st opt_Some_iff)
  then show ?thesis by (auto simp: payload_from_value_def 1 split: option.splits)
qed (simp add: payload_loop_err)

text \<open>C19: The reason for refusing a payload: what is no map, or a map with a repeated or non-integer key,
  a missing required field or a field of the wrong type, is malformed; otherwise the reason is that of the
  first rule broken, in the order domain, role, length of the prefix octets, prefix, validity,
  lifetime, unit.\<close>

theorem payload_from_value_errors:
  "payload_from_value v = Err e \<longleftrightarrow>
     (\<nexists>es name pb unit iat exp r. v = Map es \<and> payload_fields es name pb unit iat exp r) \<and> e = Malformed \<or>
     (\<exists>es name pb unit iat exp r. v = Map es \<and> payload_fields es name pb unit iat exp r \<and>
        first_reason (payload_checks name pb unit iat exp r) = Some e)"
proof (cases "\<exists>es name pb unit iat exp r. v = Map es \<and> payload_fields es name pb unit iat exp r")
  case True
  then show ?thesis using payload_first_reason by blast
next
  case False
  have "payload_from_value v = Err Malformed"
  proof (cases v)
    case (Map es)
    with False show ?thesis by (intro payload_no_fields [of es, folded Map]) blast
  qed (simp_all add: payload_from_value_def)
  with False show ?thesis by auto
qed

definition tag_free :: "(int \<times> u64 option \<times> cbor) list \<Rightarrow> bool" where
  "tag_free m \<longleftrightarrow> (\<forall>k t v. (k, t, v) \<in> set m \<and> 1 \<le> k \<and> k \<le> 6 \<longrightarrow> t = None)"

lemma reject_tagged_cases:
  "reject_tagged_fields lib bytes =
     (if \<exists>m. de_map lib bytes = Some m \<and> tag_free m then Ok () else Err Malformed)"
proof -
  have "k \<in> {1, 2, 3, 4, 5, 6 :: int} \<longleftrightarrow> 1 \<le> k \<and> k \<le> 6" for k by auto
  then show ?thesis
    by (cases "de_map lib bytes")
      (fastforce simp: reject_tagged_fields_def key_consts list_ex_iff tag_free_def)+
qed

text \<open>The tag check passes exactly when the payload decodes as an integer-keyed map none of
  whose six defined values carries a tag; anything else is malformed.\<close>

theorem reject_tagged_fields_iff:
  "reject_tagged_fields lib bytes =
     (if \<exists>m. de_map lib bytes = Some m \<and> tag_free m then Ok () else Err Malformed)"
  by (rule reject_tagged_cases)

section \<open>The payload of the published vectors\<close>

definition doc_entries :: "(cbor \<times> cbor) list" where
  "doc_entries =
     [(Integer 1, Text ''mailer.example.com''),
      (Integer 2, Bytes [0x20, 1, 0x0d, 0xb8, 0x0f, 0, 0, 0, 0, 0, 0, 0, 0, 0, 0, 0, 48]),
      (Integer 3, Integer 64), (Integer 4, Integer 0x6a78a400), (Integer 5, Integer 0x6a78b210),
      (Integer 6, Text ''mta'')]"

definition doc_payload :: payload where
  "doc_payload = \<lparr>pl_operator = ''mailer.example.com'', pl_prefix = doc_prefix, pl_unit = 64,
     pl_iat = 0x6a78a400, pl_exp = 0x6a78b210, pl_role = Mta\<rparr>"

lemma doc_domain: "is_operator_domain ''mailer.example.com''"
  "to_ascii_lowercase ''mailer.example.com'' = ''mailer.example.com''"
  by code_simp+

lemma doc_decode_prefix:
  "decode_prefix [0x20, 1, 0x0d, 0xb8, 0x0f, 0, 0, 0, 0, 0, 0, 0, 0, 0, 0, 0, 48] = Ok doc_prefix"
  by (simp add: decode_prefix_Ok_iff doc_prefix_def of_octets_code)

lemma doc_payload_accepted: "payload_from_value (Map doc_entries) = Ok doc_payload"
proof -
  have loop: "read_entries read_init doc_entries =
    Ok \<lparr>st_operator = Some ''mailer.example.com'',
      st_prefix_bytes = Some [0x20, 1, 0x0d, 0xb8, 0x0f, 0, 0, 0, 0, 0, 0, 0, 0, 0, 0, 0, 48],
      st_unit = Some 64, st_iat = Some 0x6a78a400, st_exp = Some 0x6a78b210,
      st_role_text = Some ''mta'', st_seen = [1, 2, 3, 4, 5, 6]\<rparr>"
    by (simp add: doc_entries_def read_init_def read_field_def key_consts u64_try_from_def)
  show ?thesis
    by (simp add: payload_state_iff [OF loop] doc_domain doc_payload_def doc_prefix_attestable
        doc_decode_prefix del: decode_prefix_Ok_iff) (simp add: doc_prefix_def)
qed

lemma operator_domain_alphabet_witness: "LDH (code (hd ''mailer.example.com''))"
  using operator_domain_alphabet [OF doc_domain(1), of "CHR ''m''"] by (simp add: LDH_def code_def)

lemma payload_duplicate_key_witness:
  "payload_from_value (Map (doc_entries @ [(Integer 2, Bytes [])])) = Err Malformed"
  by (rule payload_duplicate_key) (simp add: doc_entries_def)

lemma payload_open_map_witness:
  "payload_from_value (Map (rev doc_entries @ [(Integer 0, Null), (Integer (-7), Float 0)])) = Ok doc_payload"
proof -
  let ?extra = "[(Integer 0, Null), (Integer (-7), Float 0)]"
  have "mset (rev doc_entries @ ?extra) = mset (?extra @ doc_entries)" by simp
  moreover have "open_entries ?extra" by (simp add: open_entries_def)
  moreover have "fst ` set ?extra \<inter> fst ` set doc_entries = {}" by (simp add: doc_entries_def)
  ultimately show ?thesis using payload_open_map doc_payload_accepted by metis
qed

end
