(* ===== verification/Sworn_Record.thy ===== *)
theory Sworn_Record
  imports Sworn_Payload
begin

text \<open>
  \<open>src/record.rs\<close>: the DNS records of an operator. \<open>parse_tags\<close> splits a record into tags
  (\<open>read_tags\<close> is its loop, an instance of \<open>keyed_table\<close>), \<open>key_record_parse\<close> and
  \<open>policy_record_parse\<close> read the two kinds of record from the tags, and \<open>authorizes\<close> is the
  policy decision on a token's prefix. The base64 decoder is a parameter \<open>b64\<close>.
\<close>

section \<open>Errors\<close>

definition VERSION :: string where "VERSION = ''SWORN1''"
definition MAX_POLICY_PREFIXES :: nat where "MAX_POLICY_PREFIXES = 64"

datatype record_error =
    NotSworn
  | MalformedTag
  | DuplicateTag
  | MissingTag string
  | BadValue string
  | UnknownAlgorithm

fun record_error_display :: "record_error \<Rightarrow> string" where
  "record_error_display NotSworn = ''record does not begin with v=SWORN1''"
| "record_error_display MalformedTag = ''malformed tag''"
| "record_error_display DuplicateTag = ''duplicate tag''"
| "record_error_display (MissingTag tag) = ''missing required tag '' @ tag @ ''=''"
| "record_error_display (BadValue tag) = ''invalid value for tag '' @ tag @ ''=''"
| "record_error_display UnknownAlgorithm = ''unimplemented k= algorithm''"

section \<open>Tags\<close>

text \<open>\<open>blank_octet\<close> is the test on the octets of a value, \<open>admitted_octet\<close> the octet gate.\<close>

definition blank_octet :: "nat \<Rightarrow> bool" where
  "blank_octet c \<longleftrightarrow> c = 32 \<or> c = 9"

definition admitted_octet :: "nat \<Rightarrow> bool" where
  "admitted_octet byte \<longleftrightarrow> \<not> (byte \<noteq> 9 \<and> \<not> (0x20 \<le> byte \<and> byte \<le> 0x7E))"

fun read_tags ::
  "(string \<times> string) list \<Rightarrow> string list \<Rightarrow> ((string \<times> string) list, record_error) result" where
  "read_tags tags [] = Ok tags"
| "read_tags tags (segment # segs) =
     (if trim segment = [] then read_tags tags segs
      else and_then (ok_or (split_once CHR ''='' (trim segment)) MalformedTag) (\<lambda>nv.
        if trim (fst nv) = [] \<or> list_ex (\<lambda>c. blank_octet (code c)) (trim (snd nv))
        then Err MalformedTag
        else if list_ex (\<lambda>(seen, _). seen = trim (fst nv)) tags then Err DuplicateTag
        else read_tags (tags @ [(trim (fst nv), trim (snd nv))]) segs))"

definition parse_tags :: "string \<Rightarrow> ((string \<times> string) list, record_error) result" where
  "parse_tags txt =
     (if list_ex (\<lambda>c. \<not> admitted_octet (code c)) txt then Err MalformedTag
      else and_then (read_tags [] (split_on CHR '';'' txt)) (\<lambda>tags.
        case tags of
          (name, value) # _ \<Rightarrow>
            if name = ''v'' \<and> value = VERSION then Ok tags else Err NotSworn
        | [] \<Rightarrow> Err NotSworn))"

definition get :: "(string \<times> string) list \<Rightarrow> string \<Rightarrow> string option" where
  "get tags name = map_option snd (find (\<lambda>(tag, _). tag = name) tags)"

section \<open>Key records\<close>

record 'k key_record =
  kr_public_key :: "'k ed25519_public_key"

definition key_record_parse ::
  "(string \<Rightarrow> u8 list option) \<Rightarrow> 'k dalek \<Rightarrow> string \<Rightarrow> ('k key_record, record_error) result" where
  "key_record_parse b64 d txt =
     and_then (parse_tags txt) (\<lambda>tags.
     and_then (ok_or (get tags ''k'') (MissingTag ''k'')) (\<lambda>algorithm.
     if algorithm \<noteq> ''ed25519'' then Err UnknownAlgorithm
     else
     and_then (ok_or (get tags ''pk'') (MissingTag ''pk'')) (\<lambda>encoded.
     and_then (ok_or (b64 encoded) (BadValue ''pk'')) (\<lambda>raw.
     and_then (ok_or (key_from_bytes d raw) (BadValue ''pk'')) (\<lambda>public_key.
     Ok \<lparr>kr_public_key = public_key\<rparr>)))))"

section \<open>Policy records\<close>

record policy_record =
  pol_prefixes :: "ipv6_prefix list"
  pol_unit :: u8
  pol_testing :: bool
  pol_rua :: "string option"

definition atom_octet :: "char \<Rightarrow> bool" where
  "atom_octet c \<longleftrightarrow> is_ascii_alphanumeric (code c) \<or> c \<in> set ''!#$%&'*+-/=?^_`{|}~''"

definition valid_rua :: "string \<Rightarrow> bool" where
  "valid_rua value =
     (case strip_prefix ''mailto:'' value of
        None \<Rightarrow> False
      | Some address \<Rightarrow>
          if length (filter (\<lambda>c. c = CHR ''@'') address) \<noteq> 1 then False
          else (case split_once CHR ''@'' address of
              None \<Rightarrow> False
            | Some (local_part, domain) \<Rightarrow>
                local_part \<noteq> [] \<and>
                list_all (\<lambda>atom. atom \<noteq> [] \<and> list_all atom_octet atom) (split_on CHR ''.'' local_part) \<and>
                is_operator_domain domain))"

fun read_prefixes ::
  "ipv6_prefix list \<Rightarrow> string list \<Rightarrow> (ipv6_prefix list, record_error) result" where
  "read_prefixes prefixes [] = Ok prefixes"
| "read_prefixes prefixes (entry # entries) =
     and_then (map_err (\<lambda>_. BadValue ''p'') (prefix_from_str entry)) (\<lambda>prefix.
       if \<not> is_attestable prefix then Err (BadValue ''p'')
       else read_prefixes (prefixes @ [prefix]) entries)"

definition policy_prefixes :: "(string \<times> string) list \<Rightarrow> (ipv6_prefix list, record_error) result" where
  "policy_prefixes tags =
     (case get tags ''p'' of
        Some list \<Rightarrow>
          read_prefixes [] (take MAX_POLICY_PREFIXES (filter (\<lambda>entry. entry \<noteq> []) (split_on CHR '','' list)))
      | None \<Rightarrow> Ok [])"

definition policy_unit :: "(string \<times> string) list \<Rightarrow> (u8, record_error) result" where
  "policy_unit tags =
     (case get tags ''u'' of
        Some value \<Rightarrow>
          and_then (ok_or (parse_decimal value) (BadValue ''u'')) (\<lambda>unit.
            if \<not> (1 \<le> unit \<and> unit \<le> MAX_PREFIX_LEN) then Err (BadValue ''u'') else Ok unit)
      | None \<Rightarrow> Ok DEFAULT_UNIT)"

definition policy_testing :: "(string \<times> string) list \<Rightarrow> bool" where
  "policy_testing tags =
     (case get tags ''t'' of
        Some flags \<Rightarrow> list_ex (\<lambda>flag. flag = ''y'') (split_on CHR '':'' flags)
      | None \<Rightarrow> False)"

definition policy_rua :: "(string \<times> string) list \<Rightarrow> (string option, record_error) result" where
  "policy_rua tags =
     (case get tags ''rua'' of
        Some value \<Rightarrow> if \<not> valid_rua value then Err (BadValue ''rua'') else Ok (Some value)
      | None \<Rightarrow> Ok None)"

definition policy_record_parse :: "string \<Rightarrow> (policy_record, record_error) result" where
  "policy_record_parse txt =
     and_then (parse_tags txt) (\<lambda>tags.
     and_then (policy_prefixes tags) (\<lambda>prefixes.
     and_then (policy_unit tags) (\<lambda>unit.
     let testing = policy_testing tags in
     and_then (policy_rua tags) (\<lambda>rua.
     if list_ex (\<lambda>prefix. unit < pfx_len prefix) prefixes then Err (BadValue ''u'')
     else Ok \<lparr>pol_prefixes = prefixes, pol_unit = unit, pol_testing = testing, pol_rua = rua\<rparr>))))"

definition authorizes :: "policy_record \<Rightarrow> ipv6_prefix \<Rightarrow> bool" where
  "authorizes policy token_prefix \<longleftrightarrow>
     is_attestable token_prefix \<and>
     list_ex (\<lambda>allowed. is_attestable allowed \<and> pfx_len allowed \<le> pfx_len token_prefix \<and>
       contains allowed (pfx_addr token_prefix)) (pol_prefixes policy)"

section \<open>The tag loop as an instance of the keyed table\<close>

lemma blank_octet_code [simp]: "blank_octet (code c) = is_blank c"
  by (simp add: blank_octet_def is_blank_def)

lemma admitted_octet_code [simp]: "admitted_octet (code c) = printable c"
  by (auto simp: admitted_octet_def printable_def)

text \<open>A segment of the record: empty, or a name and a value around the first \<open>=\<close>.\<close>

definition seg_item :: "string \<Rightarrow> string option" where
  "seg_item seg =
     (if trim seg = [] then None else map_option (\<lambda>nv. trim (fst nv)) (split_once CHR ''='' (trim seg)))"

definition seg_val :: "string \<Rightarrow> string" where
  "seg_val seg = (case split_once CHR ''='' (trim seg) of Some nv \<Rightarrow> trim (snd nv) | None \<Rightarrow> [])"

definition seg_good :: "string \<Rightarrow> bool" where
  "seg_good seg \<longleftrightarrow> trim seg = [] \<or>
     (case split_once CHR ''='' (trim seg) of
        None \<Rightarrow> False
      | Some nv \<Rightarrow> trim (fst nv) \<noteq> [] \<and> list_all (\<lambda>c. \<not> is_blank c) (trim (snd nv)))"

interpretation tags: keyed_table read_tags seg_good seg_item seg_val
proof (unfold_locales, goal_cases)
  case (1 s)
  show ?case by simp
next
  case (2 s x xs r)
  have m: "k \<in> fst ` set s \<longleftrightarrow> list_ex (\<lambda>(seen, _). seen = k) s" for k
    by (force simp: list_ex_iff)
  have b: "list_ex is_blank v \<longleftrightarrow> \<not> list_all (\<lambda>c. \<not> is_blank c) v" for v
    by (auto simp: list_ex_iff list_all_iff)
  show ?case
  proof (cases "split_once CHR ''='' (trim x)")
    case None
    then show ?thesis by (simp add: seg_good_def seg_item_def)
  next
    case (Some nv)
    then show ?thesis by (simp add: seg_good_def seg_item_def seg_val_def m b)
  qed
next
  case (3 x k s)
  then show ?case by simp
qed

lemma read_tags_no_panic: "read_tags tags segs \<noteq> Panic"
  by (induction tags segs rule: read_tags.induct) (auto simp: ok_iff)

lemma read_tags_err: "read_tags tags segs = Err e \<Longrightarrow> e = MalformedTag \<or> e = DuplicateTag"
  by (induction tags segs rule: read_tags.induct) (auto simp: ok_iff split: if_splits)

lemma get_map_of: "get tags name = map_of tags name"
  by (induction tags) (auto simp: get_def)

lemma parse_tags_Ok_iff:
  "parse_tags txt = Ok tags \<longleftrightarrow>
     list_all printable txt \<and> read_tags [] (split_on CHR '';'' txt) = Ok tags \<and>
     tags \<noteq> [] \<and> hd tags = (''v'', VERSION)"
proof (cases "list_all printable txt")
  case True
  then have p: "\<not> list_ex (\<lambda>c. \<not> printable c) txt" by (auto simp: list_ex_iff list_all_iff)
  show ?thesis
  proof (cases "read_tags [] (split_on CHR '';'' txt)")
    case (Ok ts)
    then show ?thesis using True p by (cases ts) (auto simp: parse_tags_def split: if_splits)
  qed (use p in \<open>simp_all add: parse_tags_def\<close>)
next
  case False
  then have "list_ex (\<lambda>c. \<not> printable c) txt" by (auto simp: list_ex_iff list_all_iff)
  then show ?thesis using False by (simp add: parse_tags_def)
qed

lemma parse_tags_no_panic: "parse_tags txt \<noteq> Panic"
  by (auto simp: parse_tags_def ok_iff read_tags_no_panic split: list.splits)

text \<open>C32: A record is split into tags exactly when every octet is printable ASCII or a tab, every
  non-empty segment has a name and a value without inner white space, no name is repeated and
  the first tag is \<open>v=SWORN1\<close>; the tags are then the segments' names and values in order.\<close>

theorem parse_tags_iff:
  "parse_tags txt = Ok ts \<longleftrightarrow>
     list_all printable txt \<and> list_all seg_good (split_on CHR '';'' txt) \<and>
     distinct (map fst ts) \<and> ts \<noteq> [] \<and> hd ts = (''v'', ''SWORN1'') \<and>
     ts = List.map_filter (\<lambda>seg. map_option (\<lambda>name. (name, seg_val seg)) (seg_item seg))
           (split_on CHR '';'' txt)"
proof -
  have e: "tags.entry = (\<lambda>seg. map_option (\<lambda>name. (name, seg_val seg)) (seg_item seg))"
    by (rule ext) (simp add: tags.entry_def)
  have k: "map fst (List.map_filter tags.entry segs) = List.map_filter seg_item segs" for segs
    by (induction segs) (auto simp: map_filter_simps tags.entry_def split: option.splits)
  show ?thesis
    unfolding parse_tags_Ok_iff tags.table_Ok_iff e [symmetric] VERSION_def
    by (auto simp: k)
qed

section \<open>Records printed and read back\<close>

text \<open>A tag list in normal form, and its usual text \<open>n1=v1; n2=v2; ...\<close>.\<close>

definition tag_ok :: "string \<times> string \<Rightarrow> bool" where
  "tag_ok nv \<longleftrightarrow>
     fst nv \<noteq> [] \<and> \<not> is_blank (hd (fst nv)) \<and> \<not> is_blank (last (fst nv)) \<and>
     list_all printable (fst nv) \<and> CHR '';'' \<notin> set (fst nv) \<and> CHR ''='' \<notin> set (fst nv) \<and>
     list_all printable (snd nv) \<and> CHR '';'' \<notin> set (snd nv) \<and> list_all (\<lambda>c. \<not> is_blank c) (snd nv)"

definition record_ok :: "(string \<times> string) list \<Rightarrow> bool" where
  "record_ok ts \<longleftrightarrow> list_all tag_ok ts \<and> distinct (map fst ts) \<and> ts \<noteq> [] \<and> hd ts = (''v'', ''SWORN1'')"

definition tag_text :: "string \<times> string \<Rightarrow> string" where
  "tag_text nv = fst nv @ CHR ''='' # snd nv"

fun record_text :: "(string \<times> string) list \<Rightarrow> string" where
  "record_text [] = []"
| "record_text (t # ts) = join CHR '';'' (tag_text t # map (\<lambda>t. CHR '' '' # tag_text t) ts)"

lemma trim_space: "list_all printable s \<Longrightarrow> trim (CHR '' '' # s) = trim s"
proof -
  have "printable CHR '' ''" "is_blank CHR '' ''" by (simp_all add: printable_def is_blank_def code_def)
  then show "list_all printable s \<Longrightarrow> trim (CHR '' '' # s) = trim s" by (simp add: trim_printable)
qed

lemma eq_sign: "printable CHR ''=''" "\<not> is_blank CHR ''=''" "printable CHR '';''" "printable CHR '' ''"
  by (simp_all add: printable_def is_blank_def code_def)

lemma tag_text_printable: "tag_ok nv \<Longrightarrow> list_all printable (tag_text nv)"
  by (simp add: tag_ok_def tag_text_def eq_sign)

lemma trim_tag_text: "tag_ok nv \<Longrightarrow> trim (tag_text nv) = tag_text nv"
proof (rule trim_no_blank_ends)
  assume t: "tag_ok nv"
  show "list_all printable (tag_text nv)" using t by (rule tag_text_printable)
  show "\<not> is_blank (hd (tag_text nv))" using t by (simp add: tag_ok_def tag_text_def)
  have "snd nv \<noteq> [] \<Longrightarrow> \<not> is_blank (last (snd nv))" using t by (auto simp: tag_ok_def list_all_iff)
  then show "\<not> is_blank (last (tag_text nv))" by (simp add: tag_text_def eq_sign)
qed

lemma trim_not_blank: "list_all printable v \<Longrightarrow> list_all (\<lambda>c. \<not> is_blank c) v \<Longrightarrow> trim v = v"
  by (rule trim_no_blank_ends) (auto simp: list_all_iff)

lemma tag_seg:
  assumes t: "tag_ok nv" and s: "seg = tag_text nv \<or> seg = CHR '' '' # tag_text nv"
  shows "seg_good seg" and "seg_item seg = Some (fst nv)" and "seg_val seg = snd nv"
    and "list_all printable seg" and "CHR '';'' \<notin> set seg"
proof -
  have trim: "trim seg = tag_text nv"
    using s trim_tag_text [OF t] trim_space [OF tag_text_printable [OF t]] by auto
  have split: "split_once CHR ''='' (tag_text nv) = Some nv"
    using t split_once_Some_iff [of _ _ "fst nv" "snd nv"] by (simp add: tag_ok_def tag_text_def)
  have name: "trim (fst nv) = fst nv"
    using t by (intro trim_no_blank_ends) (auto simp: tag_ok_def)
  have val: "trim (snd nv) = snd nv" using t by (intro trim_not_blank) (auto simp: tag_ok_def)
  have ne: "tag_text nv \<noteq> []" by (simp add: tag_text_def)
  show "seg_good seg" "seg_item seg = Some (fst nv)" "seg_val seg = snd nv"
    using t by (simp_all add: seg_good_def seg_item_def seg_val_def trim split name val ne tag_ok_def)
  show "list_all printable seg" using s tag_text_printable [OF t] eq_sign by auto
  show "CHR '';'' \<notin> set seg" using s t by (auto simp: tag_ok_def tag_text_def)
qed

lemma tag_seg_space:
  "tag_ok nv \<Longrightarrow> seg_item (CHR '' '' # tag_text nv) = Some (fst nv)"
  "tag_ok nv \<Longrightarrow> seg_val (CHR '' '' # tag_text nv) = snd nv"
  using tag_seg by blast+

lemma record_segs:
  assumes "seg \<in> set (tag_text t # map (\<lambda>t. CHR '' '' # tag_text t) us)"
    and ok: "\<And>x. x \<in> set (t # us) \<Longrightarrow> tag_ok x"
  shows "seg_good seg \<and> list_all printable seg \<and> CHR '';'' \<notin> set seg"
proof -
  have "\<exists>x \<in> set (t # us). seg = tag_text x \<or> seg = CHR '' '' # tag_text x"
    using assms(1) unfolding list.set set_map by blast
  then obtain x where x: "x \<in> set (t # us)" "seg = tag_text x \<or> seg = CHR '' '' # tag_text x" by blast
  then show ?thesis using tag_seg [OF ok [OF x(1)] x(2)] by blast
qed

lemma record_text_parse:
  assumes "record_ok ts"
  shows "parse_tags (record_text ts) = Ok ts"
proof (cases ts)
  case Nil
  with assms show ?thesis by (simp add: record_ok_def)
next
  case (Cons t us)
  let ?segs = "tag_text t # map (\<lambda>t. CHR '' '' # tag_text t) us"
  have ok: "\<And>x. x \<in> set ts \<Longrightarrow> tag_ok x" using assms by (simp add: record_ok_def list_all_iff)
  have sg: "seg_good seg \<and> list_all printable seg \<and> CHR '';'' \<notin> set seg" if "seg \<in> set ?segs" for seg
    using that ok unfolding Cons by (rule record_segs)
  have split: "split_on CHR '';'' (record_text ts) = ?segs"
    unfolding Cons record_text.simps by (rule split_on_join) (use sg in blast)+
  have p: "list_all printable (record_text ts)"
    unfolding list_all_iff
  proof
    fix c assume "c \<in> set (record_text ts)"
    then have "c = CHR '';'' \<or> (\<exists>seg\<in>set ?segs. c \<in> set seg)"
      using set_subset_split_on split by metis
    then show "printable c" using sg eq_sign(3) unfolding list_all_iff by blast
  qed
  have g: "list_all seg_good ?segs" unfolding list_all_iff using sg by blast
  have t: "seg_item (tag_text t) = Some (fst t)" "seg_val (tag_text t) = snd t"
    using tag_seg(2,3) [OF ok [of t], of "tag_text t"] Cons by simp_all
  have "List.map_filter seg_item (map (\<lambda>t. CHR '' '' # tag_text t) xs) = map fst xs"
    "List.map_filter tags.entry (map (\<lambda>t. CHR '' '' # tag_text t) xs) = xs"
    if "\<And>x. x \<in> set xs \<Longrightarrow> tag_ok x" for xs
    using that by (induction xs) (simp_all add: map_filter_simps tag_seg_space tags.entry_def)
  from this [of us] have "List.map_filter tags.entry ?segs = ts" "List.map_filter seg_item ?segs = map fst ts"
    using ok Cons t by (simp_all add: map_filter_simps tags.entry_def)
  then show ?thesis
    using assms g p unfolding parse_tags_Ok_iff tags.table_Ok_iff split record_ok_def VERSION_def
    by metis
qed

lemma parse_tags_record_ok:
  assumes "parse_tags txt = Ok ts"
  shows "record_ok ts"
proof -
  from assms have p: "list_all printable txt" and r: "read_tags [] (split_on CHR '';'' txt) = Ok ts"
    and v: "ts \<noteq> []" "hd ts = (''v'', ''SWORN1'')" by (auto simp: parse_tags_Ok_iff VERSION_def)
  have "tag_ok (n, v)" if "(n, v) \<in> set ts" for n v
  proof -
    from that r obtain seg where s: "seg \<in> set (split_on CHR '';'' txt)" "tags.entry seg = Some (n, v)"
      by (auto simp: tags.table_Ok_iff)
    then have g: "seg_good seg" using r by (auto simp: tags.table_Ok_iff list_all_iff)
    have c: "set seg \<subseteq> {c. printable c \<and> c \<noteq> CHR '';''}"
      using set_split_on [OF s(1)] split_on_pieces [OF s(1)] p by (auto simp: list_all_iff)
    have pt: "list_all printable w \<Longrightarrow> list_all printable (trim w)" for w
      using set_trim [of w] by (auto simp: list_all_iff)
    from s(2) obtain a b where sp: "split_once CHR ''='' (trim seg) = Some (a, b)"
      and nv: "n = trim a" "v = trim b"
      by (cases "split_once CHR ''='' (trim seg)")
        (auto simp: tags.entry_def seg_item_def seg_val_def split: if_splits)
    then have ab: "trim seg = a @ CHR ''='' # b" "CHR ''='' \<notin> set a" "n = trim a" "v = trim b"
      by (simp_all add: split_once_Some_iff)
    have cs: "set a \<union> set b \<subseteq> {c. printable c \<and> c \<noteq> CHR '';''}"
      using set_trim [of seg] c ab(1) by (auto simp: list_all_iff)
    then have pa: "list_all printable a" "list_all printable b" by (auto simp: list_all_iff)
    have "n \<noteq> []" "list_all (\<lambda>c. \<not> is_blank c) v"
      using g sp nv by (auto simp: seg_good_def)
    then show ?thesis
      using pa cs trim_ends [OF pa(1)] set_trim [OF pa(1)] set_trim [OF pa(2)] ab pt
      by (auto simp: tag_ok_def)
  qed
  then show ?thesis
    using v tags.table_distinct [OF r] by (auto simp: record_ok_def list_all_iff)
qed

text \<open>C33: Reading a record normalises it: the tags of an accepted record are in normal form, and
  printing them in the usual form and reading that back gives the same tags.\<close>

theorem parse_tags_normalises:
  "(\<exists>txt. parse_tags txt = Ok ts) \<longleftrightarrow> record_ok ts \<and> parse_tags (record_text ts) = Ok ts"
  using record_text_parse parse_tags_record_ok by blast

lemma parse_tags_err: "parse_tags txt = Err e \<Longrightarrow> e \<in> {MalformedTag, DuplicateTag, NotSworn}"
proof (cases "read_tags [] (split_on CHR '';'' txt)")
  case (Ok ts)
  then show "parse_tags txt = Err e \<Longrightarrow> e \<in> {MalformedTag, DuplicateTag, NotSworn}"
    by (cases ts) (auto simp: parse_tags_def split: if_splits)
next
  case (Err e')
  then show "parse_tags txt = Err e \<Longrightarrow> e \<in> {MalformedTag, DuplicateTag, NotSworn}"
    using read_tags_err [OF Err] by (auto simp: parse_tags_def split: if_splits)
qed (simp add: read_tags_no_panic)

section \<open>Key records\<close>

text \<open>C34: A key record yields a key exactly when its tags name the algorithm \<open>ed25519\<close> and carry a
  base64 text of 32 octets that the curve library accepts as that key.\<close>

theorem key_record_parse_iff:
  "key_record_parse b64 d txt = Ok rec \<longleftrightarrow>
     (\<exists>ts encoded raw. parse_tags txt = Ok ts \<and> map_of ts ''k'' = Some ''ed25519'' \<and>
        map_of ts ''pk'' = Some encoded \<and> b64 encoded = Some raw \<and> length raw = 32 \<and>
        vk_from_bytes d raw = Some (inner (kr_public_key rec)))"
proof -
  have k: "key_from_bytes d raw = Some key \<longleftrightarrow> length raw = 32 \<and> vk_from_bytes d raw = Some (inner key)"
    for raw key by (cases key) (auto simp: key_from_bytes_def try_into_array_def LEN_def)
  have r: "\<lparr>kr_public_key = key\<rparr> = rec \<longleftrightarrow> key = kr_public_key rec" for key by (cases rec) auto
  show ?thesis
    by (auto simp: key_record_parse_def ok_iff get_map_of k r split: if_splits)
qed

text \<open>C35: Why a key record is refused, beyond its tags: the algorithm is missing, is another one, the
  key is missing, or the key is not base64 of 32 octets that the curve library accepts, in this
  order. A record for another algorithm is told apart whatever its key holds, and nothing else is
  reported as an unknown algorithm.\<close>

theorem key_record_errors:
  "key_record_parse b64 d txt = Err e \<longleftrightarrow>
     parse_tags txt = Err e \<and> e \<in> {MalformedTag, DuplicateTag, NotSworn} \<or>
     (\<exists>ts. parse_tags txt = Ok ts \<and>
        first_reason
          [(map_of ts ''k'' = None, MissingTag ''k''),
           (map_of ts ''k'' \<noteq> Some ''ed25519'', UnknownAlgorithm),
           (map_of ts ''pk'' = None, MissingTag ''pk''),
           (\<not> (\<exists>encoded raw key. map_of ts ''pk'' = Some encoded \<and> b64 encoded = Some raw \<and>
                length raw = 32 \<and> vk_from_bytes d raw = Some key), BadValue ''pk'')] = Some e)"
proof (cases "parse_tags txt")
  case (Ok ts)
  have k: "key_from_bytes d raw = None \<longleftrightarrow> \<not> (\<exists>key. length raw = 32 \<and> vk_from_bytes d raw = Some key)" for raw
    by (auto simp: key_from_bytes_def try_into_array_def LEN_def split: option.splits)
  show ?thesis
    by (cases "map_of ts ''k''"; cases "map_of ts ''pk''"; cases "b64 (the (map_of ts ''pk''))")
      (auto simp: key_record_parse_def Ok get_map_of and_then_Err_iff ok_or_Err_iff ok_or_Ok_iff k)
next
  case (Err e')
  then show ?thesis using parse_tags_err [OF Err] by (auto simp: key_record_parse_def)
next
  case Panic
  then show ?thesis using parse_tags_no_panic by blast
qed

section \<open>Report destinations\<close>

lemma atom_octet_not: "\<not> atom_octet CHR ''.''" "\<not> atom_octet CHR ''@''"
  by (simp_all add: atom_octet_def is_ascii_alphanumeric_def is_ascii_digit_def code_def)

text \<open>The characters of an atom, written out again, and dot-separated atoms of them.\<close>

definition atext :: "char set" where
  "atext = set alphanumerics \<union> set ''!#$%&'*+-/=?^_`{|}~''"

definition dot_atom :: "string \<Rightarrow> bool" where
  "dot_atom s \<longleftrightarrow> (\<exists>atoms. atoms \<noteq> [] \<and> s = join CHR ''.'' atoms \<and>
     list_all (\<lambda>a. a \<noteq> [] \<and> set a \<subseteq> atext) atoms)"

lemma atom_octets: "list_all atom_octet a \<longleftrightarrow> set a \<subseteq> atext"
proof -
  have "atom_octet c \<longleftrightarrow> c \<in> atext" for c
    unfolding atom_octet_def atext_def alphanumerics_iff by (rule Un_iff [symmetric])
  then show ?thesis by (auto simp: list_all_iff)
qed

lemma dot_atom_split:
  "dot_atom s \<longleftrightarrow> list_all (\<lambda>a. a \<noteq> [] \<and> list_all atom_octet a) (split_on CHR ''.'' s)"
proof
  assume "dot_atom s"
  then obtain atoms where a: "atoms \<noteq> []" "s = join CHR ''.'' atoms"
    "list_all (\<lambda>a. a \<noteq> [] \<and> list_all atom_octet a) atoms" by (auto simp: dot_atom_def atom_octets)
  have "split_on CHR ''.'' s = atoms"
    unfolding a(2) using a(1,3) atom_octet_not
    by (intro split_on_join) (auto simp: list_all_iff)
  with a(3) show "list_all (\<lambda>a. a \<noteq> [] \<and> list_all atom_octet a) (split_on CHR ''.'' s)" by simp
next
  assume "list_all (\<lambda>a. a \<noteq> [] \<and> list_all atom_octet a) (split_on CHR ''.'' s)"
  then show "dot_atom s"
    unfolding dot_atom_def atom_octets [symmetric] by (intro exI [of _ "split_on CHR ''.'' s"]) simp
qed

lemma dot_atom_no_at: "dot_atom s \<Longrightarrow> CHR ''@'' \<notin> set s"
  using set_subset_split_on [of "CHR ''@''" s "CHR ''.''"] atom_octet_not
  by (auto simp: dot_atom_split list_all_iff)

lemma operator_domain_no_at: "is_operator_domain s \<Longrightarrow> CHR ''@'' \<notin> set s"
proof
  assume d: "is_operator_domain s" and "CHR ''@'' \<in> set s"
  then obtain l where "l \<in> set (split_on CHR ''.'' s)" "CHR ''@'' \<in> set l"
    using set_subset_split_on [of "CHR ''@''" s "CHR ''.''"] by auto
  with d have "LDH (code CHR ''@'')" by (auto simp: is_operator_domain_split list_all_iff label_ok_def)
  then show False by (simp add: LDH_def is_ascii_alphanumeric_def is_ascii_digit_def code_def)
qed

lemma valid_rua_split:
  "valid_rua value \<longleftrightarrow>
     (\<exists>l domain. value = ''mailto:'' @ l @ ''@'' @ domain \<and> dot_atom l \<and> is_operator_domain domain)"
proof
  assume "valid_rua value"
  then obtain l domain where "strip_prefix ''mailto:'' value = Some (l @ CHR ''@'' # domain)"
    "dot_atom l" "is_operator_domain domain"
    by (auto simp: valid_rua_def dot_atom_split split_once_Some_iff split: option.splits if_splits)
  then show "\<exists>l domain. value = ''mailto:'' @ l @ ''@'' @ domain \<and> dot_atom l \<and> is_operator_domain domain"
    by (intro exI [of _ l] exI [of _ domain]) (simp add: strip_prefix_Some_iff)
next
  assume "\<exists>l domain. value = ''mailto:'' @ l @ ''@'' @ domain \<and> dot_atom l \<and> is_operator_domain domain"
  then obtain l domain where v: "value = ''mailto:'' @ l @ ''@'' @ domain" "dot_atom l"
    "is_operator_domain domain" by blast
  let ?a = "l @ CHR ''@'' # domain"
  have "strip_prefix ''mailto:'' value = Some ?a" using v(1) by (simp add: strip_prefix_Some_iff)
  moreover have "filter (\<lambda>c. c = CHR ''@'') s = []" if "CHR ''@'' \<notin> set s" for s
    using that by (auto simp: filter_empty_conv)
  then have "length (filter (\<lambda>c. c = CHR ''@'') ?a) = 1"
    using dot_atom_no_at [OF v(2)] operator_domain_no_at [OF v(3)] by simp
  moreover have "split_once CHR ''@'' ?a = Some (l, domain)"
    using dot_atom_no_at [OF v(2)] by (simp add: split_once_Some_iff)
  moreover have "l \<noteq> []" using v(2) by (auto simp: dot_atom_split)
  ultimately show "valid_rua value" using v(2,3) by (simp add: valid_rua_def dot_atom_split)
qed

text \<open>C37: A report destination is accepted exactly when it is \<open>mailto:\<close> followed by a dot-atom, one
  at-sign and a domain name; a dot-atom is a dot-joined, non-empty sequence of non-empty runs of
  letters, digits and the characters that electronic mail allows in atoms.\<close>

theorem valid_rua_iff:
  "valid_rua value \<longleftrightarrow>
     (\<exists>l domain. value = ''mailto:'' @ l @ ''@'' @ domain \<and> dot_atom l \<and> dns_name domain)"
  by (simp only: valid_rua_split operator_domain_dns)

section \<open>Policy records\<close>

text \<open>The entries of the \<open>p\<close> tag that are read: the non-empty ones, 64 at most.\<close>

definition listed :: "(string \<times> string) list \<Rightarrow> string list" where
  "listed ts = (case map_of ts ''p'' of
     Some l \<Rightarrow> take 64 (filter (\<lambda>e. e \<noteq> []) (split_on CHR '','' l)) | None \<Rightarrow> [])"

definition policy_ok :: "policy_record \<Rightarrow> bool" where
  "policy_ok pol \<longleftrightarrow>
     length (pol_prefixes pol) \<le> 64 \<and> list_all is_attestable (pol_prefixes pol) \<and>
     list_all (\<lambda>p. pfx_len p \<le> pol_unit pol) (pol_prefixes pol) \<and>
     1 \<le> pol_unit pol \<and> pol_unit pol \<le> 64 \<and>
     (case pol_rua pol of Some rua \<Rightarrow> valid_rua rua | None \<Rightarrow> True)"

lemma read_prefixes_Ok_iff:
  "read_prefixes ps es = Ok qs \<longleftrightarrow>
     (\<exists>rs. qs = ps @ rs \<and> list_all2 (\<lambda>e p. prefix_from_str e = Ok p \<and> is_attestable p) es rs)"
  by (induction ps es rule: read_prefixes.induct) (auto simp: ok_iff list_all2_Cons1)

lemma policy_prefixes_Ok_iff:
  "policy_prefixes ts = Ok ps \<longleftrightarrow>
     list_all2 (\<lambda>e p. prefix_from_str e = Ok p \<and> is_attestable p) (listed ts) ps"
  by (auto simp: policy_prefixes_def listed_def get_map_of read_prefixes_Ok_iff MAX_POLICY_PREFIXES_def
      split: option.splits)

lemma policy_unit_Ok_iff:
  "policy_unit ts = Ok u \<longleftrightarrow>
     (map_of ts ''u'' = None \<and> u = 64 \<or> map_of ts ''u'' = Some (fmt_radix 10 (unat u))) \<and>
     1 \<le> u \<and> u \<le> 64"
  by (auto simp: policy_unit_def get_map_of ok_iff parse_decimal_fmt MAX_PREFIX_LEN_def
      DEFAULT_UNIT_def split: option.splits if_splits)

lemma policy_rua_Ok_iff:
  "policy_rua ts = Ok r \<longleftrightarrow> r = map_of ts ''rua'' \<and> (case r of Some v \<Rightarrow> valid_rua v | None \<Rightarrow> True)"
  by (auto simp: policy_rua_def get_map_of split: option.splits if_splits)

lemma policy_testing_iff:
  "policy_testing ts \<longleftrightarrow> (\<exists>flags. map_of ts ''t'' = Some flags \<and> ''y'' \<in> set (split_on CHR '':'' flags))"
  by (auto simp: policy_testing_def get_map_of list_ex_iff split: option.splits)

definition policy_claims :: "(string \<times> string) list \<Rightarrow> policy_record \<Rightarrow> bool" where
  "policy_claims ts pol \<longleftrightarrow>
     list_all2 (\<lambda>e p. prefix_from_str e = Ok p) (listed ts) (pol_prefixes pol) \<and>
     (map_of ts ''u'' = None \<and> pol_unit pol = 64 \<or>
      map_of ts ''u'' = Some (fmt_radix 10 (unat (pol_unit pol)))) \<and>
     (pol_testing pol \<longleftrightarrow>
       (\<exists>flags. map_of ts ''t'' = Some flags \<and> ''y'' \<in> set (split_on CHR '':'' flags))) \<and>
     pol_rua pol = map_of ts ''rua''"

lemma list_all2_and_right:
  "list_all2 (\<lambda>x y. P x y \<and> Q y) xs ys \<longleftrightarrow> list_all2 P xs ys \<and> list_all Q ys"
  by (auto simp: list_all2_conv_all_nth list_all_length)

lemma policy_Ok_iff:
  "policy_record_parse txt = Ok pol \<longleftrightarrow>
     (\<exists>ts. parse_tags txt = Ok ts \<and> policy_claims ts pol \<and> policy_ok pol)"
proof -
  have "length (listed ts) \<le> 64" for ts by (auto simp: listed_def split: option.splits)
  then have l: "list_all2 P (listed ts) ps \<Longrightarrow> length ps \<le> 64" for P ts and ps :: "ipv6_prefix list"
    by (metis list_all2_lengthD)
  have n: "\<not> list_ex (\<lambda>p. u < pfx_len p) ps \<longleftrightarrow> list_all (\<lambda>p. pfx_len p \<le> u) ps" for u ps
    by (auto simp: list_ex_iff list_all_iff not_less)
  have "policy_record_parse txt = Ok pol \<longleftrightarrow>
     (\<exists>ts. parse_tags txt = Ok ts \<and> policy_prefixes ts = Ok (pol_prefixes pol) \<and>
        policy_unit ts = Ok (pol_unit pol) \<and> policy_testing ts = pol_testing pol \<and>
        policy_rua ts = Ok (pol_rua pol) \<and> \<not> list_ex (\<lambda>p. pol_unit pol < pfx_len p) (pol_prefixes pol))"
    by (cases pol) (auto simp: policy_record_parse_def ok_iff split: if_splits)
  then show ?thesis
    unfolding n policy_prefixes_Ok_iff policy_unit_Ok_iff policy_rua_Ok_iff policy_testing_iff
      policy_claims_def policy_ok_def list_all2_and_right
    using l by (auto split: option.splits)
qed

text \<open>C10: A policy record is accepted exactly when its tags are well formed, every listed prefix is the
  text of an attestable prefix (in any notation for addresses) no longer than the unit, the unit is a decimal from 1
  to 64 (64 when absent) and the report destination, if any, is valid; the policy then holds
  these values and the testing flag.\<close>

theorem policy_record_parse_iff:
  "policy_record_parse txt = Ok pol \<longleftrightarrow>
     (\<exists>ts. parse_tags txt = Ok ts \<and> policy_claims ts pol \<and> policy_ok pol)"
  by (rule policy_Ok_iff)

lemma split_on_append: "split_on d (a @ d # b) = split_on d a @ split_on d b"
proof (induction a)
  case (Cons x a)
  show ?case
  proof (cases "split_on d a")
    case (Cons w ws)
    then show ?thesis using Cons.IH by (auto split: list.splits)
  qed simp
qed simp

lemma policy_by_tags:
  "policy_record_parse txt = and_then (parse_tags txt) (\<lambda>ts.
     and_then (read_prefixes [] (listed ts)) (\<lambda>prefixes.
     and_then (policy_unit ts) (\<lambda>unit.
     let testing = policy_testing ts in
     and_then (policy_rua ts) (\<lambda>rua.
     if list_ex (\<lambda>prefix. unit < pfx_len prefix) prefixes then Err (BadValue ''u'')
     else Ok \<lparr>pol_prefixes = prefixes, pol_unit = unit, pol_testing = testing, pol_rua = rua\<rparr>))))"
proof -
  have "policy_prefixes ts = read_prefixes [] (listed ts)" for ts
    by (simp add: policy_prefixes_def listed_def get_map_of MAX_POLICY_PREFIXES_def split: option.split)
  then show ?thesis by (simp add: policy_record_parse_def)
qed

text \<open>C38: Once 64 prefixes are listed in a record, whatever follows them in its \<open>p\<close> tag is ignored,
  valid or not: the record with it gives the same policy, or the same error, as the record without
  it, and a policy accepted from such a record has exactly 64 prefixes.\<close>

theorem policy_prefix_cap:
  assumes "parse_tags txt = Ok (before @ (''p'', l) # rest)"
    and "parse_tags txt' = Ok (before @ (''p'', l @ '','' @ further) # rest)"
    and "64 \<le> length (filter (\<lambda>e. e \<noteq> []) (split_on CHR '','' l))"
  shows "policy_record_parse txt' = policy_record_parse txt \<and>
    (policy_record_parse txt = Ok pol \<longrightarrow> length (pol_prefixes pol) = 64)"
proof -
  let ?ts = "before @ (''p'', l) # rest" and ?ts' = "before @ (''p'', l @ '','' @ further) # rest"
  have "distinct (map fst ?ts)" using parse_tags_record_ok [OF assms(1)] by (simp add: record_ok_def)
  then have n: "map_of before ''p'' = None" by (auto simp: map_of_eq_None_iff)
  then have p: "listed ?ts = take 64 (filter (\<lambda>e. e \<noteq> []) (split_on CHR '','' l))" "listed ?ts' = listed ?ts"
    using assms(3) by (simp_all add: listed_def split_on_append map_add_def)
  have "map_of ?ts' k = map_of ?ts k" if "k \<noteq> ''p''" for k
    using that by (simp add: map_add_def split: option.split)
  then have "policy_unit ?ts' = policy_unit ?ts" "policy_testing ?ts' = policy_testing ?ts"
    "policy_rua ?ts' = policy_rua ?ts"
    by (simp_all add: policy_unit_def policy_testing_def policy_rua_def get_map_of)
  then have "policy_record_parse txt' = policy_record_parse txt"
    unfolding policy_by_tags assms(1,2) by (simp only: and_then.simps p(2))
  moreover have "length (pol_prefixes pol) = 64" if "policy_record_parse txt = Ok pol"
    using that assms(3) unfolding policy_Ok_iff assms(1) policy_claims_def
    by (auto simp: p(1) dest!: list_all2_lengthD)
  ultimately show ?thesis by blast
qed

lemma policy_parts_total:
  "policy_prefixes ts = Err (BadValue ''p'') \<or> (\<exists>ps. policy_prefixes ts = Ok ps)"
  "policy_unit ts = Err (BadValue ''u'') \<or> (\<exists>u. policy_unit ts = Ok u)"
  "policy_rua ts = Err (BadValue ''rua'') \<or> (\<exists>r. policy_rua ts = Ok r)"
proof -
  have s: "(\<exists>e'. prefix_from_str e = Err e') \<or> (\<exists>p. prefix_from_str e = Ok p)" for e
    by (cases "prefix_from_str e") (auto simp: prefix_from_str_def ok_iff split: prod.splits)
  have p: "read_prefixes ps es = Err (BadValue ''p'') \<or> (\<exists>qs. read_prefixes ps es = Ok qs)" for ps es
  proof (induction es arbitrary: ps)
    case (Cons e es)
    show ?case using s [of e] Cons.IH by (elim disjE exE) auto
  qed simp
  show "policy_prefixes ts = Err (BadValue ''p'') \<or> (\<exists>ps. policy_prefixes ts = Ok ps)"
    using p by (auto simp: policy_prefixes_def split: option.splits)
  show "policy_unit ts = Err (BadValue ''u'') \<or> (\<exists>u. policy_unit ts = Ok u)"
    by (cases "get ts ''u''"; cases "parse_decimal (the (get ts ''u''))") (simp_all add: policy_unit_def)
  show "policy_rua ts = Err (BadValue ''rua'') \<or> (\<exists>r. policy_rua ts = Ok r)"
    by (auto simp: policy_rua_def split: option.splits)
qed

lemma policy_total:
  "(\<exists>pol. policy_record_parse txt = Ok pol) \<or>
   (\<exists>e \<in> {MalformedTag, DuplicateTag, NotSworn, BadValue ''p'', BadValue ''u'', BadValue ''rua''}.
      policy_record_parse txt = Err e)"
proof (cases "parse_tags txt")
  case (Ok ts)
  show ?thesis
    using policy_parts_total [of ts] by (elim disjE exE) (simp_all add: policy_record_parse_def Ok Let_def)
next
  case (Err e)
  then show ?thesis using parse_tags_err [OF Err] by (auto simp: policy_record_parse_def)
qed (simp add: parse_tags_no_panic)

lemma policy_no_panic: "policy_record_parse txt \<noteq> Panic"
  using policy_total by (metis result.distinct)

section \<open>Records with further tags\<close>

lemma parse_tags_extend:
  assumes "parse_tags txt = Ok ts" and nv: "tag_ok nv" and new: "fst nv \<notin> fst ` set ts"
  shows "parse_tags (txt @ ''; '' @ tag_text nv) = Ok (ts @ [nv])"
proof -
  let ?seg = "CHR '' '' # tag_text nv"
  note seg = tag_seg [OF nv, of ?seg, simplified]
  have t: "list_all printable txt" "list_all seg_good (split_on CHR '';'' txt)" "ts \<noteq> []" "hd ts = (''v'', VERSION)"
    "ts = List.map_filter tags.entry (split_on CHR '';'' txt)" "distinct (map fst ts)"
    using assms(1) tags.table_distinct by (auto simp: parse_tags_Ok_iff tags.table_Ok_iff)
  have k: "map fst (List.map_filter tags.entry segs) = List.map_filter seg_item segs" for segs
    by (induction segs) (auto simp: map_filter_simps tags.entry_def split: option.splits)
  have e: "tags.entry ?seg = Some nv" using seg by (simp add: tags.entry_def)
  have split: "split_on CHR '';'' (txt @ ''; '' @ tag_text nv) = split_on CHR '';'' txt @ [?seg]"
    using split_on_append [of "CHR '';''" "txt" ?seg] split_on_join [of "[?seg]" "CHR '';''"] seg by simp
  have mf: "List.map_filter f (xs @ ys) = List.map_filter f xs @ List.map_filter f ys" for f :: "string \<Rightarrow> 'b option" and xs ys
    by (simp add: List.map_filter_def)
  have tb: "List.map_filter tags.entry (split_on CHR '';'' txt @ [?seg]) = ts @ [nv]"
    using t(5) e by (simp add: mf map_filter_simps)
  have "list_all printable (txt @ ''; '' @ tag_text nv)" using t(1) seg(4) eq_sign by simp
  moreover have "distinct (List.map_filter seg_item (split_on CHR '';'' txt @ [?seg]))"
    using t(6) new unfolding k [symmetric] tb by simp
  ultimately show ?thesis
    unfolding parse_tags_Ok_iff tags.table_Ok_iff split using t(2,3,4) seg(1) tb by simp
qed

text \<open>C36: Records stay readable when the draft grows: a further well-formed tag of an unknown, unused
  name at the end of a record changes neither what a policy record nor what a key record says.\<close>

theorem record_unknown_tag:
  assumes "parse_tags txt = Ok ts" and "tag_ok nv" and "fst nv \<notin> fst ` set ts"
    and "fst nv \<notin> {''p'', ''u'', ''t'', ''rua'', ''k'', ''pk''}"
  shows "policy_record_parse (txt @ ''; '' @ tag_text nv) = policy_record_parse txt \<and>
    key_record_parse b64 d (txt @ ''; '' @ tag_text nv) = key_record_parse b64 d txt"
proof -
  note ext = parse_tags_extend [OF assms(1-3)]
  have "get (ts @ [nv]) x = get ts x" if "x \<in> {''p'', ''u'', ''t'', ''rua'', ''k'', ''pk''}" for x
    using that assms(4) by (cases nv) (auto simp: get_map_of map_add_def split: option.splits)
  then have g: "get (ts @ [nv]) ''p'' = get ts ''p''" "get (ts @ [nv]) ''u'' = get ts ''u''"
    "get (ts @ [nv]) ''t'' = get ts ''t''" "get (ts @ [nv]) ''rua'' = get ts ''rua''"
    "get (ts @ [nv]) ''k'' = get ts ''k''" "get (ts @ [nv]) ''pk'' = get ts ''pk''" by simp_all
  show ?thesis
    unfolding policy_record_parse_def key_record_parse_def ext assms(1) and_then.simps
      policy_prefixes_def policy_unit_def policy_testing_def policy_rua_def g by simp
qed

section \<open>Why a policy record is refused\<close>

definition unit_claim :: "(string \<times> string) list \<Rightarrow> u8 \<Rightarrow> bool" where
  "unit_claim ts u \<longleftrightarrow>
     map_of ts ''u'' = None \<and> u = 64 \<or> map_of ts ''u'' = Some (fmt_radix 10 (unat u))"

lemma list_all2_exists: "(\<exists>ys. list_all2 P xs ys) \<longleftrightarrow> list_all (\<lambda>x. \<exists>y. P x y) xs"
proof (induction xs)
  case (Cons x xs)
  have "(\<exists>ys. list_all2 P (x # xs) ys) \<longleftrightarrow> (\<exists>y. P x y) \<and> (\<exists>ys. list_all2 P xs ys)"
    by (auto simp: list_all2_Cons1)
  then show ?case using Cons.IH by simp
qed simp

lemma fmt_radix_inj: "fmt_radix 10 (unat (u :: u8)) = fmt_radix 10 (unat w) \<longleftrightarrow> u = w"
  using parse_decimal_fmt by (metis option.inject)

text \<open>The rules on the tags of a policy record in the order of the source, each with its error.\<close>

definition policy_checks :: "(string \<times> string) list \<Rightarrow> (bool \<times> record_error) list" where
  "policy_checks ts =
     [(\<not> list_all (\<lambda>s. \<exists>p. prefix_from_str s = Ok p \<and> is_attestable p) (listed ts), BadValue ''p''),
      (\<nexists>u. unit_claim ts u \<and> 1 \<le> u \<and> u \<le> 64, BadValue ''u''),
      (\<exists>v. map_of ts ''rua'' = Some v \<and> \<not> valid_rua v, BadValue ''rua''),
      (\<exists>u. unit_claim ts u \<and> list_ex (\<lambda>s. \<exists>p. prefix_from_str s = Ok p \<and> u < pfx_len p) (listed ts),
       BadValue ''u'')]"

lemma policy_prefixes_reason:
  "policy_prefixes ts = Ok ps \<Longrightarrow>
     list_all (\<lambda>s. \<exists>p. prefix_from_str s = Ok p \<and> is_attestable p) (listed ts)"
  "policy_prefixes ts = Err e \<Longrightarrow>
     e = BadValue ''p'' \<and> \<not> list_all (\<lambda>s. \<exists>p. prefix_from_str s = Ok p \<and> is_attestable p) (listed ts)"
proof -
  have r: "(\<exists>ps. policy_prefixes ts = Ok ps) \<longleftrightarrow>
      list_all (\<lambda>s. \<exists>p. prefix_from_str s = Ok p \<and> is_attestable p) (listed ts)"
    unfolding policy_prefixes_Ok_iff by (auto simp: list_all2_exists)
  show "policy_prefixes ts = Ok ps \<Longrightarrow>
     list_all (\<lambda>s. \<exists>p. prefix_from_str s = Ok p \<and> is_attestable p) (listed ts)"
    using r by blast
  show "policy_prefixes ts = Err e \<Longrightarrow>
     e = BadValue ''p'' \<and> \<not> list_all (\<lambda>s. \<exists>p. prefix_from_str s = Ok p \<and> is_attestable p) (listed ts)"
    using r policy_parts_total(1) [of ts] by auto
qed

lemma policy_prefixes_short:
  assumes "policy_prefixes ts = Ok ps"
  shows "list_ex (\<lambda>p. u < pfx_len p) ps \<longleftrightarrow>
    list_ex (\<lambda>s. \<exists>p. prefix_from_str s = Ok p \<and> u < pfx_len p) (listed ts)"
  using assms unfolding policy_prefixes_Ok_iff by (induction rule: list_all2_induct) auto

lemma policy_unit_reason:
  "policy_unit ts = Ok u \<Longrightarrow> (unit_claim ts w \<longleftrightarrow> w = u) \<and> 1 \<le> u \<and> u \<le> 64"
  "policy_unit ts = Err e \<Longrightarrow> e = BadValue ''u'' \<and> (\<nexists>u. unit_claim ts u \<and> 1 \<le> u \<and> u \<le> 64)"
proof -
  show "policy_unit ts = Ok u \<Longrightarrow> (unit_claim ts w \<longleftrightarrow> w = u) \<and> 1 \<le> u \<and> u \<le> 64"
    by (auto simp: policy_unit_Ok_iff unit_claim_def fmt_radix_inj)
  show "policy_unit ts = Err e \<Longrightarrow> e = BadValue ''u'' \<and> (\<nexists>u. unit_claim ts u \<and> 1 \<le> u \<and> u \<le> 64)"
    using policy_parts_total(2) [of ts] policy_unit_Ok_iff [of ts] by (auto simp: unit_claim_def)
qed

lemma policy_first_reason:
  assumes "parse_tags txt = Ok ts"
  shows "policy_record_parse txt = Err e \<longleftrightarrow> first_reason (policy_checks ts) = Some e"
proof (cases "policy_prefixes ts")
  case ps: (Ok ps)
  note p = policy_prefixes_reason(1) [OF ps] policy_prefixes_short [OF ps]
  show ?thesis
  proof (cases "policy_unit ts")
    case u: (Ok u)
    show ?thesis
      using policy_unit_reason(1) [OF u]
      by (auto simp: policy_record_parse_def policy_checks_def assms ps u p Let_def policy_rua_def get_map_of
          split: option.split)
  next
    case (Err e')
    then show ?thesis
      using policy_unit_reason(2) [OF Err]
      by (auto simp: policy_record_parse_def policy_checks_def assms ps p)
  qed (use policy_parts_total(2) [of ts] in auto)
next
  case (Err e')
  then show ?thesis
    using policy_prefixes_reason(2) [OF Err] by (simp add: policy_record_parse_def policy_checks_def assms)
qed (use policy_parts_total(1) [of ts] in auto)

text \<open>C20: Why a policy record is refused: its tags are no record, or else the first rule broken in the
  order: a listed prefix that is not the text of an attestable prefix, a unit that is not a
  decimal from 1 to 64, an unsafe report destination, a unit shorter than one of the prefixes.\<close>

theorem policy_record_errors:
  "policy_record_parse txt = Err e \<longleftrightarrow>
     parse_tags txt = Err e \<and> e \<in> {MalformedTag, DuplicateTag, NotSworn} \<or>
     (\<exists>ts. parse_tags txt = Ok ts \<and> first_reason (policy_checks ts) = Some e)"
proof (cases "parse_tags txt")
  case (Ok ts)
  then show ?thesis by (simp add: policy_first_reason [OF Ok])
next
  case (Err e')
  then show ?thesis using parse_tags_err [OF Err] by (auto simp: policy_record_parse_def)
next
  case Panic
  then show ?thesis using parse_tags_no_panic by blast
qed

section \<open>Authorization\<close>

lemma authorizes_subset:
  "authorizes pol p \<longleftrightarrow>
     is_attestable p \<and>
     (\<exists>q\<in>set (pol_prefixes pol). is_attestable q \<and> prefix_set p \<subseteq> prefix_set q)"
proof -
  have "is_attestable q \<Longrightarrow> prefix_set p \<subseteq> prefix_set q \<longleftrightarrow> pfx_len q \<le> pfx_len p \<and> contains q (pfx_addr p)" for q
    using attestable_len [of q] by (intro prefix_set_subset_iff) (auto simp: word_le_nat_alt)
  then show ?thesis by (auto simp: authorizes_def list_ex_iff)
qed

text \<open>C11: A policy authorizes a token's prefix exactly when the prefix is attestable and all its
  addresses belong to one attestable prefix of the policy: a broader entry authorizes a more
  specific prefix, never the reverse, and entries are not merged.\<close>

theorem authorizes_iff:
  "authorizes pol p \<longleftrightarrow>
     is_attestable p \<and>
     (\<exists>q\<in>set (pol_prefixes pol). is_attestable q \<and> prefix_set p \<subseteq> prefix_set q)"
  by (rule authorizes_subset)

section \<open>The records of the published vectors\<close>

definition doc_policy_text :: string where
  "doc_policy_text = ''v=SWORN1; p=2001:db8:f00::/48; u=64''"

definition doc_policy :: policy_record where
  "doc_policy = \<lparr>pol_prefixes = [doc_prefix], pol_unit = 64, pol_testing = False, pol_rua = None\<rparr>"

definition doc_policy_tags :: "(string \<times> string) list" where
  "doc_policy_tags = [(''v'', ''SWORN1''), (''p'', ''2001:db8:f00::/48''), (''u'', ''64'')]"

lemma doc_prefix_from_str: "prefix_from_str ''2001:db8:f00::/48'' = Ok doc_prefix"
  unfolding doc_prefix_def by code_simp

lemma doc_policy_tags_parse: "parse_tags doc_policy_text = Ok doc_policy_tags"
proof -
  have "record_ok doc_policy_tags" by code_simp
  moreover have "record_text doc_policy_tags = doc_policy_text" by code_simp
  ultimately show ?thesis using record_text_parse by metis
qed

lemma doc_policy_parse: "policy_record_parse doc_policy_text = Ok doc_policy"
proof -
  have "listed doc_policy_tags = [''2001:db8:f00::/48'']" by code_simp
  moreover have "fmt_radix 10 64 = ''64''" by code_simp
  ultimately have "policy_claims doc_policy_tags doc_policy"
    by (simp add: policy_claims_def doc_prefix_from_str doc_policy_tags_def doc_policy_def)
  moreover have "policy_ok doc_policy"
    using doc_prefix_attestable by (simp add: policy_ok_def doc_policy_def doc_prefix_def)
  ultimately show ?thesis unfolding policy_Ok_iff using doc_policy_tags_parse by blast
qed

lemma record_unknown_tag_witness:
  "policy_record_parse ''v=SWORN1; p=2001:db8:f00::/48; u=64; x=1'' = Ok doc_policy"
proof -
  have "tag_ok (''x'', ''1'')" by code_simp
  then have "policy_record_parse (doc_policy_text @ ''; '' @ tag_text (''x'', ''1'')) = Ok doc_policy"
    using conjunct1 [OF record_unknown_tag [OF doc_policy_tags_parse, of "(''x'', ''1'')"]]
    by (simp add: doc_policy_parse) (simp add: doc_policy_tags_def)
  then show ?thesis by (simp add: doc_policy_text_def tag_text_def)
qed

end
