(* ===== verification/Sworn_Cose.thy ===== *)
theory Sworn_Cose
  imports Sworn_Record
begin

text \<open>
  The COSE layer of \<open>src/token.rs\<close>: header buckets (\<open>read_headers\<close> is the loop of
  \<open>Headers::from_value\<close>, an instance of \<open>keyed_table\<close>), the tagged \<open>COSE_Sign1\<close> structure, the
  header rules, and the octets that are signed.
\<close>

section \<open>Constants\<close>

definition COSE_SIGN1_TAG :: u64 where "COSE_SIGN1_TAG = 18"
definition ALG_EDDSA :: int where "ALG_EDDSA = -8"
definition ALG_ED25519 :: int where "ALG_ED25519 = -19"
definition CONTENT_TYPE :: string where "CONTENT_TYPE = ''application/sworn-token+cbor''"
definition LABEL_ALG :: int where "LABEL_ALG = 1"
definition LABEL_CRIT :: int where "LABEL_CRIT = 2"
definition LABEL_CONTENT_TYPE :: int where "LABEL_CONTENT_TYPE = 3"
definition LABEL_KID :: int where "LABEL_KID = 4"

lemmas cose_consts = COSE_SIGN1_TAG_def ALG_EDDSA_def ALG_ED25519_def CONTENT_TYPE_def
  LABEL_ALG_def LABEL_CRIT_def LABEL_CONTENT_TYPE_def LABEL_KID_def

section \<open>Header buckets\<close>

datatype label = LabelInt int | LabelText string

type_synonym headers = "(label \<times> cbor) list"

text \<open>The conversion of a map key into a label, inlined in the loop of the source.\<close>

fun label_of :: "cbor \<Rightarrow> (label, reason) result" where
  "label_of (Integer i) = Ok (LabelInt i)"
| "label_of (Text s) = Ok (LabelText s)"
| "label_of _ = Err Malformed"

fun read_headers :: "headers \<Rightarrow> (cbor \<times> cbor) list \<Rightarrow> (headers, reason) result" where
  "read_headers out [] = Ok out"
| "read_headers out (entry # entries) =
     and_then (label_of (fst entry)) (\<lambda>label.
       if list_ex (\<lambda>(seen, _). seen = label) out then Err Malformed
       else read_headers (out @ [(label, snd entry)]) entries)"

definition headers_from_value :: "cbor \<Rightarrow> (headers, reason) result" where
  "headers_from_value value =
     (case value of Map entries \<Rightarrow> read_headers [] entries | _ \<Rightarrow> Err Malformed)"

definition headers_get :: "headers \<Rightarrow> int \<Rightarrow> cbor option" where
  "headers_get h label = map_option snd (find (\<lambda>(l, _). l = LabelInt label) h)"

definition headers_has :: "headers \<Rightarrow> int \<Rightarrow> bool" where
  "headers_has h label \<longleftrightarrow> headers_get h label \<noteq> None"

definition headers_labels :: "headers \<Rightarrow> label list" where
  "headers_labels h = map fst h"

section \<open>The \<open>COSE_Sign1\<close> structure\<close>

record cose_sign1 =
  cs_protected_raw :: "u8 list"
  cs_protected :: headers
  cs_unprotected :: headers
  cs_payload :: "u8 list"
  cs_signature :: "u8 list"

definition decode_cbor :: "cbor_lib \<Rightarrow> u8 list \<Rightarrow> (cbor, reason) result" where
  "decode_cbor lib bytes =
     and_then (ok_or (de_value lib bytes) Malformed) (\<lambda>(value, position).
       if position \<noteq> length bytes then Err Malformed else Ok value)"

fun take_bytes :: "cbor option \<Rightarrow> (u8 list, reason) result" where
  "take_bytes (Some (Bytes b)) = Ok b"
| "take_bytes _ = Err Malformed"

text \<open>\<open>next\<close> of an iterator: the first item left, and the rest.\<close>

fun next_item :: "'a list \<Rightarrow> 'a option \<times> 'a list" where
  "next_item [] = (None, [])"
| "next_item (x # xs) = (Some x, xs)"

text \<open>The \<open>let\<close>s of the source that destructure the value: the tag, the four items, the buckets.\<close>

fun cose_body :: "cbor \<Rightarrow> (cbor, reason) result" where
  "cose_body (Tag t body) = (if t = COSE_SIGN1_TAG then Ok body else Err Malformed)"
| "cose_body _ = Err Malformed"

fun cose_items :: "cbor \<Rightarrow> (cbor list, reason) result" where
  "cose_items (Array items) = (if length items = 4 then Ok items else Err Malformed)"
| "cose_items _ = Err Malformed"

definition unprotected_headers :: "cbor option \<Rightarrow> (headers, reason) result" where
  "unprotected_headers item = and_then (ok_or item Malformed) headers_from_value"

definition protected_headers :: "cbor_lib \<Rightarrow> u8 list \<Rightarrow> (headers, reason) result" where
  "protected_headers lib protected_raw =
     (if protected_raw = [] then Ok []
      else and_then (decode_cbor lib protected_raw) headers_from_value)"

definition cose_parse :: "cbor_lib \<Rightarrow> u8 list \<Rightarrow> (cose_sign1, reason) result" where
  "cose_parse lib token =
     and_then (ok_or (de_value lib token) Malformed) (\<lambda>(value, position).
     if position \<noteq> length token then Err Malformed else
     and_then (cose_body value) (\<lambda>body.
     and_then (cose_items body) (\<lambda>items.
     let (item, items) = next_item items in
     and_then (take_bytes item) (\<lambda>protected_raw.
     let (item, items) = next_item items in
     and_then (unprotected_headers item) (\<lambda>unprotected.
     let (item, items) = next_item items in
     and_then (take_bytes item) (\<lambda>payload.
     let (item, items) = next_item items in
     and_then (take_bytes item) (\<lambda>signature.
     and_then (protected_headers lib protected_raw) (\<lambda>protected.
     Ok \<lparr>cs_protected_raw = protected_raw, cs_protected = protected,
         cs_unprotected = unprotected, cs_payload = payload, cs_signature = signature\<rparr>))))))))"

section \<open>Selectors and header rules\<close>

text \<open>
  The indices \<open>kid[0]\<close> and \<open>kid[kid.len() - 1]\<close> follow the test for the empty \<open>kid\<close>.
\<close>

definition selector_from_kid :: "u8 list \<Rightarrow> string option" where
  "selector_from_kid kid =
     (if kid = [] \<or> 63 < length kid then None
      else if hd kid = 45 \<or> last kid = 45 then None
      else if \<not> list_all (\<lambda>c. is_ascii_alphanumeric (unat c) \<or> c = 45) kid then None
      else map_option to_ascii_lowercase (from_utf8 kid))"

definition check_headers :: "cose_sign1 \<Rightarrow> (string, reason) result" where
  "check_headers c =
     (if headers_has (cs_protected c) LABEL_CRIT \<or> headers_has (cs_unprotected c) LABEL_CRIT
      then Err HeaderConfusion
      else if list_ex (\<lambda>label. headers_has (cs_unprotected c) label)
                [LABEL_ALG, LABEL_CONTENT_TYPE, LABEL_KID]
      then Err HeaderConfusion
      else if list_ex (\<lambda>label. list_ex (\<lambda>other. other = label) (headers_labels (cs_protected c)))
                (headers_labels (cs_unprotected c))
      then Err HeaderConfusion
      else
      and_then (case headers_get (cs_protected c) LABEL_ALG of
          Some (Integer alg) \<Rightarrow>
            if alg \<in> set [ALG_EDDSA, ALG_ED25519] then Ok () else Err HeaderConfusion
        | _ \<Rightarrow> Err HeaderConfusion) (\<lambda>_.
      and_then (case headers_get (cs_protected c) LABEL_CONTENT_TYPE of
          Some (Text cty) \<Rightarrow> if cty = CONTENT_TYPE then Ok () else Err BadContentType
        | _ \<Rightarrow> Err BadContentType) (\<lambda>_.
      case headers_get (cs_protected c) LABEL_KID of
          Some (Bytes kid) \<Rightarrow> ok_or (selector_from_kid kid) BadKid
        | _ \<Rightarrow> Err BadKid)))"

section \<open>The octets that are signed\<close>

definition sig_structure :: "u8 list \<Rightarrow> u8 list \<Rightarrow> cbor" where
  "sig_structure protected_raw payload =
     Array [Text ''Signature1'', Bytes protected_raw, Bytes [], Bytes payload]"

definition to_be_signed :: "cbor_lib \<Rightarrow> cose_sign1 \<Rightarrow> (u8 list, reason) result" where
  "to_be_signed lib c = expect (ser_value lib (sig_structure (cs_protected_raw c) (cs_payload c)))"

section \<open>Buckets as tables\<close>

interpretation hdr: keyed_table read_headers "\<lambda>e. ok (label_of (fst e)) \<noteq> None"
  "\<lambda>e. ok (label_of (fst e))" snd
proof (unfold_locales, goal_cases)
  case (1 s)
  show ?case by simp
next
  case (2 s x xs r)
  have "k \<in> fst ` set s \<longleftrightarrow> list_ex (\<lambda>(seen, _). seen = k) s" for k
    by (force simp: list_ex_iff)
  then show ?case by (cases "label_of (fst x)") auto
next
  case (3 x k s)
  then show ?case by simp
qed

lemma label_of_no_panic [simp]: "label_of v \<noteq> Panic"
  by (cases v) auto

lemma label_of_err: "label_of v = Err e \<Longrightarrow> e = Malformed"
  by (cases v) auto

lemma read_headers_no_panic [simp]: "read_headers out es \<noteq> Panic"
  by (induction out es rule: read_headers.induct) (auto simp: ok_iff)

lemma read_headers_err: "read_headers out es = Err e \<Longrightarrow> e = Malformed"
  by (induction out es rule: read_headers.induct) (auto simp: ok_iff dest: label_of_err split: if_splits)

lemma headers_get_map_of: "headers_get h l = map_of h (LabelInt l)"
  by (induction h) (auto simp: headers_get_def)

lemma headers_has_iff: "headers_has h l \<longleftrightarrow> LabelInt l \<in> fst ` set h"
  by (auto simp: headers_has_def headers_get_map_of map_of_eq_None_iff)

text \<open>The entries of a CBOR map as a bucket: same order, keys read as labels.\<close>

definition bucket :: "(cbor \<times> cbor) list \<Rightarrow> headers \<Rightarrow> bool" where
  "bucket es h \<longleftrightarrow> distinct (map fst h) \<and>
     list_all2 (\<lambda>e b. label_of (fst e) = Ok (fst b) \<and> snd e = snd b) es h"

lemma read_headers_Ok_iff: "read_headers [] es = Ok h \<longleftrightarrow> bucket es h"
proof -
  have f: "list_all (\<lambda>e. ok (label_of (fst e)) \<noteq> None) es \<and> h = List.map_filter hdr.entry es \<longleftrightarrow>
      list_all2 (\<lambda>e b. label_of (fst e) = Ok (fst b) \<and> snd e = snd b) es h"
  proof (induction es arbitrary: h)
    case (Cons e es)
    show ?case
      using Cons.IH [of "tl h"]
      by (cases h; cases "label_of (fst e)") (auto simp: map_filter_simps hdr.entry_def)
  qed (auto simp: map_filter_simps)
  have "map fst (List.map_filter hdr.entry es) = List.map_filter (\<lambda>e. ok (label_of (fst e))) es"
    by (induction es) (auto simp: map_filter_simps hdr.entry_def split: option.splits)
  then show ?thesis unfolding hdr.table_Ok_iff bucket_def f [symmetric] by auto
qed

lemma headers_from_value_Ok_iff: "headers_from_value v = Ok h \<longleftrightarrow> (\<exists>es. v = Map es \<and> bucket es h)"
  by (cases v) (auto simp: headers_from_value_def read_headers_Ok_iff)

lemma headers_from_value_no_panic [simp]: "headers_from_value v \<noteq> Panic"
  by (auto simp: headers_from_value_def split: cbor.splits)

lemma headers_from_value_err: "headers_from_value v = Err e \<Longrightarrow> e = Malformed"
  by (auto simp: headers_from_value_def dest: read_headers_err split: cbor.splits)

text \<open>A header bucket is read exactly when it is a map whose keys are integers or texts, none
  repeated; it then holds the map's entries in wire order, and looking a label up finds the
  value the map gives it.\<close>

theorem headers_from_value_iff:
  "headers_from_value v = Ok h \<longleftrightarrow>
     (\<exists>es. v = Map es \<and> distinct (map fst h) \<and> map snd h = map snd es \<and>
        map (\<lambda>e. label_of (fst e)) es = map (\<lambda>b. Ok (fst b)) h)"
proof -
  have "list_all2 (\<lambda>e b. label_of (fst e) = Ok (fst b) \<and> snd e = snd b) es h \<longleftrightarrow>
      map snd h = map snd es \<and> map (\<lambda>e. label_of (fst e)) es = map (\<lambda>b. Ok (fst b)) h" for es
    by (induction es arbitrary: h) (auto simp: list_all2_Cons1 map_eq_Cons_conv Cons_eq_map_conv)
  then show ?thesis unfolding headers_from_value_Ok_iff bucket_def by blast
qed

section \<open>Parsing \<open>COSE_Sign1\<close>\<close>

lemma take_bytes_Ok [ok_iff]: "take_bytes v = Ok b \<longleftrightarrow> v = Some (Bytes b)"
  by (induction v rule: take_bytes.induct) auto

lemma take_bytes_no_panic [simp]: "take_bytes v \<noteq> Panic"
  by (induction v rule: take_bytes.induct) auto

lemma take_bytes_err: "take_bytes v = Err e \<Longrightarrow> e = Malformed"
  by (induction v rule: take_bytes.induct) auto

lemma decode_cbor_Ok_iff: "decode_cbor lib bs = Ok v \<longleftrightarrow> de_value lib bs = Some (v, length bs)"
  by (auto simp: decode_cbor_def ok_iff split: prod.splits if_splits)

lemma decode_cbor_no_panic [simp]: "decode_cbor lib bs \<noteq> Panic"
  by (auto simp: decode_cbor_def ok_iff split: prod.splits if_splits)

lemma decode_cbor_err: "decode_cbor lib bs = Err e \<Longrightarrow> e = Malformed"
  by (auto simp: decode_cbor_def ok_iff split: prod.splits if_splits)

text \<open>The wire form of a token, with nothing after it.\<close>

definition token_shape :: "cbor_lib \<Rightarrow> u8 list \<Rightarrow> cose_sign1 \<Rightarrow> bool" where
  "token_shape lib token c \<longleftrightarrow>
     (\<exists>un. de_value lib token =
         Some (Tag 18 (Array [Bytes (cs_protected_raw c), Map un, Bytes (cs_payload c), Bytes (cs_signature c)]),
           length token) \<and> bucket un (cs_unprotected c)) \<and>
     (if cs_protected_raw c = [] then cs_protected c = []
      else \<exists>pr. de_value lib (cs_protected_raw c) = Some (Map pr, length (cs_protected_raw c)) \<and>
             bucket pr (cs_protected c))"

lemma length_4_iff: "length xs = 4 \<longleftrightarrow> (\<exists>a b c d. xs = [a, b, c, d])"
  by (auto simp: numeral_eq_Suc length_Suc_conv)

lemma cose_body_Ok [ok_iff]: "cose_body v = Ok b \<longleftrightarrow> v = Tag 18 b"
  by (cases v) (auto simp: COSE_SIGN1_TAG_def)

lemma cose_items_Ok [ok_iff]: "cose_items v = Ok b \<longleftrightarrow> v = Array b \<and> length b = 4"
  by (cases v) auto

lemma unprotected_headers_Ok [ok_iff]:
  "unprotected_headers (Some v) = Ok h \<longleftrightarrow> (\<exists>un. v = Map un \<and> bucket un h)"
  by (simp add: unprotected_headers_def headers_from_value_Ok_iff)

lemma protected_headers_Ok [ok_iff]:
  "protected_headers lib raw = Ok h \<longleftrightarrow>
     (if raw = [] then h = []
      else \<exists>pr. de_value lib raw = Some (Map pr, length raw) \<and> bucket pr h)"
  by (auto simp: protected_headers_def ok_iff decode_cbor_Ok_iff headers_from_value_Ok_iff)

lemma cose_parse_Ok_iff: "cose_parse lib token = Ok c \<longleftrightarrow> token_shape lib token c"
proof -
  have "cose_parse lib token = Ok c \<longleftrightarrow>
    (\<exists>i un. de_value lib token = Some (Tag 18 (Array [Bytes (cs_protected_raw c), i, Bytes (cs_payload c),
        Bytes (cs_signature c)]), length token) \<and>
      unprotected_headers (Some i) = Ok (cs_unprotected c) \<and>
      protected_headers lib (cs_protected_raw c) = Ok (cs_protected c))"
    by (cases c) (auto simp: cose_parse_def ok_iff length_4_iff simp del: unprotected_headers_Ok
        protected_headers_Ok split: if_splits)
  then show ?thesis by (auto simp: token_shape_def ok_iff)
qed

lemma cose_parse_no_panic [simp]: "cose_parse lib token \<noteq> Panic"
proof -
  have "cose_body v \<noteq> Panic" "cose_items v \<noteq> Panic" for v by (cases v; simp)+
  moreover have "unprotected_headers i \<noteq> Panic" for i
    by (auto simp: unprotected_headers_def ok_iff)
  moreover have "protected_headers lib r \<noteq> Panic" for r
    by (auto simp: protected_headers_def ok_iff)
  ultimately show ?thesis by (auto simp: cose_parse_def ok_iff Let_def split: prod.splits if_splits)
qed

lemma cose_parse_err: "cose_parse lib token = Err e \<Longrightarrow> e = Malformed"
proof -
  have b: "cose_body v = Err e \<Longrightarrow> e = Malformed" "cose_items v = Err e \<Longrightarrow> e = Malformed" for v
    by (cases v; auto split: if_splits)+
  have u: "unprotected_headers i = Err e \<Longrightarrow> e = Malformed" for i
    by (auto simp: unprotected_headers_def and_then_Err_iff ok_or_Err_iff dest: headers_from_value_err)
  have p: "protected_headers lib r = Err e \<Longrightarrow> e = Malformed" for r
    by (auto simp: protected_headers_def and_then_Err_iff dest: headers_from_value_err decode_cbor_err
        split: if_splits)
  show "cose_parse lib token = Err e \<Longrightarrow> e = Malformed"
    by (auto simp: cose_parse_def and_then_Err_iff ok_or_Err_iff Let_def case_prod_beta
        dest: b u p take_bytes_err split: if_splits)
qed

section \<open>Selectors\<close>

lemma label_ok_ascii: "label_ok (string_of_bytes kid) \<Longrightarrow> list_all (\<lambda>b. unat b < 0x80) kid"
  by (auto simp: label_ok_def list_all_iff string_of_bytes_def unat_u8_less dest!: LDH_ascii)

lemma selector_iff:
  "selector_from_kid kid = Some s \<longleftrightarrow>
     dns_label (string_of_bytes kid) \<and> s = to_ascii_lowercase (string_of_bytes kid)"
proof -
  have c: "code (char_of (unat b)) = unat (b :: u8)" for b by (simp add: unat_u8_less)
  have h: "char_of (unat b) = CHR ''-'' \<longleftrightarrow> b = 45" for b :: u8
    using code_hyphen [of "char_of (unat b)"] c [of b] by (simp add: word_unat_eq_iff)
  have m: "(char_of (45 :: nat) :: char) = CHR ''-''" using code_hyphen [of "char_of (45 :: nat)"] by simp
  have l: "list_all (\<lambda>x. LDH (code x)) (string_of_bytes kid) \<longleftrightarrow>
      list_all (\<lambda>c. is_ascii_alphanumeric (unat c) \<or> c = 45) kid"
    by (auto simp: list_all_iff string_of_bytes_def c LDH_def word_unat_eq_iff)
  have e: "label_ok (string_of_bytes kid) \<longleftrightarrow>
     kid \<noteq> [] \<and> length kid \<le> 63 \<and> hd kid \<noteq> 45 \<and> last kid \<noteq> 45 \<and>
     list_all (\<lambda>c. is_ascii_alphanumeric (unat c) \<or> c = 45) kid"
    unfolding label_ok_def l
    by (auto simp: starts_with_iff ends_with_iff string_of_bytes_def hd_map last_map h m)
  show ?thesis
    using label_ok_ascii [THEN from_utf8_ascii, of kid] unfolding label_ok_dns [symmetric] e
    by (auto simp: selector_from_kid_def)
qed

text \<open>A \<open>kid\<close> names a selector exactly when its octets are a single DNS label of 1 to 63
  letters, digits and inner hyphens; the selector is that label in lower case.\<close>

theorem selector_from_kid_iff:
  "selector_from_kid kid = Some s \<longleftrightarrow>
     dns_label (string_of_bytes kid) \<and> s = to_ascii_lowercase (string_of_bytes kid)"
  by (rule selector_iff)

section \<open>The header rules\<close>

text \<open>The buckets do not conflict: no \<open>crit\<close>, no security header unprotected, no shared label.\<close>

definition buckets_ok :: "headers \<Rightarrow> headers \<Rightarrow> bool" where
  "buckets_ok pr un \<longleftrightarrow>
     LabelInt 2 \<notin> fst ` set pr \<and>
     fst ` set un \<inter> {LabelInt 1, LabelInt 2, LabelInt 3, LabelInt 4} = {} \<and>
     fst ` set un \<inter> fst ` set pr = {}"

definition headers_ok :: "cose_sign1 \<Rightarrow> string \<Rightarrow> bool" where
  "headers_ok c selector \<longleftrightarrow>
     buckets_ok (cs_protected c) (cs_unprotected c) \<and>
     map_of (cs_protected c) (LabelInt 1) \<in> {Some (Integer (-8)), Some (Integer (-19))} \<and>
     map_of (cs_protected c) (LabelInt 3) = Some (Text ''application/sworn-token+cbor'') \<and>
     (\<exists>kid. map_of (cs_protected c) (LabelInt 4) = Some (Bytes kid) \<and>
        dns_label (string_of_bytes kid) \<and> selector = to_ascii_lowercase (string_of_bytes kid))"

lemma check_headers_buckets:
  "check_headers c =
     (if \<not> buckets_ok (cs_protected c) (cs_unprotected c) then Err HeaderConfusion
      else if map_of (cs_protected c) (LabelInt 1) \<notin> {Some (Integer (-8)), Some (Integer (-19))}
      then Err HeaderConfusion
      else if map_of (cs_protected c) (LabelInt 3) \<noteq> Some (Text ''application/sworn-token+cbor'')
      then Err BadContentType
      else case map_of (cs_protected c) (LabelInt 4) of
          Some (Bytes kid) \<Rightarrow> ok_or (selector_from_kid kid) BadKid
        | _ \<Rightarrow> Err BadKid)"
proof -
  have b: "buckets_ok (cs_protected c) (cs_unprotected c) \<longleftrightarrow>
      \<not> (headers_has (cs_protected c) LABEL_CRIT \<or> headers_has (cs_unprotected c) LABEL_CRIT) \<and>
      \<not> list_ex (\<lambda>label. headers_has (cs_unprotected c) label) [LABEL_ALG, LABEL_CONTENT_TYPE, LABEL_KID] \<and>
      \<not> list_ex (\<lambda>label. list_ex (\<lambda>other. other = label) (headers_labels (cs_protected c)))
          (headers_labels (cs_unprotected c))"
    by (auto simp: buckets_ok_def headers_has_iff headers_labels_def list_ex_iff cose_consts)
  have a: "and_then (case v of
          Some (Integer alg) \<Rightarrow>
            if alg \<in> set [ALG_EDDSA, ALG_ED25519] then Ok () else Err HeaderConfusion
        | _ \<Rightarrow> Err HeaderConfusion) f =
      (if v \<notin> {Some (Integer (-8)), Some (Integer (-19))} then Err HeaderConfusion else f ())"
    for v and f :: "unit \<Rightarrow> (string, reason) result"
    by (auto simp: cose_consts split: option.split cbor.split)
  have t: "and_then (case v of
          Some (Text cty) \<Rightarrow> if cty = CONTENT_TYPE then Ok () else Err BadContentType
        | _ \<Rightarrow> Err BadContentType) f =
      (if v \<noteq> Some (Text ''application/sworn-token+cbor'') then Err BadContentType else f ())"
    for v and f :: "unit \<Rightarrow> (string, reason) result"
    by (auto simp: cose_consts split: option.split cbor.split)
  show ?thesis
    unfolding check_headers_def b a t headers_get_map_of by (simp add: cose_consts)
qed

lemma selector_none: "selector_from_kid kid = None \<longleftrightarrow> \<not> dns_label (string_of_bytes kid)"
  using selector_iff [of kid] by (cases "selector_from_kid kid") auto

lemma check_headers_Ok_iff: "check_headers c = Ok s \<longleftrightarrow> headers_ok c s"
  unfolding check_headers_buckets headers_ok_def
  by (auto simp: ok_iff selector_iff split: option.splits cbor.splits)

lemma check_headers_no_panic [simp]: "check_headers c \<noteq> Panic"
  unfolding check_headers_buckets by (auto simp: ok_iff split: option.splits cbor.splits)

text \<open>C22: Conflicting buckets are reported first: header confusion is the verdict whenever they
  conflict or the algorithm is not Ed25519's, and only then, however wrong the content type and
  the \<open>kid\<close> are; the content type comes next, and last a \<open>kid\<close> that is
  not the octets of one label of a domain name.\<close>

theorem check_headers_errors:
  "check_headers c = Err e \<longleftrightarrow>
     (let good_alg = map_of (cs_protected c) (LabelInt 1) \<in> {Some (Integer (-8)), Some (Integer (-19))};
          confused = (\<not> (buckets_ok (cs_protected c) (cs_unprotected c) \<and> good_alg));
          bad_type = (map_of (cs_protected c) (LabelInt 3) \<noteq> Some (Text ''application/sworn-token+cbor''));
          bad_kid = (\<nexists>kid. map_of (cs_protected c) (LabelInt 4) = Some (Bytes kid) \<and>
                       dns_label (string_of_bytes kid))
      in e = HeaderConfusion \<and> confused \<or>
         e = BadContentType \<and> \<not> confused \<and> bad_type \<or>
         e = BadKid \<and> \<not> confused \<and> \<not> bad_type \<and> bad_kid)"
  unfolding check_headers_buckets Let_def
  by (cases "map_of (cs_protected c) (LabelInt 4)")
    (auto simp: ok_iff selector_none split: cbor.splits)

end
