(* ===== verification/Sworn_Token.thy ===== *)
theory Sworn_Token
  imports Sworn_Cose
begin

text \<open>
  The verification of \<open>src/token.rs\<close>: local checks (\<open>parse_excluding\<close>), policy authorization
  (\<open>authorize\<close>), the signature (\<open>finish_signature\<close>) and their compositions. The CBOR library
  \<open>lib\<close> and the curve library \<open>d\<close> are parameters. Unix time \<open>now\<close> is an \<open>i64\<close>; the window is
  compared in \<open>i128\<close>, here on integers.
\<close>

section \<open>States of a token\<close>

definition MAX_TOKEN_LEN :: nat where "MAX_TOKEN_LEN = 3072"
definition OBSERVED_UNIT_LEN :: u8 where "OBSERVED_UNIT_LEN = 64"
definition SKEW_SECS :: int where "SKEW_SECS = 300"

record verified =
  vf_operator :: string
  vf_unit :: ipv6_prefix
  vf_observed_unit :: ipv6_prefix
  vf_prefix :: ipv6_prefix
  vf_selector :: string
  vf_role :: role
  vf_testing :: bool
  vf_rua :: "string option"

record unverified =
  uv_payload :: payload
  uv_selector :: string
  uv_unit :: ipv6_prefix
  uv_observed_unit :: ipv6_prefix
  uv_to_be_signed :: "u8 list"
  uv_signature :: "u8 list"

record authorized =
  au_token :: unverified
  au_testing :: bool
  au_rua :: "string option"

datatype outcome = Pass verified | ObserveOnly verified

section \<open>Local checks\<close>

definition parse_excluding ::
  "cbor_lib \<Rightarrow> u8 list \<Rightarrow> ipv6_addr \<Rightarrow> i64 \<Rightarrow> ipv6_prefix list \<Rightarrow> (unverified, reason) result" where
  "parse_excluding lib token source now ineligible =
     (if MAX_TOKEN_LEN < length token then Err Malformed
      else
      and_then (cose_parse lib token) (\<lambda>cose.
      and_then (check_headers cose) (\<lambda>selector.
      and_then (decode_cbor lib (cs_payload cose)) (\<lambda>payload_value.
      and_then (reject_tagged_fields lib (cs_payload cose)) (\<lambda>_.
      and_then (payload_from_value payload_value) (\<lambda>payload.
      if \<not> is_eligible_source source \<or> list_ex (\<lambda>p. contains p source) ineligible
      then Err IneligibleSource
      else if sint now < uint (pl_iat payload) - SKEW_SECS then Err NotYetValid
      else if uint (pl_exp payload) + SKEW_SECS < sint now then Err Expired
      else if \<not> contains (pl_prefix payload) source then Err OffPrefix
      else
      and_then (expect (prefix_new (mask_addr source (pl_unit payload)) (pl_unit payload))) (\<lambda>unit.
      and_then (expect (prefix_new (mask_addr source OBSERVED_UNIT_LEN) OBSERVED_UNIT_LEN)) (\<lambda>observed_unit.
      and_then (to_be_signed lib cose) (\<lambda>tbs.
      Ok \<lparr>uv_payload = payload, uv_selector = selector, uv_unit = unit,
          uv_observed_unit = observed_unit, uv_to_be_signed = tbs,
          uv_signature = cs_signature cose\<rparr>)))))))))"

definition parse :: "cbor_lib \<Rightarrow> u8 list \<Rightarrow> ipv6_addr \<Rightarrow> i64 \<Rightarrow> (unverified, reason) result" where
  "parse lib token source now = parse_excluding lib token source now []"

section \<open>Authorization and signature\<close>

definition unverified_operator :: "unverified \<Rightarrow> string" where
  "unverified_operator u = pl_operator (uv_payload u)"

definition unverified_selector :: "unverified \<Rightarrow> string" where
  "unverified_selector u = uv_selector u"

definition unverified_payload :: "unverified \<Rightarrow> payload" where
  "unverified_payload u = uv_payload u"

definition authorize :: "unverified \<Rightarrow> policy_record \<Rightarrow> (authorized, reason) result" where
  "authorize u policy =
     (if \<not> authorizes policy (pl_prefix (uv_payload u)) then Err UnauthorizedPrefix
      else if pol_unit policy \<noteq> pl_unit (uv_payload u) then Err PolicyUnitMismatch
      else Ok \<lparr>au_token = u, au_testing = pol_testing policy, au_rua = pol_rua policy\<rparr>)"

definition finish_signature ::
  "'k dalek \<Rightarrow> unverified \<Rightarrow> 'k ed25519_public_key \<Rightarrow> bool \<Rightarrow> string option \<Rightarrow> (verified, reason) result" where
  "finish_signature d u key testing rua =
     (if \<not> key_verify d key (uv_to_be_signed u) (uv_signature u) then Err BadSignature
      else Ok \<lparr>vf_operator = pl_operator (uv_payload u), vf_unit = uv_unit u,
               vf_observed_unit = uv_observed_unit u, vf_prefix = pl_prefix (uv_payload u),
               vf_selector = uv_selector u, vf_role = pl_role (uv_payload u),
               vf_testing = testing, vf_rua = rua\<rparr>)"

definition unverified_verify_signature_only ::
  "'k dalek \<Rightarrow> unverified \<Rightarrow> 'k ed25519_public_key \<Rightarrow> (verified, reason) result" where
  "unverified_verify_signature_only d u key = finish_signature d u key False None"

definition authorized_operator :: "authorized \<Rightarrow> string" where
  "authorized_operator a = unverified_operator (au_token a)"

definition authorized_selector :: "authorized \<Rightarrow> string" where
  "authorized_selector a = unverified_selector (au_token a)"

definition verify_signature ::
  "'k dalek \<Rightarrow> authorized \<Rightarrow> 'k ed25519_public_key \<Rightarrow> (outcome, reason) result" where
  "verify_signature d a key =
     (let testing = au_testing a in
      and_then (finish_signature d (au_token a) key testing (au_rua a)) (\<lambda>verified.
      Ok (if testing then ObserveOnly verified else Pass verified)))"

fun outcome_auth_result :: "outcome \<Rightarrow> string" where
  "outcome_auth_result (Pass v) = ''pass''"
| "outcome_auth_result (ObserveOnly v) = ''none''"

fun outcome_verified :: "outcome \<Rightarrow> verified" where
  "outcome_verified (Pass v) = v"
| "outcome_verified (ObserveOnly v) = v"

section \<open>Complete verification\<close>

definition verify_signature_only ::
  "cbor_lib \<Rightarrow> 'k dalek \<Rightarrow> u8 list \<Rightarrow> 'k ed25519_public_key \<Rightarrow> ipv6_addr \<Rightarrow> i64 \<Rightarrow>
   (verified, reason) result" where
  "verify_signature_only lib d token key source now =
     and_then (parse lib token source now) (\<lambda>u. unverified_verify_signature_only d u key)"

definition verify ::
  "cbor_lib \<Rightarrow> 'k dalek \<Rightarrow> u8 list \<Rightarrow> 'k ed25519_public_key \<Rightarrow> policy_record \<Rightarrow> ipv6_addr \<Rightarrow> i64 \<Rightarrow>
   (outcome, reason) result" where
  "verify lib d token key policy source now =
     and_then (parse lib token source now) (\<lambda>u.
     and_then (authorize u policy) (\<lambda>a.
     verify_signature d a key))"

definition verify_authorized ::
  "cbor_lib \<Rightarrow> 'k dalek \<Rightarrow> u8 list \<Rightarrow> 'k ed25519_public_key \<Rightarrow> policy_record \<Rightarrow> ipv6_addr \<Rightarrow> i64 \<Rightarrow>
   (outcome, reason) result" where
  "verify_authorized lib d token key policy source now = verify lib d token key policy source now"

text \<open>A panic unwinds past the caller, so \<open>reason_str\<close> never sees one; its last equation is void.\<close>

fun reason_str :: "('a, reason) result \<Rightarrow> string" where
  "reason_str (Ok _) = PASS"
| "reason_str (Err reason) = as_str reason"
| "reason_str Panic = []"

section \<open>What the local checks establish\<close>

text \<open>The two boundaries a source address is masked to.\<close>

definition source_unit :: "ipv6_addr \<Rightarrow> u8 \<Rightarrow> ipv6_prefix" where
  "source_unit source len = \<lparr>pfx_addr = mask_addr source len, pfx_len = len\<rparr>"

definition in_window :: "payload \<Rightarrow> i64 \<Rightarrow> bool" where
  "in_window p now \<longleftrightarrow> uint (pl_iat p) - 300 \<le> sint now \<and> sint now \<le> uint (pl_exp p) + 300"

definition signed_payload :: "cbor_lib \<Rightarrow> u8 list \<Rightarrow> payload \<Rightarrow> bool" where
  "signed_payload lib bytes p \<longleftrightarrow>
     (\<exists>v. de_value lib bytes = Some (v, length bytes) \<and> payload_from_value v = Ok p) \<and>
     (\<exists>m. de_map lib bytes = Some m \<and> tag_free m)"

definition token_claims :: "cbor_lib \<Rightarrow> u8 list \<Rightarrow> unverified \<Rightarrow> bool" where
  "token_claims lib token u \<longleftrightarrow>
     length token \<le> 3072 \<and>
     (\<exists>c. token_shape lib token c \<and> headers_ok c (uv_selector u) \<and>
        signed_payload lib (cs_payload c) (uv_payload u) \<and>
        ser_value lib (sig_structure (cs_protected_raw c) (cs_payload c)) = Some (uv_to_be_signed u) \<and>
        uv_signature u = cs_signature c)"

definition source_claims :: "ipv6_addr \<Rightarrow> i64 \<Rightarrow> unverified \<Rightarrow> bool" where
  "source_claims source now u \<longleftrightarrow>
     is_eligible_source source \<and> in_window (uv_payload u) now \<and>
     source \<in> prefix_set (pl_prefix (uv_payload u)) \<and>
     uv_unit u = source_unit source (pl_unit (uv_payload u)) \<and>
     uv_observed_unit u = source_unit source 64"

lemma reject_tagged_Ok_iff:
  "reject_tagged_fields lib bytes = Ok x \<longleftrightarrow> (\<exists>m. de_map lib bytes = Some m \<and> tag_free m)"
  by (simp add: reject_tagged_cases)

lemma unit_le_128: "payload_ok p \<Longrightarrow> pl_unit p \<le> 128"
  by (simp add: payload_ok_def word_le_nat_alt)

lemma parse_Ok_iff:
  "parse_excluding lib token source now inel = Ok u \<longleftrightarrow>
     token_claims lib token u \<and> source_claims source now u \<and>
     list_all (\<lambda>p. \<not> contains p source) inel"
proof -
  have n: "list_ex (\<lambda>p. contains p source) inel \<longleftrightarrow> \<not> list_all (\<lambda>p. \<not> contains p source) inel"
    by (auto simp: list_ex_iff list_all_iff)
  have b: "pl_unit p \<le> 128" if "payload_from_value v = Ok p" for v p
    using that payload_from_value_ok unit_le_128 by blast
  have "parse_excluding lib token source now inel = Ok u \<longleftrightarrow>
    length token \<le> 3072 \<and>
    (\<exists>c v. cose_parse lib token = Ok c \<and> check_headers c = Ok (uv_selector u) \<and>
      decode_cbor lib (cs_payload c) = Ok v \<and>
      reject_tagged_fields lib (cs_payload c) = Ok () \<and> payload_from_value v = Ok (uv_payload u) \<and>
      to_be_signed lib c = Ok (uv_to_be_signed u) \<and> uv_signature u = cs_signature c) \<and>
    source_claims source now u \<and> list_all (\<lambda>p. \<not> contains p source) inel"
    by (cases u, auto simp: parse_excluding_def ok_iff n prefix_new_def source_claims_def
        in_window_def prefix_set_def source_unit_def MAX_TOKEN_LEN_def OBSERVED_UNIT_LEN_def
        SKEW_SECS_def not_less split: if_splits) (use b in fastforce)
  then show ?thesis
    unfolding cose_parse_Ok_iff check_headers_Ok_iff decode_cbor_Ok_iff reject_tagged_Ok_iff
      to_be_signed_def expect_Ok_iff token_claims_def signed_payload_def by blast
qed

lemma token_claims_payload_ok: "token_claims lib token u \<Longrightarrow> payload_ok (uv_payload u)"
  unfolding token_claims_def signed_payload_def using payload_from_value_ok by blast

lemma prefix_set_source_unit: "prefix_set (source_unit source len) = ip.block source len"
  by (simp add: prefix_set_block source_unit_def ip.block_msk)

lemma units_nested:
  assumes p: "payload_ok (uv_payload u)" and s: "source_claims source now u"
  shows "source \<in> prefix_set (uv_observed_unit u)"
    and "prefix_set (uv_observed_unit u) \<subseteq> prefix_set (uv_unit u)"
    and "prefix_set (uv_unit u) \<subseteq> prefix_set (pl_prefix (uv_payload u))"
proof -
  have l: "pl_unit (uv_payload u) \<le> 64" "pfx_len (pl_prefix (uv_payload u)) \<le> pl_unit (uv_payload u)"
    using p by (simp_all add: payload_ok_def word_le_nat_alt)
  have u: "uv_unit u = source_unit source (pl_unit (uv_payload u))"
    "uv_observed_unit u = source_unit source 64" "source \<in> prefix_set (pl_prefix (uv_payload u))"
    using s by (simp_all add: source_claims_def)
  show "source \<in> prefix_set (uv_observed_unit u)"
    unfolding u(2) prefix_set_source_unit by (rule ip.block_self)
  show "prefix_set (uv_observed_unit u) \<subseteq> prefix_set (uv_unit u)"
    unfolding u(1,2) prefix_set_source_unit by (rule ip.block_antimono [OF l(1)])
  show "prefix_set (uv_unit u) \<subseteq> prefix_set (pl_prefix (uv_payload u))"
    using u(3) unfolding u(1) prefix_set_source_unit unfolding prefix_set_block by (rule ip.block_within [OF _ l(2)])
qed

text \<open>C3: The local checks pass exactly when the token is at most 3072 octets of one tagged
  \<open>COSE_Sign1\<close> with conforming headers and payload, the source is eligible, lies outside the
  receiver's own ranges and inside the attested prefix, and the time is in the window widened
  by 300 seconds; the result holds the payload, the selector, the source masked to the signed
  unit and to 64 bits, the octets to be signed and the signature.\<close>

theorem parse_excluding_iff:
  "parse_excluding lib token source now inel = Ok u \<longleftrightarrow>
     token_claims lib token u \<and> source_claims source now u \<and>
     list_all (\<lambda>p. \<not> contains p source) inel"
  by (rule parse_Ok_iff)

text \<open>A receiver's own ineligible ranges only ever remove sources: with them a token passes
  exactly when it passes without them and the source is in none of them.\<close>

theorem parse_excluding_restricts:
  "parse_excluding lib token source now inel = Ok u \<longleftrightarrow>
     parse lib token source now = Ok u \<and> list_all (\<lambda>p. \<not> contains p source) inel"
  by (auto simp: parse_def parse_Ok_iff)

text \<open>C16: The reputation boundary is the source's own /64 whatever the token claims, and lies
  inside the unit asked for, which lies inside the attested prefix.\<close>

theorem units_nested_in_prefix:
  assumes "parse_excluding lib token source now inel = Ok u"
  shows "uv_observed_unit u = \<lparr>pfx_addr = mask_addr source 64, pfx_len = 64\<rparr> \<and>
    source \<in> prefix_set (uv_observed_unit u) \<and>
    prefix_set (uv_observed_unit u) \<subseteq> prefix_set (uv_unit u) \<and>
    prefix_set (uv_unit u) \<subseteq> prefix_set (pl_prefix (uv_payload u))"
proof -
  from assms have t: "token_claims lib token u" "source_claims source now u" by (auto simp: parse_Ok_iff)
  show ?thesis
    using units_nested [OF token_claims_payload_ok [OF t(1)] t(2)] t(2)
    by (simp add: source_claims_def source_unit_def)
qed

text \<open>C24: A token cannot be replayed for long: any two times at which it passes the local checks,
  from whatever sources, are at most a day and ten minutes apart.\<close>

theorem replay_bounded:
  assumes "parse_excluding lib token source now inel = Ok u"
    and "parse_excluding lib token source' now' inel' = Ok u'"
  shows "sint now' - sint now \<le> 87000"
proof -
  have t: "token_claims lib token u" "source_claims source now u"
    "token_claims lib token u'" "source_claims source' now' u'"
    using assms by (auto simp: parse_Ok_iff)
  have p: "uv_payload u' = uv_payload u"
  proof -
    from t(1,3) obtain c c' where c: "token_shape lib token c" "token_shape lib token c'"
      "signed_payload lib (cs_payload c) (uv_payload u)"
      "signed_payload lib (cs_payload c') (uv_payload u')" by (auto simp: token_claims_def)
    have "cs_payload c' = cs_payload c" using c(1,2) by (auto simp: token_shape_def)
    then show ?thesis using c(3,4) by (auto simp: signed_payload_def)
  qed
  then show ?thesis
    using token_claims_payload_ok [OF t(1)] t(2,4)
    by (auto simp: source_claims_def in_window_def payload_ok_def)
qed

section \<open>Why a token is refused\<close>

text \<open>What holds of a token by itself, wherever it is presented.\<close>

definition token_valid :: "cbor_lib \<Rightarrow> u8 list \<Rightarrow> payload \<Rightarrow> bool" where
  "token_valid lib token p \<longleftrightarrow>
     length token \<le> 3072 \<and>
     (\<exists>c selector. token_shape lib token c \<and> headers_ok c selector \<and> signed_payload lib (cs_payload c) p)"

text \<open>What depends on the connection, in the order of the source.\<close>

definition context_checks ::
  "ipv6_addr \<Rightarrow> i64 \<Rightarrow> ipv6_prefix list \<Rightarrow> payload \<Rightarrow> (bool \<times> reason) list" where
  "context_checks source now inel p =
     [(\<not> is_eligible_source source \<or> (\<exists>r\<in>set inel. source \<in> prefix_set r), IneligibleSource),
      (sint now < uint (pl_iat p) - 300, NotYetValid),
      (uint (pl_exp p) + 300 < sint now, Expired),
      (source \<notin> prefix_set (pl_prefix p), OffPrefix)]"

text \<open>The two halves of \<open>parse_excluding\<close>.\<close>

definition token_check :: "cbor_lib \<Rightarrow> u8 list \<Rightarrow> (cose_sign1 \<times> string \<times> payload, reason) result" where
  "token_check lib token =
     (if MAX_TOKEN_LEN < length token then Err Malformed
      else
      and_then (cose_parse lib token) (\<lambda>cose.
      and_then (check_headers cose) (\<lambda>selector.
      and_then (decode_cbor lib (cs_payload cose)) (\<lambda>payload_value.
      and_then (reject_tagged_fields lib (cs_payload cose)) (\<lambda>_.
      and_then (payload_from_value payload_value) (\<lambda>payload. Ok (cose, selector, payload)))))))"

definition admit ::
  "cbor_lib \<Rightarrow> ipv6_addr \<Rightarrow> cose_sign1 \<times> string \<times> payload \<Rightarrow> (unverified, reason) result" where
  "admit lib source = (\<lambda>(cose, selector, payload).
     and_then (to_be_signed lib cose) (\<lambda>tbs.
     Ok \<lparr>uv_payload = payload, uv_selector = selector, uv_unit = source_unit source (pl_unit payload),
         uv_observed_unit = source_unit source 64, uv_to_be_signed = tbs,
         uv_signature = cs_signature cose\<rparr>))"

lemma token_check_iff:
  "token_check lib token = Ok (c, sel, p) \<longleftrightarrow>
     length token \<le> 3072 \<and> token_shape lib token c \<and> headers_ok c sel \<and>
     signed_payload lib (cs_payload c) p"
  by (auto simp: token_check_def and_then_Ok_iff cose_parse_Ok_iff check_headers_Ok_iff
      decode_cbor_Ok_iff reject_tagged_Ok_iff signed_payload_def MAX_TOKEN_LEN_def)

lemma token_valid_iff: "token_valid lib token p \<longleftrightarrow> (\<exists>c sel. token_check lib token = Ok (c, sel, p))"
  unfolding token_check_iff token_valid_def by blast

lemma token_check_err:
  assumes "token_check lib token = Err e"
  shows "e \<notin> {IneligibleSource, NotYetValid, Expired, OffPrefix}"
proof -
  have h: "check_headers c = Err e \<Longrightarrow> e \<in> {HeaderConfusion, BadContentType, BadKid}" for c e
    unfolding check_headers_buckets by (auto simp: ok_iff split: if_splits option.splits cbor.splits)
  have p: "payload_from_value v = Err e \<Longrightarrow>
      e \<in> {Malformed, BadRole, BadPrefix, BadValidity, LifetimeTooLong, BadUnit}" for v e
    using payload_total [of v] by auto
  have t: "reject_tagged_fields lib b = Err e \<Longrightarrow> e = Malformed" for b e
    by (simp add: reject_tagged_cases split: if_splits)
  show ?thesis
    using assms
    by (auto simp: token_check_def and_then_Err_iff dest!: h p t cose_parse_err decode_cbor_err split: if_splits)
qed

lemma token_check_no_panic: "token_check lib token \<noteq> Panic"
  by (auto simp: token_check_def and_then_Panic_iff reject_tagged_cases payload_no_panic)

lemma parse_excluding_halves:
  "parse_excluding lib token source now inel =
     and_then (token_check lib token) (\<lambda>(cose, selector, payload).
       case first_reason (context_checks source now inel payload) of
         Some e \<Rightarrow> Err e
       | None \<Rightarrow> admit lib source (cose, selector, payload))"
proof -
  have s: "list_ex (\<lambda>p. contains p source) inel \<longleftrightarrow> (\<exists>r\<in>set inel. source \<in> prefix_set r)"
    by (simp add: list_ex_iff prefix_set_def)
  have tail: "(if \<not> is_eligible_source source \<or> list_ex (\<lambda>p. contains p source) inel
      then Err IneligibleSource
      else if sint now < uint (pl_iat p) - SKEW_SECS then Err NotYetValid
      else if uint (pl_exp p) + SKEW_SECS < sint now then Err Expired
      else if \<not> contains (pl_prefix p) source then Err OffPrefix
      else x) =
    (case first_reason (context_checks source now inel p) of Some e \<Rightarrow> Err e | None \<Rightarrow> x)"
    for p and x :: "(unverified, reason) result"
    by (simp add: context_checks_def SKEW_SECS_def s prefix_set_def)
  have units: "and_then (expect (prefix_new (mask_addr source (pl_unit p)) (pl_unit p))) (\<lambda>unit.
      and_then (expect (prefix_new (mask_addr source OBSERVED_UNIT_LEN) OBSERVED_UNIT_LEN)) (f unit)) =
    f (source_unit source (pl_unit p)) (source_unit source 64)"
    if "payload_from_value v = Ok p" for v p and f :: "ipv6_prefix \<Rightarrow> ipv6_prefix \<Rightarrow> (unverified, reason) result"
    using unit_le_128 [OF payload_from_value_ok [OF that]]
    by (simp add: prefix_new_def OBSERVED_UNIT_LEN_def source_unit_def not_less [symmetric])
  show ?thesis
    unfolding parse_excluding_def token_check_def tail admit_def
    by (auto simp: and_then_assoc intro!: and_then_cong) (subst units, assumption, rule refl)
qed

text \<open>C17: A refusal is either a fault of the token, and then the same reason is given for it at every
  source, time and configuration, or the first of four checks on the connection that a faultless
  token fails there: ineligible source, not yet valid, expired, off prefix, in this order.\<close>

theorem parse_excluding_errors:
  "parse_excluding lib token source now inel = Err e \<longleftrightarrow>
     e \<notin> {IneligibleSource, NotYetValid, Expired, OffPrefix} \<and>
       (\<forall>source' now' inel'. parse_excluding lib token source' now' inel' = Err e) \<or>
     (\<exists>p. token_valid lib token p \<and> first_reason (context_checks source now inel p) = Some e)"
proof (cases "token_check lib token")
  case (Ok r)
  obtain c sel p where r: "r = (c, sel, p)" by (cases r)
  have v: "token_valid lib token q \<longleftrightarrow> q = p" for q
    by (auto simp: token_valid_iff Ok r)
  have a: "admit lib s x \<noteq> Err e'" for s x e'
    by (auto simp: admit_def to_be_signed_def and_then_Err_iff expect_Err_iff split: prod.split)
  have m: "first_reason (context_checks source now inel p) = Some e \<Longrightarrow>
      e \<in> {IneligibleSource, NotYetValid, Expired, OffPrefix}"
    by (auto simp: context_checks_def split: if_splits)
  have "parse_excluding lib token source now inel = Err e \<longleftrightarrow>
      first_reason (context_checks source now inel p) = Some e" for source now inel
    by (cases "first_reason (context_checks source now inel p)") (simp_all add: parse_excluding_halves Ok r a)
  then show ?thesis using m v by auto
next
  case (Err e')
  have "\<not> token_valid lib token p" for p by (simp add: token_valid_iff Err)
  then show ?thesis using Err token_check_err [OF Err] by (auto simp: parse_excluding_halves)
next
  case Panic
  then show ?thesis using token_check_no_panic by blast
qed

section \<open>What complete verification guarantees\<close>

definition verified_of :: "unverified \<Rightarrow> bool \<Rightarrow> string option \<Rightarrow> verified" where
  "verified_of u testing rua =
     \<lparr>vf_operator = pl_operator (uv_payload u), vf_unit = uv_unit u,
      vf_observed_unit = uv_observed_unit u, vf_prefix = pl_prefix (uv_payload u),
      vf_selector = uv_selector u, vf_role = pl_role (uv_payload u),
      vf_testing = testing, vf_rua = rua\<rparr>"

definition authorized_by :: "policy_record \<Rightarrow> unverified \<Rightarrow> bool" where
  "authorized_by policy u \<longleftrightarrow>
     authorizes policy (pl_prefix (uv_payload u)) \<and> pol_unit policy = pl_unit (uv_payload u)"

lemma authorize_Ok_iff [ok_iff]:
  "authorize u policy = Ok a \<longleftrightarrow> authorized_by policy u \<and>
     a = \<lparr>au_token = u, au_testing = pol_testing policy, au_rua = pol_rua policy\<rparr>"
  by (auto simp: authorize_def authorized_by_def)

lemma finish_signature_Ok_iff [ok_iff]:
  "finish_signature d u key testing rua = Ok v \<longleftrightarrow>
     key_verify d key (uv_to_be_signed u) (uv_signature u) \<and> v = verified_of u testing rua"
  by (auto simp: finish_signature_def verified_of_def)

lemma verify_Ok_iff:
  "verify lib d token key policy source now = Ok out \<longleftrightarrow>
     (\<exists>u. parse lib token source now = Ok u \<and> authorized_by policy u \<and>
        key_verify d key (uv_to_be_signed u) (uv_signature u) \<and>
        out = (if pol_testing policy then ObserveOnly else Pass)
                (verified_of u (pol_testing policy) (pol_rua policy)))"
  by (auto simp: verify_def verify_signature_def Let_def ok_iff)

text \<open>C2: Complete verification succeeds exactly when the local checks pass, the policy authorizes
  the signed prefix and states the signed unit, and the key verifies the signature over the
  signed octets; the outcome is a pass unless the policy is in testing mode.\<close>

theorem verify_iff:
  "verify lib d token key policy source now = Ok out \<longleftrightarrow>
     (\<exists>u. token_claims lib token u \<and> source_claims source now u \<and> authorized_by policy u \<and>
        key_verify d key (uv_to_be_signed u) (uv_signature u) \<and>
        out = (if pol_testing policy then ObserveOnly else Pass)
                (verified_of u (pol_testing policy) (pol_rua policy)))"
  by (auto simp: verify_Ok_iff parse_def parse_Ok_iff)

lemma pass_facts:
  assumes "verify lib d token key policy source now = Ok (Pass v)"
  shows "\<not> pol_testing policy \<and> is_eligible_source source \<and> source \<in> prefix_set (vf_prefix v) \<and>
    is_attestable (vf_prefix v) \<and>
    (\<exists>q\<in>set (pol_prefixes policy). is_attestable q \<and> prefix_set (vf_prefix v) \<subseteq> prefix_set q) \<and>
    vf_observed_unit v = \<lparr>pfx_addr = mask_addr source 64, pfx_len = 64\<rparr> \<and>
    prefix_set (vf_observed_unit v) \<subseteq> prefix_set (vf_prefix v) \<and>
    (\<exists>c tbs. token_shape lib token c \<and> headers_ok c (vf_selector v) \<and>
       ser_value lib (sig_structure (cs_protected_raw c) (cs_payload c)) = Some tbs \<and>
       length (cs_signature c) = 64 \<and> vk_verify_strict d (inner key) tbs (cs_signature c))"
proof -
  from assms obtain u where u: "token_claims lib token u" "source_claims source now u"
      "authorized_by policy u" "key_verify d key (uv_to_be_signed u) (uv_signature u)"
      "\<not> pol_testing policy" and v: "v = verified_of u False (pol_rua policy)"
    by (auto simp: verify_Ok_iff parse_def parse_Ok_iff split: if_splits)
  note n = units_nested [OF token_claims_payload_ok [OF u(1)] u(2)]
  have a: "is_attestable (vf_prefix v)"
    "\<exists>q\<in>set (pol_prefixes policy). is_attestable q \<and> prefix_set (vf_prefix v) \<subseteq> prefix_set q"
    using u(3) by (auto simp: v verified_of_def authorized_by_def authorizes_subset)
  have s: "\<exists>c tbs. token_shape lib token c \<and> headers_ok c (vf_selector v) \<and>
       ser_value lib (sig_structure (cs_protected_raw c) (cs_payload c)) = Some tbs \<and>
       length (cs_signature c) = 64 \<and> vk_verify_strict d (inner key) tbs (cs_signature c)"
    using u(1,4) by (auto simp: v verified_of_def token_claims_def key_verify_iff)
  show ?thesis
    using u(2,5) n a s by (auto simp: v verified_of_def source_claims_def source_unit_def)
qed

text \<open>C1: What a pass means: the policy is not in testing mode; the source is an eligible address of
  a prefix that is attestable and lies in one prefix the policy lists; the reputation boundary
  is the source's /64 inside that prefix; and a 64-octet signature over the token's protected
  header and payload octets passed the strict check under the operator's key.\<close>

theorem pass_sound:
  assumes "verify lib d token key policy source now = Ok (Pass v)"
  shows "\<not> pol_testing policy \<and> is_eligible_source source \<and> source \<in> prefix_set (vf_prefix v) \<and>
    is_attestable (vf_prefix v) \<and>
    (\<exists>q\<in>set (pol_prefixes policy). is_attestable q \<and> prefix_set (vf_prefix v) \<subseteq> prefix_set q) \<and>
    vf_observed_unit v = \<lparr>pfx_addr = mask_addr source 64, pfx_len = 64\<rparr> \<and>
    prefix_set (vf_observed_unit v) \<subseteq> prefix_set (vf_prefix v) \<and>
    (\<exists>c tbs. token_shape lib token c \<and> headers_ok c (vf_selector v) \<and>
       ser_value lib (sig_structure (cs_protected_raw c) (cs_payload c)) = Some tbs \<and>
       length (cs_signature c) = 64 \<and> vk_verify_strict d (inner key) tbs (cs_signature c))"
  using assms by (rule pass_facts)

text \<open>A verified token reports \<open>pass\<close> exactly when the policy is not in testing mode; under a
  testing policy the best outcome is \<open>none\<close>, with the testing flag and the policy's report
  destination attached to the token either way.\<close>

theorem testing_never_passes:
  assumes "verify lib d token key policy source now = Ok out"
  shows "outcome_auth_result out = (if pol_testing policy then ''none'' else ''pass'') \<and>
    vf_testing (outcome_verified out) = pol_testing policy \<and>
    vf_rua (outcome_verified out) = pol_rua policy"
  using assms by (auto simp: verify_Ok_iff verified_of_def)

text \<open>C25: Policy authorization only narrows: complete verification succeeds exactly when the
  signature-only verification does, with the same attributed token apart from the policy's
  metadata, and the policy authorizes its prefix and states the unit it was cut to.\<close>

theorem verify_narrows_signature_only:
  "(\<exists>out. verify lib d token key policy source now = Ok out \<and>
      (outcome_verified out)\<lparr>vf_testing := False, vf_rua := None\<rparr> = v) \<longleftrightarrow>
   verify_signature_only lib d token key source now = Ok v \<and>
     authorizes policy (vf_prefix v) \<and> pol_unit policy = pfx_len (vf_unit v)"
proof -
  have l: "parse lib token source now = Ok u \<Longrightarrow> pfx_len (uv_unit u) = pl_unit (uv_payload u)" for u
    by (auto simp: parse_def parse_Ok_iff source_claims_def source_unit_def)
  have o: "verify_signature_only lib d token key source now = Ok v \<longleftrightarrow>
      (\<exists>u. parse lib token source now = Ok u \<and> key_verify d key (uv_to_be_signed u) (uv_signature u) \<and>
        v = verified_of u False None)"
    by (simp add: verify_signature_only_def unverified_verify_signature_only_def ok_iff)
  show ?thesis
    unfolding verify_Ok_iff o authorized_by_def using l
    by (cases "pol_testing policy") (auto simp: verified_of_def)
qed

text \<open>C18: Complete verification reports the first stage that fails: the local checks, the policy's
  prefixes, the policy's unit, the signature. A token that no policy could save is refused without
  one, and no signature is looked at for a token the policy does not cover.\<close>

theorem verify_errors:
  "verify lib d token key policy source now = Err e \<longleftrightarrow>
     parse lib token source now = Err e \<or>
     (\<exists>u. parse lib token source now = Ok u \<and>
        first_reason
          [(\<not> (\<exists>q\<in>set (pol_prefixes policy). is_attestable q \<and>
                prefix_set (pl_prefix (uv_payload u)) \<subseteq> prefix_set q), UnauthorizedPrefix),
           (pol_unit policy \<noteq> pl_unit (uv_payload u), PolicyUnitMismatch),
           (\<not> (length (uv_signature u) = 64 \<and>
              vk_verify_strict d (inner key) (uv_to_be_signed u) (uv_signature u)), BadSignature)]
          = Some e)"
proof (cases "parse lib token source now")
  case (Ok u)
  then have "token_claims lib token u" by (simp add: parse_def parse_Ok_iff)
  then have "is_attestable (pl_prefix (uv_payload u))"
    using token_claims_payload_ok by (simp add: payload_ok_def)
  then have p: "authorizes policy (pl_prefix (uv_payload u)) \<longleftrightarrow>
      (\<exists>q\<in>set (pol_prefixes policy). is_attestable q \<and> prefix_set (pl_prefix (uv_payload u)) \<subseteq> prefix_set q)"
    by (simp add: authorizes_subset)
  show ?thesis
    by (auto simp: verify_def Ok authorize_def verify_signature_def finish_signature_def key_verify_iff p Let_def)
qed (simp_all add: verify_def)

section \<open>Bounds, panics and binding\<close>

text \<open>A token over 3072 octets is malformed for every decoder, source, key and policy.\<close>

theorem oversized_token_malformed:
  assumes "3072 < length token"
  shows "parse_excluding lib token source now inel = Err Malformed \<and>
    verify lib d token key policy source now = Err Malformed"
  using assms by (simp add: verify_def parse_def parse_excluding_def MAX_TOKEN_LEN_def)

lemma oversized_token_malformed_witness:
  "\<forall>lib source now inel. parse_excluding lib (replicate 3073 0) source now inel = Err Malformed"
  by (intro allI, rule conjunct1, rule oversized_token_malformed) simp

lemma parse_panic:
  "parse_excluding lib token source now inel = Panic \<Longrightarrow> \<exists>v. ser_value lib v = None"
proof -
  have r: "reject_tagged_fields lib b \<noteq> Panic" for b by (simp add: reject_tagged_cases)
  have e: "prefix_new a (pl_unit p) \<noteq> None" if "payload_from_value v = Ok p" for v p a
    using unit_le_128 [OF payload_from_value_ok [OF that]] by (simp add: prefix_new_def not_less)
  have o: "prefix_new a OBSERVED_UNIT_LEN \<noteq> None" for a
    by (simp add: prefix_new_def OBSERVED_UNIT_LEN_def)
  show "parse_excluding lib token source now inel = Panic \<Longrightarrow> \<exists>v. ser_value lib v = None"
    by (auto simp: parse_excluding_def and_then_Panic_iff to_be_signed_def expect_Panic_iff
        expect_Ok_iff r payload_no_panic split: if_splits) (use e o in blast)+
qed

lemma verification_total:
  assumes "\<And>v. ser_value lib v \<noteq> None"
  shows "parse_excluding lib token source now inel \<noteq> Panic \<and>
    verify lib d token key policy source now \<noteq> Panic \<and>
    verify_signature_only lib d token key source now \<noteq> Panic"
proof -
  have p: "parse_excluding lib token source now inel \<noteq> Panic" for token source now inel
    using assms parse_panic by blast
  show ?thesis
    using p by (auto simp: verify_def verify_signature_only_def parse_def and_then_Panic_iff authorize_def
        verify_signature_def Let_def finish_signature_def unverified_verify_signature_only_def
        split: if_splits)
qed

text \<open>C23: Verification never panics, as long as the CBOR library can encode into memory: every
  \<open>expect\<close> of the source is reached only when it holds.\<close>

theorem verification_no_panic:
  assumes "\<And>v. ser_value lib v \<noteq> None"
  shows "parse_excluding lib token source now inel \<noteq> Panic \<and>
    verify lib d token key policy source now \<noteq> Panic \<and>
    verify_signature_only lib d token key source now \<noteq> Panic"
  using assms by (rule verification_total)

lemma bucket_unique: "bucket es h \<Longrightarrow> bucket es h' \<Longrightarrow> h = h'"
  by (simp flip: read_headers_Ok_iff)

text \<open>C8: The signed octets bind what the token claims: two tokens accepted with the same octets to
  be signed have the same payload and the same selector, however their unprotected headers or
  encodings differ. (The library's decoder must read back what its encoder writes of a
  \<open>Sig_structure\<close>, an array of one text and three byte strings.)\<close>

theorem signed_octets_bind:
  assumes rt: "\<And>prot claim bs. ser_value lib (sig_structure prot claim) = Some bs \<Longrightarrow>
      de_value lib bs = Some (sig_structure prot claim, length bs)"
    and u: "parse_excluding lib token source now inel = Ok u"
    and u': "parse_excluding lib token' source' now' inel' = Ok u'"
    and tbs: "uv_to_be_signed u = uv_to_be_signed u'"
  shows "uv_payload u = uv_payload u' \<and> uv_selector u = uv_selector u'"
proof -
  from u obtain c where c: "token_shape lib token c" "headers_ok c (uv_selector u)"
    "signed_payload lib (cs_payload c) (uv_payload u)"
    "ser_value lib (sig_structure (cs_protected_raw c) (cs_payload c)) = Some (uv_to_be_signed u)"
    by (auto simp: parse_Ok_iff token_claims_def)
  from u' obtain c' where c': "token_shape lib token' c'" "headers_ok c' (uv_selector u')"
    "signed_payload lib (cs_payload c') (uv_payload u')"
    "ser_value lib (sig_structure (cs_protected_raw c') (cs_payload c')) = Some (uv_to_be_signed u')"
    by (auto simp: parse_Ok_iff token_claims_def)
  have "sig_structure (cs_protected_raw c) (cs_payload c) = sig_structure (cs_protected_raw c') (cs_payload c')"
    using rt [OF c(4)] rt [OF c'(4)] tbs by simp
  then have e: "cs_protected_raw c = cs_protected_raw c'" "cs_payload c = cs_payload c'"
    by (simp_all add: sig_structure_def)
  have h: "cs_protected c = cs_protected c'"
    using c(1) c'(1) e(1) bucket_unique by (auto simp: token_shape_def split: if_splits)
  have "uv_payload u = uv_payload u'"
    using c(3) c'(3) e(2) by (auto simp: signed_payload_def)
  moreover have "uv_selector u = uv_selector u'"
    using c(2) c'(2) h by (auto simp: headers_ok_def)
  ultimately show ?thesis ..
qed

text \<open>The reason string of a verdict is \<open>pass\<close> for a success only, and tells every failure
  apart from every other.\<close>

theorem reason_str_faithful:
  "reason_str (Ok x) = ''pass'' \<and> reason_str (Err e) \<noteq> ''pass'' \<and>
   (reason_str (Err e) = reason_str (Err e') \<longleftrightarrow> e = e')"
  using inj_as_str [THEN inj_eq, of e e'] by (cases e) (simp_all add: PASS_def)

end
