(* ===== verification/Sworn_Codec.thy ===== *)
theory Sworn_Codec
  imports Sworn_Token
begin

text \<open>
  A small reader and writer of definite-length CBOR (no floats or indefinite lengths when reading),
  which instantiates the parameter \<open>cbor_lib\<close> for the witnesses. \<open>read_item\<close> carries fuel for the
  nesting depth and the number of items; 100 is more than any value read here needs. What the
  writer makes of a \<open>Sig_structure\<close> the reader reads back, whatever the octets in it.
\<close>

section \<open>A small CBOR codec\<close>

fun be :: "nat list \<Rightarrow> nat" where
  "be bs = foldl (\<lambda>acc b. acc * 256 + b) 0 bs"

definition read_arg :: "nat \<Rightarrow> nat list \<Rightarrow> (nat \<times> nat list) option" where
  "read_arg info bs =
     (if info < 24 then Some (info, bs)
      else if 27 < info then None
      else let k = 2 ^ (info - 24) in
        if length bs < k then None else Some (be (take k bs), drop k bs))"

fun pairs_of :: "cbor list \<Rightarrow> (cbor \<times> cbor) list" where
  "pairs_of (k # v # rest) = (k, v) # pairs_of rest"
| "pairs_of _ = []"

fun read_item :: "nat \<Rightarrow> nat list \<Rightarrow> (cbor \<times> nat list) option"
  and read_items :: "nat \<Rightarrow> nat \<Rightarrow> nat list \<Rightarrow> (cbor list \<times> nat list) option" where
  "read_item fuel [] = None"
| "read_item fuel (b # bs) =
     (if fuel = 0 then None
      else case read_arg (b mod 32) bs of
        None \<Rightarrow> None
      | Some (n, bs) \<Rightarrow>
          let major = b div 32 in
          if major = 0 then Some (Integer (int n), bs)
          else if major = 1 then Some (Integer (- 1 - int n), bs)
          else if major = 2 then
            (if length bs < n then None else Some (Bytes (map of_nat (take n bs)), drop n bs))
          else if major = 3 then
            (if length bs < n \<or> \<not> utf8_valid (take n bs) then None
             else Some (Text (map char_of (take n bs)), drop n bs))
          else if major = 4 then map_option (\<lambda>(vs, bs). (Array vs, bs)) (read_items (fuel - 1) n bs)
          else if major = 5 then
            map_option (\<lambda>(vs, bs). (Map (pairs_of vs), bs)) (read_items (fuel - 1) (2 * n) bs)
          else if major = 6 then
            map_option (\<lambda>(v, bs). (Tag (of_nat n) v, bs)) (read_item (fuel - 1) bs)
          else None)"
| "read_items fuel n bs =
     (if n = 0 then Some ([], bs)
      else if fuel = 0 then None
      else case read_item (fuel - 1) bs of
        None \<Rightarrow> None
      | Some (v, bs) \<Rightarrow> map_option (\<lambda>(vs, bs). (v # vs, bs)) (read_items (fuel - 1) (n - 1) bs))"

declare read_item.simps(2) [simp del] read_items.simps [simp del]

text \<open>The encoder writes the shortest heads.\<close>

definition be_bytes :: "nat \<Rightarrow> nat \<Rightarrow> nat list" where
  "be_bytes k n = map (\<lambda>i. n div 256 ^ i mod 256) (rev [0..<k])"

definition write_head :: "nat \<Rightarrow> nat \<Rightarrow> nat list" where
  "write_head major n =
     (if n < 24 then [major * 32 + n]
      else if n < 256 then (major * 32 + 24) # be_bytes 1 n
      else if n < 65536 then (major * 32 + 25) # be_bytes 2 n
      else if n < 4294967296 then (major * 32 + 26) # be_bytes 4 n
      else (major * 32 + 27) # be_bytes 8 n)"

fun write_item :: "cbor \<Rightarrow> nat list" where
  "write_item (Integer i) =
     (if 0 \<le> i then write_head 0 (nat i) else write_head 1 (nat (- 1 - i)))"
| "write_item (Bytes bs) = write_head 2 (length bs) @ map unat bs"
| "write_item (Text s) = write_head 3 (length s) @ map code s"
| "write_item (Array vs) = write_head 4 (length vs) @ concat (map write_item vs)"
| "write_item (Map es) =
     write_head 5 (length es) @ concat (map (\<lambda>(k, v). write_item k @ write_item v) es)"
| "write_item (Tag t v) = write_head 6 (unat t) @ write_item v"
| "write_item (Bool b) = [if b then 245 else 244]"
| "write_item Null = [246]"
| "write_item (Float w) = 251 # be_bytes 8 (unat w)"

definition example_decode :: "u8 list \<Rightarrow> (cbor \<times> nat) option" where
  "example_decode bs =
     map_option (\<lambda>(v, rest). (v, length bs - length rest)) (read_item 100 (map unat bs))"

fun capture :: "cbor \<Rightarrow> u64 option \<times> cbor" where
  "capture (Tag t v) = (Some t, v)"
| "capture v = (None, v)"

definition example_decode_map :: "u8 list \<Rightarrow> (int \<times> (u64 option \<times> cbor)) list option" where
  "example_decode_map bs =
     (case read_item 100 (map unat bs) of
        Some (Map es, _) \<Rightarrow>
          those (map (\<lambda>(k, v). case k of Integer i \<Rightarrow> Some (i, capture v) | _ \<Rightarrow> None) es)
      | _ \<Rightarrow> None)"

definition example_lib :: cbor_lib where
  "example_lib = \<lparr>de_value = example_decode, de_map = example_decode_map,
     ser_value = (\<lambda>v. Some (map of_nat (write_item v)))\<rparr>"

text \<open>The same library with the bound that a vector's length has in the source.\<close>

definition sized_lib :: cbor_lib where
  "sized_lib = example_lib\<lparr>ser_value := (\<lambda>v.
     if length (write_item v) < 2 ^ 64 then Some (map of_nat (write_item v)) else None)\<rparr>"

section \<open>Reading back what was written\<close>

lemma foldl_be: "foldl (\<lambda>acc b. acc * 256 + b) a bs = a * 256 ^ length bs + be bs"
proof (induction bs arbitrary: a)
  case (Cons b bs)
  have "be (b # bs) = b * 256 ^ length bs + be bs" using Cons.IH [of b] by simp
  then show ?case using Cons.IH [of "a * 256 + b"] by (simp add: add_mult_distrib del: be.simps)
qed simp

lemma be_Cons: "be (b # bs) = b * 256 ^ length bs + be bs"
  using foldl_be [of b bs] by simp

lemma be_bytes_Suc: "be_bytes (Suc k) n = n div 256 ^ k mod 256 # be_bytes k n"
  by (simp add: be_bytes_def)

lemma length_be_bytes [simp]: "length (be_bytes k n) = k"
  by (simp add: be_bytes_def)

lemma be_be_bytes: "be (be_bytes k n) = n mod 256 ^ k"
proof (induction k)
  case (Suc k)
  have "n mod 256 ^ Suc k = 256 ^ k * (n div 256 ^ k mod 256) + n mod 256 ^ k"
    by (simp add: power_Suc2 mod_mult2_eq del: power_Suc)
  then show ?case by (simp add: be_bytes_Suc be_Cons Suc del: be.simps)
qed (simp add: be_bytes_def)

lemma be_bytes_octets: "b \<in> set (be_bytes k n) \<Longrightarrow> b < 256"
  by (auto simp: be_bytes_def)

lemma read_arg_bytes:
  assumes "n < 256 ^ (2 ^ (info - 24))" and "24 \<le> info" and "info \<le> 27"
  shows "read_arg info (be_bytes (2 ^ (info - 24)) n @ rest) = Some (n, rest)"
  using assms by (simp add: read_arg_def Let_def be_be_bytes del: be.simps)

lemma head_roundtrip:
  assumes "n < 2 ^ 64" and "major < 8"
  obtains b bs where "write_head major n = b # bs" and "b div 32 = major" and "b < 256"
    and "\<And>rest. read_arg (b mod 32) (bs @ rest) = Some (n, rest)" and "list_all (\<lambda>b. b < 256) bs"
proof -
  have o: "list_all (\<lambda>b. b < 256) (be_bytes k n)" for k by (auto simp: list_all_iff dest: be_bytes_octets)
  have d: "(major * 32 + i) div 32 = major" "(major * 32 + i) mod 32 = i" if "i < 32" for i
    using that by simp_all
  consider "n < 24" | "24 \<le> n" "n < 256" | "256 \<le> n" "n < 65536" | "65536 \<le> n" "n < 4294967296"
    | "4294967296 \<le> n" by linarith
  then show thesis
  proof cases
    case 1
    then show thesis using d [of n] assms(2) by (intro that) (auto simp: write_head_def read_arg_def)
  next
    case 2
    then show thesis using d [of 24] assms(2) o [of 1] read_arg_bytes [of n 24]
      by (intro that [of "major * 32 + 24" "be_bytes 1 n"]) (auto simp: write_head_def)
  next
    case 3
    then show thesis using d [of 25] assms(2) o [of 2] read_arg_bytes [of n 25]
      by (intro that [of "major * 32 + 25" "be_bytes 2 n"]) (auto simp: write_head_def)
  next
    case 4
    then show thesis using d [of 26] assms(2) o [of 4] read_arg_bytes [of n 26]
      by (intro that [of "major * 32 + 26" "be_bytes 4 n"]) (auto simp: write_head_def)
  next
    case 5
    then show thesis using d [of 27] assms o [of 8] read_arg_bytes [of n 27]
      by (intro that [of "major * 32 + 27" "be_bytes 8 n"]) (auto simp: write_head_def)
  qed
qed

lemma bytes_roundtrip:
  assumes "length bs < 2 ^ 64" and "fuel \<noteq> 0"
  shows "read_item fuel (write_item (Bytes bs) @ rest) = Some (Bytes bs, rest)"
    and "list_all (\<lambda>b. b < 256) (write_item (Bytes bs))"
proof -
  have u: "list_all (\<lambda>b. b < 256) (map unat bs)" by (auto simp: list_all_iff unat_u8_less)
  obtain b tl where h: "write_head 2 (length bs) = b # tl" "b div 32 = 2" "b < 256"
    "\<And>rest. read_arg (b mod 32) (tl @ rest) = Some (length bs, rest)" "list_all (\<lambda>b. b < 256) tl"
    using head_roundtrip [OF assms(1), of 2] by auto
  show "read_item fuel (write_item (Bytes bs) @ rest) = Some (Bytes bs, rest)"
    using assms(2) h(2,4) by (simp add: h(1) read_item.simps(2) comp_def)
  show "list_all (\<lambda>b. b < 256) (write_item (Bytes bs))" using h(3,5) u by (simp add: h(1))
qed

lemma context_roundtrip:
  assumes "fuel \<noteq> 0"
  shows "read_item fuel (write_item (Text ''Signature1'') @ rest) = Some (Text ''Signature1'', rest)"
    and "list_all (\<lambda>b. b < 256) (write_item (Text ''Signature1''))"
proof -
  have w: "write_item (Text ''Signature1'') = 106 # map code ''Signature1''" by code_simp
  have u: "utf8_valid (map code ''Signature1'')" "map char_of (map code ''Signature1'') = ''Signature1''"
    by code_simp+
  have a: "read_arg 10 bs = Some (10, bs)" for bs by (simp add: read_arg_def)
  have l: "length (map code ''Signature1'') = 10" by simp
  show "read_item fuel (write_item (Text ''Signature1'') @ rest) = Some (Text ''Signature1'', rest)"
    unfolding w using assms a l u by (simp add: read_item.simps(2) del: list.map)
  show "list_all (\<lambda>b. b < 256) (write_item (Text ''Signature1''))" unfolding w by simp
qed

lemma write_sig_structure:
  "write_item (sig_structure p c) =
     132 # write_item (Text ''Signature1'') @ write_item (Bytes p) @ write_item (Bytes []) @ write_item (Bytes c)"
  by (simp add: sig_structure_def write_head_def)

lemma sig_structure_roundtrip:
  assumes "length (write_item (sig_structure p c)) < 2 ^ 64"
  shows "read_item 100 (write_item (sig_structure p c)) = Some (sig_structure p c, [])"
    and "list_all (\<lambda>b. b < 256) (write_item (sig_structure p c))"
proof -
  have l: "length p < 2 ^ 64" "length c < 2 ^ 64" using assms by (simp_all add: write_sig_structure)
  have e: "length ([] :: u8 list) < 2 ^ 64" by simp
  have a: "read_arg 4 bs = Some (4, bs)" for bs by (simp add: read_arg_def)
  have last: "read_item fuel (write_item (Bytes c)) = Some (Bytes c, [])" if "fuel \<noteq> 0" for fuel
    using bytes_roundtrip(1) [OF l(2) that, of "[]"] by simp
  show "read_item 100 (write_item (sig_structure p c)) = Some (sig_structure p c, [])"
    unfolding write_sig_structure
    by (simp add: read_item.simps(2) read_items.simps a context_roundtrip(1) bytes_roundtrip(1) [OF l(1)]
        bytes_roundtrip(1) [OF e] last sig_structure_def del: write_item.simps)
  show "list_all (\<lambda>b. b < 256) (write_item (sig_structure p c))"
    unfolding write_sig_structure
    using context_roundtrip(2) [of 1] bytes_roundtrip(2) [of _ 1] l e by (simp del: write_item.simps)
qed

lemma sized_lib_roundtrip:
  assumes "ser_value sized_lib (sig_structure p c) = Some bs"
  shows "de_value sized_lib bs = Some (sig_structure p c, length bs)"
proof -
  let ?w = "write_item (sig_structure p c)"
  have w: "length ?w < 2 ^ 64" "bs = map of_nat ?w"
    using assms by (auto simp: sized_lib_def split: if_splits)
  have "map unat bs = ?w"
    unfolding w(2) using sig_structure_roundtrip(2) [OF w(1)]
    by (auto simp: list_all_iff unat_of_nat take_bit_nat_eq_self intro!: map_idI)
  then show ?thesis
    using sig_structure_roundtrip(1) [OF w(1)] by (simp add: sized_lib_def example_lib_def example_decode_def)
qed

end
