(* ===== verification/Sworn_Vectors.thy ===== *)
theory Sworn_Vectors
  imports Sworn_Codec
begin

text \<open>
  The published vector \<open>valid_in_prefix\<close> of \<open>tests/testdata/v1.json\<close>, evaluated in the logic with the
  codec of \<open>Sworn_Codec\<close> and a curve library that knows one key and one signature, and the witnesses
  of the theorems on tokens.
\<close>

section \<open>The token \<open>valid_in_prefix\<close>\<close>

definition doc_protected_bytes :: "nat list" where
  "doc_protected_bytes =
     [163, 1, 39, 3, 120, 28, 97, 112, 112, 108, 105, 99, 97, 116, 105, 111, 110, 47, 115, 119,
      111, 114, 110, 45, 116, 111, 107, 101, 110, 43, 99, 98, 111, 114, 4, 69, 50, 48, 50, 54, 97]"

definition doc_payload_bytes :: "nat list" where
  "doc_payload_bytes =
     [166, 1, 114, 109, 97, 105, 108, 101, 114, 46, 101, 120, 97, 109, 112, 108, 101, 46, 99,
      111, 109, 2, 81, 32, 1, 13, 184, 15, 0, 0, 0, 0, 0, 0, 0, 0, 0, 0, 0, 48, 3, 24, 64, 4, 26,
      106, 120, 164, 0, 5, 26, 106, 120, 178, 16, 6, 99, 109, 116, 97]"

definition doc_signature_bytes :: "nat list" where
  "doc_signature_bytes =
     [241, 169, 114, 173, 125, 231, 111, 222, 63, 249, 21, 84, 45, 202, 27, 158, 172, 236, 250,
      16, 61, 76, 49, 142, 138, 11, 62, 192, 47, 215, 111, 200, 7, 111, 140, 203, 26, 37, 217,
      190, 205, 233, 108, 51, 199, 71, 71, 236, 224, 223, 172, 179, 71, 154, 37, 169, 238, 122,
      117, 229, 148, 104, 48, 4]"

definition doc_token :: "u8 list" where
  "doc_token = map of_nat
     ([210, 132, 88, 41] @ doc_protected_bytes @ [160, 88, 60] @ doc_payload_bytes @ [88, 64] @
      doc_signature_bytes)"

definition doc_protected :: "u8 list" where "doc_protected = map of_nat doc_protected_bytes"
definition doc_claim :: "u8 list" where "doc_claim = map of_nat doc_payload_bytes"
definition doc_signature :: "u8 list" where "doc_signature = map of_nat doc_signature_bytes"

definition doc_source :: ipv6_addr where
  "doc_source = 0x20010db80f00123400000000000a0001"

definition doc_now :: i64 where "doc_now = 1786293000"

definition doc_tbs :: "u8 list" where
  "doc_tbs = map of_nat
     (132 # 106 # map code ''Signature1'' @ [88, 41] @ doc_protected_bytes @ [64, 88, 60] @ doc_payload_bytes)"

definition doc_cose :: cose_sign1 where
  "doc_cose = \<lparr>cs_protected_raw = doc_protected,
     cs_protected = [(LabelInt 1, Integer (-8)),
       (LabelInt 3, Text ''application/sworn-token+cbor''), (LabelInt 4, Bytes [50, 48, 50, 54, 97])],
     cs_unprotected = [], cs_payload = doc_claim,
     cs_signature = doc_signature\<rparr>"

definition doc_unverified :: unverified where
  "doc_unverified = \<lparr>uv_payload = doc_payload, uv_selector = ''2026a'',
     uv_unit = source_unit doc_source 64, uv_observed_unit = source_unit doc_source 64,
     uv_to_be_signed = doc_tbs, uv_signature = doc_signature\<rparr>"

definition doc_key_bytes :: "u8 list" where
  "doc_key_bytes =
     [121, 181, 86, 46, 143, 230, 84, 249, 64, 120, 177, 18, 232, 169, 139, 167,
      144, 31, 133, 58, 230, 149, 190, 215, 224, 227, 145, 11, 173, 4, 150, 100]"

text \<open>A curve library that knows the published key and accepts the published signature.\<close>

definition example_dalek :: "u8 list dalek" where
  "example_dalek = \<lparr>vk_from_bytes = Some, vk_to_bytes = id,
     vk_verify_strict = (\<lambda>k m s. k = doc_key_bytes \<and> m = doc_tbs \<and> s = doc_signature)\<rparr>"

definition doc_key :: "u8 list ed25519_public_key" where
  "doc_key = Ed25519PublicKey doc_key_bytes"

lemma doc_token_decode:
  "read_item 100 (map unat doc_token) = Some (Tag 18 (Array
     [Bytes doc_protected, Map [], Bytes doc_claim,
      Bytes doc_signature]), [])"
  by code_simp

lemma doc_protected_decode:
  "read_item 100 (map unat doc_protected) = Some (Map
     [(Integer 1, Integer (-8)), (Integer 3, Text ''application/sworn-token+cbor''),
      (Integer 4, Bytes [50, 48, 50, 54, 97])], [])"
  by code_simp

lemma doc_payload_decode:
  "read_item 100 (map unat doc_claim) = Some (Map doc_entries, [])"
  by code_simp

lemma doc_tbs_encode:
  "map of_nat (write_item (sig_structure doc_protected doc_claim))
     = doc_tbs"
  by code_simp

lemma doc_tbs_length: "length (write_item (sig_structure doc_protected doc_claim)) < 2 ^ 64"
proof -
  have "length (map of_nat (write_item (sig_structure doc_protected doc_claim)) :: u8 list) = 118"
    unfolding doc_tbs_encode by (simp add: doc_tbs_def doc_protected_bytes_def doc_payload_bytes_def)
  then show ?thesis by simp
qed

section \<open>Verification of the token, and the hypotheses of the theorems\<close>

lemma doc_headers: "headers_ok doc_cose ''2026a''"
proof -
  have "dns_label (string_of_bytes [50, 48, 50, 54, 97])"
    "to_ascii_lowercase (string_of_bytes [50, 48, 50, 54, 97]) = ''2026a''" by code_simp+
  then show ?thesis by (simp add: headers_ok_def buckets_ok_def doc_cose_def)
qed

lemma doc_shape:
  assumes "de_value lib = example_decode"
  shows "token_shape lib doc_token doc_cose"
proof -
  have "doc_protected \<noteq> []" by (simp add: doc_protected_def doc_protected_bytes_def)
  moreover have "bucket [] []" by (simp add: bucket_def)
  moreover have "bucket [(Integer 1, Integer (-8)), (Integer 3, Text ''application/sworn-token+cbor''),
      (Integer 4, Bytes [50, 48, 50, 54, 97])] (cs_protected doc_cose)"
    by (simp add: bucket_def doc_cose_def)
  ultimately show ?thesis
    by (auto simp: token_shape_def assms example_decode_def doc_token_decode doc_cose_def doc_protected_decode)
qed

lemma doc_signed_payload:
  assumes "de_value lib = example_decode" and "de_map lib = example_decode_map"
  shows "signed_payload lib (cs_payload doc_cose) doc_payload"
proof -
  have "example_decode_map doc_claim =
      Some [(1, None, Text ''mailer.example.com''),
        (2, None, Bytes [0x20, 1, 0x0d, 0xb8, 0x0f, 0, 0, 0, 0, 0, 0, 0, 0, 0, 0, 0, 48]),
        (3, None, Integer 64), (4, None, Integer 0x6a78a400), (5, None, Integer 0x6a78b210),
        (6, None, Text ''mta'')]"
    by (simp add: example_decode_map_def doc_payload_decode doc_entries_def)
  then show ?thesis
    using doc_payload_accepted
    by (auto simp: signed_payload_def assms doc_cose_def example_decode_def doc_payload_decode tag_free_def)
qed

lemma doc_in_window: "in_window doc_payload doc_now"
  by (simp add: in_window_def doc_payload_def doc_now_def)

lemma doc_source_claims:
  assumes "in_window doc_payload now"
  shows "source_claims doc_source now doc_unverified"
proof -
  have "contains doc_prefix doc_source" using doc_prefix_contains by (simp add: doc_source_def)
  moreover from this have "is_eligible_source doc_source"
    using doc_prefix_attestable attested_eligible by blast
  ultimately show ?thesis
    using assms by (simp add: source_claims_def doc_unverified_def doc_payload_def prefix_set_def)
qed

lemma doc_token_length: "length doc_token = 174"
  by (simp add: doc_token_def doc_protected_bytes_def doc_payload_bytes_def doc_signature_bytes_def)

lemma doc_token_claims:
  assumes "lib = example_lib \<or> lib = sized_lib"
  shows "token_claims lib doc_token doc_unverified"
proof -
  have l: "de_value lib = example_decode" "de_map lib = example_decode_map"
    using assms by (auto simp: sized_lib_def example_lib_def)
  have "ser_value lib (sig_structure doc_protected doc_claim) = Some doc_tbs"
    using assms doc_tbs_encode doc_tbs_length by (auto simp: sized_lib_def example_lib_def)
  then have "ser_value lib (sig_structure (cs_protected_raw doc_cose) (cs_payload doc_cose)) = Some doc_tbs"
    by (simp add: doc_cose_def)
  then show ?thesis
    using doc_shape [OF l(1)] doc_headers doc_signed_payload [OF l] doc_token_length
    unfolding token_claims_def
    by (intro conjI exI [of _ doc_cose]) (simp_all add: doc_unverified_def, simp add: doc_cose_def)
qed

lemma doc_parse_at:
  assumes "lib = example_lib \<or> lib = sized_lib" and "in_window doc_payload now"
  shows "parse_excluding lib doc_token doc_source now [] = Ok doc_unverified"
  using doc_token_claims [OF assms(1)] doc_source_claims [OF assms(2)] by (simp add: parse_Ok_iff)

lemmas doc_parse_lib = doc_parse_at [OF _ doc_in_window]

lemma doc_key_verify:
  "key_verify example_dalek doc_key (uv_to_be_signed doc_unverified) (uv_signature doc_unverified)"
  by (simp add: key_verify_iff doc_unverified_def doc_key_def example_dalek_def)
    (simp add: doc_signature_def doc_signature_bytes_def)

lemma doc_authorized: "authorized_by doc_policy doc_unverified"
  using doc_prefix_attestable contains_self
  by (simp add: authorized_by_def authorizes_def doc_policy_def doc_unverified_def doc_payload_def)

definition doc_verified :: verified where
  "doc_verified = verified_of doc_unverified False None"

lemma doc_verify:
  "verify example_lib example_dalek doc_token doc_key doc_policy doc_source doc_now = Ok (Pass doc_verified)"
  unfolding verify_Ok_iff
  using doc_parse_lib [of example_lib] doc_authorized doc_key_verify
  by (auto simp: parse_def doc_policy_def doc_verified_def)

lemma units_nested_in_prefix_witness:
  "prefix_set (uv_unit doc_unverified) \<subseteq> prefix_set (pl_prefix (uv_payload doc_unverified))"
  using units_nested_in_prefix [OF doc_parse_lib [of example_lib]] by simp

lemma replay_bounded_witness: "sint (0x6a78b210 + 300 :: i64) - sint (0x6a78a400 - 300 :: i64) \<le> 87000"
proof -
  have "in_window doc_payload (0x6a78a400 - 300)" "in_window doc_payload (0x6a78b210 + 300)"
    by (simp_all add: in_window_def doc_payload_def)
  then show ?thesis
    using replay_bounded [OF doc_parse_at [of example_lib] doc_parse_at [of example_lib]] by blast
qed

lemma pass_sound_witness: "is_attestable (vf_prefix doc_verified) \<and> doc_source \<in> prefix_set (vf_prefix doc_verified)"
  using pass_sound [OF doc_verify] by blast

lemma testing_never_passes_witness: "outcome_auth_result (Pass doc_verified) = ''pass''"
  using testing_never_passes [OF doc_verify] by (simp add: doc_policy_def)

lemma verification_no_panic_witness:
  "verify example_lib example_dalek doc_token doc_key doc_policy doc_source doc_now \<noteq> Panic"
proof -
  have "ser_value example_lib v \<noteq> None" for v by (simp add: example_lib_def)
  from verification_no_panic [OF this] show ?thesis by blast
qed

section \<open>Another wrapping of the same signed octets\<close>

text \<open>The token with an entry in its unprotected header and a signature of zeros.\<close>

definition rewrapped_token :: "u8 list" where
  "rewrapped_token = map of_nat
     ([210, 132, 88, 41] @ doc_protected_bytes @ [161, 5, 0, 88, 60] @ doc_payload_bytes @ [88, 64] @
      replicate 64 0)"

definition rewrapped_cose :: cose_sign1 where
  "rewrapped_cose = doc_cose\<lparr>cs_unprotected := [(LabelInt 5, Integer 0)], cs_signature := replicate 64 0\<rparr>"

lemma rewrapped_decode:
  "read_item 100 (map unat rewrapped_token) = Some (Tag 18 (Array
     [Bytes doc_protected, Map [(Integer 5, Integer 0)], Bytes doc_claim, Bytes (replicate 64 0)]), [])"
  by code_simp

lemma rewrapped_parse:
  "parse_excluding sized_lib rewrapped_token doc_source doc_now [] =
     Ok (doc_unverified\<lparr>uv_signature := replicate 64 0\<rparr>)"
proof -
  have l: "de_value sized_lib = example_decode" by (simp add: sized_lib_def example_lib_def)
  obtain pr where pr: "de_value sized_lib doc_protected = Some (Map pr, length doc_protected)"
    "bucket pr (cs_protected doc_cose)" "doc_protected \<noteq> []"
    using doc_shape [OF l] by (auto simp: token_shape_def doc_cose_def doc_protected_def doc_protected_bytes_def)
  have "bucket [(Integer 5, Integer 0)] [(LabelInt 5, Integer 0)]" by (simp add: bucket_def)
  then have "token_shape sized_lib rewrapped_token rewrapped_cose"
    using pr by (auto simp: token_shape_def rewrapped_cose_def l example_decode_def rewrapped_decode)
      (simp_all add: doc_cose_def)
  moreover have "headers_ok rewrapped_cose ''2026a''"
    using doc_headers by (auto simp: headers_ok_def buckets_ok_def rewrapped_cose_def doc_cose_def)
  moreover have "length rewrapped_token = 176"
    by (simp add: rewrapped_token_def doc_protected_bytes_def doc_payload_bytes_def)
  moreover have c: "cs_protected_raw rewrapped_cose = cs_protected_raw doc_cose"
    "cs_payload rewrapped_cose = cs_payload doc_cose" "cs_signature rewrapped_cose = replicate 64 0"
    by (simp_all add: rewrapped_cose_def)
  moreover have "ser_value sized_lib (sig_structure (cs_protected_raw doc_cose) (cs_payload doc_cose)) = Some doc_tbs"
    using doc_tbs_encode doc_tbs_length by (simp add: sized_lib_def doc_cose_def)
  moreover have "signed_payload sized_lib (cs_payload doc_cose) doc_payload"
    by (rule doc_signed_payload) (simp_all add: sized_lib_def example_lib_def)
  ultimately have "token_claims sized_lib rewrapped_token (doc_unverified\<lparr>uv_signature := replicate 64 0\<rparr>)"
    unfolding token_claims_def
    by (intro conjI exI [of _ rewrapped_cose]) (simp_all add: doc_unverified_def)
  then show ?thesis
    using doc_source_claims [OF doc_in_window] by (simp add: parse_Ok_iff source_claims_def)
qed

lemma signed_octets_bind_witness:
  "\<exists>u. parse_excluding sized_lib rewrapped_token doc_source doc_now [] = Ok u \<and>
     uv_signature u \<noteq> uv_signature doc_unverified \<and> uv_payload u = doc_payload \<and> uv_selector u = ''2026a''"
proof -
  let ?u = "doc_unverified\<lparr>uv_signature := replicate 64 0\<rparr>"
  have "uv_to_be_signed ?u = uv_to_be_signed doc_unverified" by simp
  from signed_octets_bind [OF sized_lib_roundtrip rewrapped_parse doc_parse_lib this]
  have "uv_payload ?u = doc_payload \<and> uv_selector ?u = ''2026a''" by (simp add: doc_unverified_def)
  moreover have "hd (uv_signature ?u) \<noteq> hd (uv_signature doc_unverified)"
    by (simp add: doc_unverified_def doc_signature_def doc_signature_bytes_def)
  then have "uv_signature ?u \<noteq> uv_signature doc_unverified" by metis
  ultimately show ?thesis using rewrapped_parse by blast
qed

end
