(* ===== verification/Sworn_Receiver.thy ===== *)
theory Sworn_Receiver
  imports Sworn_Vectors
begin

text \<open>
  The receiver of the crate documentation (the example program of \<open>src/lib.rs\<close>): local checks,
  policy lookup, authorization, key lookup, signature, report. \<open>recv_step\<close> is one call of the
  program, with the DNS names it looks up; \<open>recv_run\<close> its reachable states. The example calls
  \<open>parse\<close>; the runs here call \<open>parse_excluding\<close>, which is \<open>parse\<close> when the receiver has no
  ranges of its own, as the README asks of receivers behind NAT64.
\<close>

section \<open>Constants of the crate root\<close>

definition SWORN_VERSION :: string where "SWORN_VERSION = ''SWORN1''"
definition DNS_LABEL :: string where "DNS_LABEL = ''_sworn''"
definition DEFAULT_UNIT_PREFIX_LEN :: u8 where "DEFAULT_UNIT_PREFIX_LEN = 64"
definition RECOMMENDED_TOKEN_BYTES_CLASSICAL :: nat where "RECOMMENDED_TOKEN_BYTES_CLASSICAL = 512"
definition MAX_TOKEN_LIFETIME_SECS :: u64 where "MAX_TOKEN_LIFETIME_SECS = 86400"

text \<open>The root restates constants of its modules; the copies agree.\<close>

lemma crate_constants_agree:
  "SWORN_VERSION = VERSION" "DEFAULT_UNIT_PREFIX_LEN = DEFAULT_UNIT"
  "MAX_TOKEN_LIFETIME_SECS = MAX_LIFETIME_SECS"
  "RECOMMENDED_TOKEN_BYTES_CLASSICAL \<le> MAX_TOKEN_LEN"
  by (simp_all add: SWORN_VERSION_def VERSION_def DEFAULT_UNIT_PREFIX_LEN_def DEFAULT_UNIT_def
      MAX_TOKEN_LIFETIME_SECS_def MAX_LIFETIME_SECS_def RECOMMENDED_TOKEN_BYTES_CLASSICAL_def
      MAX_TOKEN_LEN_def)

section \<open>The run of a receiver\<close>

text \<open>
  The errors \<open>main\<close> of the example may return (\<open>Box<dyn Error>\<close>), and its control points: before
  the local checks, holding a pending token, its policy, an authorized token, its key record,
  and the ends.
\<close>

datatype recv_error = TokenError reason | RecordErr record_error

datatype 'k recv_state =
    Start
  | Pending unverified
  | HavePolicy unverified policy_record
  | Cleared authorized
  | HaveKey authorized "'k key_record"
  | Printed string
  | Aborted recv_error

definition policy_qname :: "unverified \<Rightarrow> string" where
  "policy_qname pending = ''_prefixes._sworn.'' @ unverified_operator pending"

definition key_qname :: "authorized \<Rightarrow> string" where
  "key_qname a = authorized_selector a @ ''._sworn.'' @ authorized_operator a"

fun report :: "(outcome, reason) result \<Rightarrow> string" where
  "report (Ok (Pass v)) = ''sworn=pass unit='' @ prefix_display (vf_observed_unit v)"
| "report (Ok (ObserveOnly _)) = ''sworn=none policy.testing=y policy.wouldbe=pass''"
| "report (Err reason) = ''sworn-reason='' @ reason_str (Err reason :: (unit, reason) result)"
| "report Panic = []"

text \<open>
  One step: the names it looks up, and the state it leads to. The DNS \<open>lookup\<close>, the libraries,
  the token, the source, the time and the receiver's own ranges are parameters.
\<close>

inductive recv_step ::
  "(string \<Rightarrow> string) \<Rightarrow> (string \<Rightarrow> u8 list option) \<Rightarrow> cbor_lib \<Rightarrow> 'k dalek \<Rightarrow> u8 list \<Rightarrow> ipv6_addr \<Rightarrow>
   i64 \<Rightarrow> ipv6_prefix list \<Rightarrow> 'k recv_state \<Rightarrow> string list \<Rightarrow> 'k recv_state \<Rightarrow> bool"
  for lookup :: "string \<Rightarrow> string" and b64 lib and d :: "'k dalek" and token source now inel
where
  local_ok: "parse_excluding lib token source now inel = Ok u \<Longrightarrow>
    recv_step lookup b64 lib d token source now inel Start [] (Pending u)"
| local_err: "parse_excluding lib token source now inel = Err e \<Longrightarrow>
    recv_step lookup b64 lib d token source now inel Start [] (Aborted (TokenError e))"
| policy_ok: "policy_record_parse (lookup (policy_qname u)) = Ok policy \<Longrightarrow>
    recv_step lookup b64 lib d token source now inel (Pending u) [policy_qname u] (HavePolicy u policy)"
| policy_err: "policy_record_parse (lookup (policy_qname u)) = Err e \<Longrightarrow>
    recv_step lookup b64 lib d token source now inel (Pending u) [policy_qname u] (Aborted (RecordErr e))"
| clear_ok: "authorize u policy = Ok a \<Longrightarrow>
    recv_step lookup b64 lib d token source now inel (HavePolicy u policy) [] (Cleared a)"
| clear_err: "authorize u policy = Err e \<Longrightarrow>
    recv_step lookup b64 lib d token source now inel (HavePolicy u policy) [] (Aborted (TokenError e))"
| key_ok: "key_record_parse b64 d (lookup (key_qname a)) = Ok record \<Longrightarrow>
    recv_step lookup b64 lib d token source now inel (Cleared a) [key_qname a] (HaveKey a record)"
| key_err: "key_record_parse b64 d (lookup (key_qname a)) = Err e \<Longrightarrow>
    recv_step lookup b64 lib d token source now inel (Cleared a) [key_qname a] (Aborted (RecordErr e))"
| print: "verify_signature d a (kr_public_key record) = outcome \<Longrightarrow>
    recv_step lookup b64 lib d token source now inel (HaveKey a record) [] (Printed (report outcome))"

inductive recv_run ::
  "(string \<Rightarrow> string) \<Rightarrow> (string \<Rightarrow> u8 list option) \<Rightarrow> cbor_lib \<Rightarrow> 'k dalek \<Rightarrow> u8 list \<Rightarrow> ipv6_addr \<Rightarrow>
   i64 \<Rightarrow> ipv6_prefix list \<Rightarrow> string list \<Rightarrow> 'k recv_state \<Rightarrow> bool"
  for lookup :: "string \<Rightarrow> string" and b64 lib and d :: "'k dalek" and token source now inel
where
  begin_run: "recv_run lookup b64 lib d token source now inel [] Start"
| continue_run: "recv_run lookup b64 lib d token source now inel qs s \<Longrightarrow>
    recv_step lookup b64 lib d token source now inel s q s' \<Longrightarrow>
    recv_run lookup b64 lib d token source now inel (qs @ q) s'"

inductive_cases recv_stepE: "recv_step lookup b64 lib d token source now inel s q s'"

inductive_simps recv_step_simps [simp]:
  "recv_step lookup b64 lib d token source now inel Start q s'"
  "recv_step lookup b64 lib d token source now inel (Pending u) q s'"
  "recv_step lookup b64 lib d token source now inel (HavePolicy u policy) q s'"
  "recv_step lookup b64 lib d token source now inel (Cleared a) q s'"
  "recv_step lookup b64 lib d token source now inel (HaveKey a record) q s'"
  "recv_step lookup b64 lib d token source now inel (Printed t) q s'"
  "recv_step lookup b64 lib d token source now inel (Aborted e) q s'"

text \<open>What every reachable state knows, and the names looked up on the way to it.\<close>

fun recv_inv ::
  "(string \<Rightarrow> string) \<Rightarrow> (string \<Rightarrow> u8 list option) \<Rightarrow> cbor_lib \<Rightarrow> 'k dalek \<Rightarrow> u8 list \<Rightarrow> ipv6_addr \<Rightarrow>
   i64 \<Rightarrow> ipv6_prefix list \<Rightarrow> string list \<Rightarrow> 'k recv_state \<Rightarrow> bool" where
  "recv_inv lookup b64 lib d token source now inel qs Start \<longleftrightarrow> qs = []"
| "recv_inv lookup b64 lib d token source now inel qs (Pending u) \<longleftrightarrow>
     qs = [] \<and> parse_excluding lib token source now inel = Ok u"
| "recv_inv lookup b64 lib d token source now inel qs (HavePolicy u policy) \<longleftrightarrow>
     qs = [policy_qname u] \<and> parse_excluding lib token source now inel = Ok u \<and>
     policy_record_parse (lookup (policy_qname u)) = Ok policy"
| "recv_inv lookup b64 lib d token source now inel qs (Cleared a) \<longleftrightarrow>
     (\<exists>u policy. qs = [policy_qname u] \<and> parse_excluding lib token source now inel = Ok u \<and>
        policy_record_parse (lookup (policy_qname u)) = Ok policy \<and> authorize u policy = Ok a)"
| "recv_inv lookup b64 lib d token source now inel qs (HaveKey a record) \<longleftrightarrow>
     (\<exists>u policy. qs = [policy_qname u, key_qname a] \<and>
        parse_excluding lib token source now inel = Ok u \<and>
        policy_record_parse (lookup (policy_qname u)) = Ok policy \<and> authorize u policy = Ok a \<and>
        key_record_parse b64 d (lookup (key_qname a)) = Ok record)"
| "recv_inv lookup b64 lib d token source now inel qs (Printed t) \<longleftrightarrow>
     (\<exists>u policy a record. qs = [policy_qname u, key_qname a] \<and>
        parse_excluding lib token source now inel = Ok u \<and>
        policy_record_parse (lookup (policy_qname u)) = Ok policy \<and> authorize u policy = Ok a \<and>
        key_record_parse b64 d (lookup (key_qname a)) = Ok record \<and>
        t = report (verify_signature d a (kr_public_key record)))"
| "recv_inv lookup b64 lib d token source now inel qs (Aborted e) \<longleftrightarrow>
     qs = [] \<and> (\<exists>r. parse_excluding lib token source now inel = Err r \<and> e = TokenError r) \<or>
     (\<exists>u. parse_excluding lib token source now inel = Ok u \<and>
        (qs = [policy_qname u] \<and>
           (\<exists>r. policy_record_parse (lookup (policy_qname u)) = Err r \<and> e = RecordErr r) \<or>
         (\<exists>policy. policy_record_parse (lookup (policy_qname u)) = Ok policy \<and>
            (qs = [policy_qname u] \<and> (\<exists>r. authorize u policy = Err r \<and> e = TokenError r) \<or>
             (\<exists>a r. authorize u policy = Ok a \<and> qs = [policy_qname u, key_qname a] \<and>
                key_record_parse b64 d (lookup (key_qname a)) = Err r \<and> e = RecordErr r)))))"

lemma recv_run_inv:
  "recv_run lookup b64 lib d token source now inel qs s \<Longrightarrow>
   recv_inv lookup b64 lib d token source now inel qs s"
proof (induction rule: recv_run.induct)
  case (continue_run qs s q s')
  then show ?case by (cases s) auto
qed simp

lemma recv_inv_run:
  assumes "recv_inv lookup b64 lib d token source now inel qs s"
  shows "recv_run lookup b64 lib d token source now inel qs s"
proof -
  let ?run = "recv_run lookup b64 lib d token source now inel"
  let ?parse = "parse_excluding lib token source now inel"
  let ?policy = "\<lambda>u. policy_record_parse (lookup (policy_qname u))"
  have b: "?run [] Start" by (rule begin_run)
  have p: "?run [] (Pending u)" if "?parse = Ok u" for u
    using continue_run [OF b local_ok [OF that]] by simp
  have h: "?run [policy_qname u] (HavePolicy u policy)" if "?parse = Ok u" "?policy u = Ok policy" for u policy
    using continue_run [OF p policy_ok] that by fastforce
  have c: "?run [policy_qname u] (Cleared a)"
    if "?parse = Ok u" "?policy u = Ok policy" "authorize u policy = Ok a" for u policy a
    using continue_run [OF h [OF that(1,2)] clear_ok [OF that(3)]] by simp
  have k: "?run [policy_qname u, key_qname a] (HaveKey a rec)"
    if "?parse = Ok u" "?policy u = Ok policy" "authorize u policy = Ok a"
      "key_record_parse b64 d (lookup (key_qname a)) = Ok rec" for u policy a rec
    using continue_run [OF c [OF that(1-3)] key_ok [of b64 d lookup a rec, OF that(4)]] by simp
  show ?thesis
  proof (cases s)
    case (Printed t)
    then obtain u policy a rec where u: "?parse = Ok u" "?policy u = Ok policy" "authorize u policy = Ok a"
        "key_record_parse b64 d (lookup (key_qname a)) = Ok rec"
      and q: "qs = [policy_qname u, key_qname a]" "t = report (verify_signature d a (kr_public_key rec))"
      using assms by auto
    show ?thesis using continue_run [OF k [OF u] print [OF refl]] by (simp add: Printed q)
  next
    case (Aborted e)
    from assms [unfolded Aborted recv_inv.simps] show ?thesis
    proof (elim disjE exE conjE)
      fix r assume "qs = []" "?parse = Err r" "e = TokenError r"
      then show ?thesis using continue_run [OF b local_err] Aborted by fastforce
    next
      fix u r assume "?parse = Ok u" "qs = [policy_qname u]" "?policy u = Err r" "e = RecordErr r"
      then show ?thesis using continue_run [OF p policy_err] Aborted by fastforce
    next
      fix u policy r assume u: "?parse = Ok u" "?policy u = Ok policy" "qs = [policy_qname u]"
        "authorize u policy = Err r" "e = TokenError r"
      show ?thesis using continue_run [OF h [OF u(1,2)] clear_err [OF u(4)]] by (simp add: Aborted u(3,5))
    next
      fix u policy a r assume u: "?parse = Ok u" "?policy u = Ok policy" "authorize u policy = Ok a"
        "qs = [policy_qname u, key_qname a]" "key_record_parse b64 d (lookup (key_qname a)) = Err r"
        "e = RecordErr r"
      show ?thesis using continue_run [OF c [OF u(1-3)] key_err [of b64 d lookup a r, OF u(5)]] by (simp add: Aborted u(4,6))
    qed
  qed (use assms b p h c k in auto)
qed

lemma recv_run_iff:
  "recv_run lookup b64 lib d token source now inel qs s \<longleftrightarrow>
   recv_inv lookup b64 lib d token source now inel qs s"
  using recv_run_inv recv_inv_run by blast

text \<open>How far a state is from the end.\<close>

fun steps_left :: "'k recv_state \<Rightarrow> nat" where
  "steps_left Start = 5"
| "steps_left (Pending _) = 4"
| "steps_left (HavePolicy _ _) = 3"
| "steps_left (Cleared _) = 2"
| "steps_left (HaveKey _ _) = 1"
| "steps_left _ = 0"

lemma step_decreases:
  "recv_step lookup b64 lib d token source now inel s q s' \<Longrightarrow> steps_left s' < steps_left s"
  by (erule recv_stepE) simp_all

lemma no_endless_steps:
  assumes "\<forall>i. recv_step lookup b64 lib d token source now inel (f i) (g i) (f (Suc i))"
  shows False
proof -
  have "steps_left (f i) + i \<le> steps_left (f 0)" for i
  proof (induction i)
    case (Suc i)
    then show ?case using step_decreases assms by (metis add_Suc_right add_Suc Suc_leI le_trans add_le_mono1)
  qed simp
  from this [of "Suc (steps_left (f 0))"] show False by simp
qed

definition final :: "'k recv_state \<Rightarrow> bool" where
  "final s \<longleftrightarrow> (\<exists>t. s = Printed t) \<or> (\<exists>e. s = Aborted e)"

section \<open>What the runs guarantee\<close>

definition plain_name :: "string \<Rightarrow> bool" where
  "plain_name s \<longleftrightarrow> dns_name s \<and> to_ascii_lowercase s = s"

definition plain_label :: "string \<Rightarrow> bool" where
  "plain_label s \<longleftrightarrow> dns_label s \<and> to_ascii_lowercase s = s"

lemma parsed_names:
  assumes "parse_excluding lib token source now inel = Ok u"
  shows "plain_name (unverified_operator u)" and "plain_label (unverified_selector u)"
proof -
  have t: "token_claims lib token u" using assms by (simp add: parse_Ok_iff)
  show "plain_name (unverified_operator u)"
    using token_claims_payload_ok [OF t]
    by (simp add: plain_name_def unverified_operator_def payload_ok_def operator_domain_dns)
  show "plain_label (unverified_selector u)"
    using t by (auto simp: plain_label_def unverified_selector_def token_claims_def headers_ok_def
        simp flip: label_ok_dns)
qed

text \<open>C7: A receiver looks up at most two names. Nothing is looked up for a token that fails the local
  checks; the first name is built from the operator in the token's signed payload, the second from
  the selector in its protected header and that operator, and the second is looked up only after
  the policy found under the first has authorized the prefix and the unit of the payload. Operator
  and selector are a domain name and a label in lower case, of letters, digits and hyphens.\<close>

theorem lookups_are_safe:
  assumes "recv_run lookup b64 lib d token source now inel qs s"
  shows "qs = [] \<or>
    (\<exists>u c sel p.
       parse_excluding lib token source now inel = Ok u \<and>
       token_shape lib token c \<and> headers_ok c sel \<and> signed_payload lib (cs_payload c) p \<and>
       plain_name (pl_operator p) \<and> plain_label sel \<and>
       (qs = [''_prefixes._sworn.'' @ pl_operator p] \<or>
        (\<exists>policy. policy_record_parse (lookup (''_prefixes._sworn.'' @ pl_operator p)) = Ok policy \<and>
           (\<exists>q\<in>set (pol_prefixes policy). is_attestable q \<and> prefix_set (pl_prefix p) \<subseteq> prefix_set q) \<and>
           pol_unit policy = pl_unit p \<and>
           qs = [''_prefixes._sworn.'' @ pl_operator p, sel @ ''._sworn.'' @ pl_operator p])))"
proof -
  consider "qs = []"
    | u where "parse_excluding lib token source now inel = Ok u" "qs = [policy_qname u]"
    | u policy a where "parse_excluding lib token source now inel = Ok u"
        "policy_record_parse (lookup (policy_qname u)) = Ok policy" "authorize u policy = Ok a"
        "qs = [policy_qname u, key_qname a]"
    using recv_run_inv [OF assms] by (cases s) auto
  then show ?thesis
  proof cases
    case (2 u)
    then obtain c where "token_shape lib token c" "headers_ok c (uv_selector u)"
      "signed_payload lib (cs_payload c) (uv_payload u)" by (auto simp: parse_Ok_iff token_claims_def)
    then show ?thesis
      using 2 parsed_names [OF 2(1)]
      by (auto simp: policy_qname_def unverified_operator_def unverified_selector_def)
  next
    case (3 u policy a)
    then obtain c where "token_shape lib token c" "headers_ok c (uv_selector u)"
      "signed_payload lib (cs_payload c) (uv_payload u)" by (auto simp: parse_Ok_iff token_claims_def)
    moreover have "\<exists>q\<in>set (pol_prefixes policy).
        is_attestable q \<and> prefix_set (pl_prefix (uv_payload u)) \<subseteq> prefix_set q"
      and "pol_unit policy = pl_unit (uv_payload u)" and "au_token a = u"
      using 3(3) by (auto simp: ok_iff authorized_by_def authorizes_subset)
    ultimately show ?thesis
      using 3 parsed_names [OF 3(1)]
      by (intro disjI2 exI [of _ u] exI [of _ c] exI [of _ "uv_selector u"] exI [of _ "uv_payload u"])
        (simp add: policy_qname_def key_qname_def authorized_selector_def authorized_operator_def
          unverified_operator_def unverified_selector_def)
  qed simp
qed

lemma printed_run:
  assumes "recv_run lookup b64 lib d token source now inel qs (Printed t)"
  obtains u policy rec where
    "qs = [policy_qname u, unverified_selector u @ ''._sworn.'' @ unverified_operator u]"
    "parse_excluding lib token source now inel = Ok u"
    "policy_record_parse (lookup (policy_qname u)) = Ok policy" "authorized_by policy u"
    "key_record_parse b64 d (lookup (unverified_selector u @ ''._sworn.'' @ unverified_operator u)) = Ok rec"
    "t = report (verify lib d token (kr_public_key rec) policy source now)"
proof -
  from recv_run_inv [OF assms] obtain u policy a rec where
    r: "qs = [policy_qname u, key_qname a]" "parse_excluding lib token source now inel = Ok u"
      "policy_record_parse (lookup (policy_qname u)) = Ok policy" "authorize u policy = Ok a"
      "key_record_parse b64 d (lookup (key_qname a)) = Ok rec"
      "t = report (verify_signature d a (kr_public_key rec))" by auto
  have "parse lib token source now = Ok u" using r(2) by (simp add: parse_def parse_Ok_iff)
  then have v: "verify lib d token (kr_public_key rec) policy source now =
      verify_signature d a (kr_public_key rec)" by (simp add: verify_def r(4))
  have q: "key_qname a = unverified_selector u @ ''._sworn.'' @ unverified_operator u"
    and p: "authorized_by policy u"
    using r(4) by (auto simp: ok_iff key_qname_def authorized_selector_def authorized_operator_def)
  show thesis using r [unfolded q] p by (intro that [of u policy rec, unfolded v])
qed

text \<open>C4: The staged flow is the one-shot verification behind two lookups: a run prints a line exactly
  when the local checks pass, the policy published under the token's operator authorizes it, and
  a key is published under its selector; the line is then the report of \<open>verify\<close> on that policy and
  that key, and these two names are all that was looked up.\<close>

theorem staged_flow_is_verify:
  "recv_run lookup b64 lib d token source now inel qs (Printed t) \<longleftrightarrow>
     (\<exists>u policy rec.
        parse_excluding lib token source now inel = Ok u \<and>
        qs = [policy_qname u, unverified_selector u @ ''._sworn.'' @ unverified_operator u] \<and>
        policy_record_parse (lookup (policy_qname u)) = Ok policy \<and> authorized_by policy u \<and>
        key_record_parse b64 d (lookup (unverified_selector u @ ''._sworn.'' @ unverified_operator u)) = Ok rec \<and>
        t = report (verify lib d token (kr_public_key rec) policy source now))"
  (is "?run \<longleftrightarrow> ?rhs")
proof
  assume ?run
  then show ?rhs by (rule printed_run) blast
next
  assume ?rhs
  then obtain u policy rec where
    u: "parse_excluding lib token source now inel = Ok u"
      "qs = [policy_qname u, unverified_selector u @ ''._sworn.'' @ unverified_operator u]"
      "policy_record_parse (lookup (policy_qname u)) = Ok policy" "authorized_by policy u"
      "key_record_parse b64 d (lookup (unverified_selector u @ ''._sworn.'' @ unverified_operator u)) = Ok rec"
    and t: "t = report (verify lib d token (kr_public_key rec) policy source now)" by blast
  define a where "a = \<lparr>au_token = u, au_testing = pol_testing policy, au_rua = pol_rua policy\<rparr>"
  have a: "authorize u policy = Ok a" using u(4) by (simp add: ok_iff a_def)
  have q: "key_qname a = unverified_selector u @ ''._sworn.'' @ unverified_operator u"
    by (simp add: key_qname_def authorized_selector_def authorized_operator_def a_def)
  have "parse lib token source now = Ok u" using u(1) by (simp add: parse_def parse_Ok_iff)
  then have "t = report (verify_signature d a (kr_public_key rec))" by (simp add: t verify_def a)
  then show ?run unfolding recv_run_iff using u a q by auto
qed


lemma report_pass_iff:
  "take 10 (report out) = ''sworn=pass'' \<longleftrightarrow> (\<exists>v. out = Ok (Pass v))"
  by (cases out rule: report.cases) simp_all

lemma printed_unit_text:
  "prefix_from_str (prefix_display \<lparr>pfx_addr = a, pfx_len = 64\<rparr>) = Ok \<lparr>pfx_addr = a, pfx_len = 64\<rparr>"
  by (rule prefix_text) simp

text \<open>C6: What the receiver's pass stands on, from the wire to the printed line: the operator and the
  selector of the token's signed octets name the two records that were fetched; the policy
  published under the operator's name is committed and lists a prefix around the source; the key
  published under the selector verifies the 64-octet signature over exactly those octets; the
  source is eligible and outside the receiver's own ranges, the time is in the window, and the
  unit printed is text that reads back as the source's own /64.\<close>

theorem printed_pass_sound:
  assumes "recv_run lookup b64 lib d token source now inel qs (Printed t)"
    and "take 10 t = ''sworn=pass''"
  shows "\<exists>name sel policy rec c p tbs s.
    plain_name name \<and> plain_label sel \<and>
    qs = [''_prefixes._sworn.'' @ name, sel @ ''._sworn.'' @ name] \<and>
    policy_record_parse (lookup (''_prefixes._sworn.'' @ name)) = Ok policy \<and>
    \<not> pol_testing policy \<and>
    (\<exists>q\<in>set (pol_prefixes policy). is_attestable q \<and> source \<in> prefix_set q) \<and>
    key_record_parse b64 d (lookup (sel @ ''._sworn.'' @ name)) = Ok rec \<and>
    token_shape lib token c \<and> headers_ok c sel \<and> signed_payload lib (cs_payload c) p \<and>
    pl_operator p = name \<and> in_window p now \<and>
    is_eligible_source source \<and> list_all (\<lambda>r. source \<notin> prefix_set r) inel \<and>
    ser_value lib (sig_structure (cs_protected_raw c) (cs_payload c)) = Some tbs \<and>
    length (cs_signature c) = 64 \<and>
    vk_verify_strict d (inner (kr_public_key rec)) tbs (cs_signature c) \<and>
    t = ''sworn=pass unit='' @ s \<and> prefix_from_str s = Ok \<lparr>pfx_addr = mask_addr source 64, pfx_len = 64\<rparr>"
proof -
  from assms(1) obtain u policy rec where
    r: "qs = [policy_qname u, unverified_selector u @ ''._sworn.'' @ unverified_operator u]"
      "parse_excluding lib token source now inel = Ok u"
      "policy_record_parse (lookup (policy_qname u)) = Ok policy" "authorized_by policy u"
      "key_record_parse b64 d (lookup (unverified_selector u @ ''._sworn.'' @ unverified_operator u)) = Ok rec"
      "t = report (verify lib d token (kr_public_key rec) policy source now)" by (rule printed_run)
  have tc: "token_claims lib token u" and s: "source_claims source now u" "list_all (\<lambda>r. source \<notin> prefix_set r) inel"
    using r(2) by (auto simp: parse_Ok_iff prefix_set_def)
  obtain c where c: "token_shape lib token c" "headers_ok c (uv_selector u)"
    "signed_payload lib (cs_payload c) (uv_payload u)"
    "ser_value lib (sig_structure (cs_protected_raw c) (cs_payload c)) = Some (uv_to_be_signed u)"
    "uv_signature u = cs_signature c"
    using tc by (auto simp: token_claims_def)
  obtain v where v: "verify lib d token (kr_public_key rec) policy source now = Ok (Pass v)"
    using assms(2) by (auto simp: r(6) report_pass_iff)
  moreover have "parse lib token source now = Ok u" using r(2) by (simp add: parse_def parse_Ok_iff)
  ultimately have k: "\<not> pol_testing policy" "length (cs_signature c) = 64"
    "vk_verify_strict d (inner (kr_public_key rec)) (uv_to_be_signed u) (cs_signature c)"
    and vu: "vf_observed_unit v = uv_observed_unit u"
    using c(5) by (auto simp: verify_Ok_iff key_verify_iff verified_of_def split: if_splits)
  have p: "\<exists>q\<in>set (pol_prefixes policy). is_attestable q \<and> source \<in> prefix_set q"
    using r(4) s(1) by (auto simp: authorized_by_def authorizes_subset source_claims_def)
  let ?s = "prefix_display \<lparr>pfx_addr = mask_addr source 64, pfx_len = 64\<rparr>"
  have o: "t = ''sworn=pass unit='' @ ?s" using s(1) by (simp add: r(6) v vu source_claims_def source_unit_def)
  show ?thesis
    by (intro exI [of _ "unverified_operator u"] exI [of _ "unverified_selector u"] exI [of _ policy]
        exI [of _ rec] exI [of _ c] exI [of _ "uv_payload u"] exI [of _ "uv_to_be_signed u"] exI [of _ ?s])
      (use parsed_names [OF r(2)] r(1,3,5) k p c s o printed_unit_text in
        \<open>simp add: policy_qname_def unverified_operator_def unverified_selector_def source_claims_def\<close>)
qed

lemma recv_progress:
  assumes "\<And>v. ser_value lib v \<noteq> None"
    and "\<And>t. s \<noteq> Printed t" and "\<And>e. s \<noteq> Aborted e"
  shows "\<exists>q s'. recv_step lookup b64 lib d token source now inel s q s'"
proof -
  have p: "parse_excluding lib token source now inel \<noteq> Panic" using assms(1) parse_panic by blast
  have k: "key_record_parse b64 d x \<noteq> Panic" for x
    by (auto simp: key_record_parse_def ok_iff parse_tags_no_panic)
  have r: "policy_record_parse x \<noteq> Panic" for x using policy_no_panic by blast
  have a: "authorize u policy \<noteq> Panic" for u policy by (simp add: authorize_def)
  show ?thesis
  proof (cases s)
    case Start
    then show ?thesis using p by (cases "parse_excluding lib token source now inel") auto
  next
    case (Pending u)
    then show ?thesis using r by (cases "policy_record_parse (lookup (policy_qname u))") auto
  next
    case (HavePolicy u policy)
    then show ?thesis using a by (cases "authorize u policy") auto
  next
    case (Cleared a)
    then show ?thesis using k by (cases "key_record_parse b64 d (lookup (key_qname a))") auto
  qed (use assms in auto)
qed

lemma run_completes:
  assumes "\<And>v. ser_value lib v \<noteq> None"
  shows "recv_run lookup b64 lib d token source now inel qs s \<Longrightarrow>
    \<exists>qs' s'. recv_run lookup b64 lib d token source now inel (qs @ qs') s' \<and>
      ((\<exists>t. s' = Printed t) \<or> (\<exists>e. s' = Aborted e))"
proof (induction "steps_left s" arbitrary: qs s rule: less_induct)
  case less
  show ?case
  proof (cases "(\<exists>t. s = Printed t) \<or> (\<exists>e. s = Aborted e)")
    case True
    then show ?thesis using less.prems by (metis append_Nil2)
  next
    case False
    have "\<exists>q s'. recv_step lookup b64 lib d token source now inel s q s'"
      by (rule recv_progress [OF assms]) (use False in auto)
    then obtain q s' where st: "recv_step lookup b64 lib d token source now inel s q s'" by blast
    have "recv_run lookup b64 lib d token source now inel (qs @ q) s'"
      using less.prems st by (rule continue_run)
    then show ?thesis using less.hyps [OF step_decreases [OF st]] by (metis append_assoc)
  qed
qed

text \<open>C26: A receiver always comes to an end: as long as the library's encoder succeeds, as it does when
  writing to a vector, from every state it can reach, whatever the token and the records hold,
  there is a next step unless a verdict is printed or an error returned, no sequence of steps goes
  on for ever, and a printed verdict or an error is reached.\<close>

theorem receiver_completes:
  assumes "\<And>v. ser_value lib v \<noteq> None"
    and "recv_run lookup b64 lib d token source now inel qs s"
  shows "((\<exists>q s'. recv_step lookup b64 lib d token source now inel s q s') \<longleftrightarrow> \<not> final s) \<and>
    (\<nexists>f g. f 0 = s \<and> (\<forall>i. recv_step lookup b64 lib d token source now inel (f i) (g i) (f (Suc i)))) \<and>
    (\<exists>qs' s'. recv_run lookup b64 lib d token source now inel (qs @ qs') s' \<and> final s')"
proof (intro conjI)
  show "(\<exists>q s'. recv_step lookup b64 lib d token source now inel s q s') \<longleftrightarrow> \<not> final s"
    using recv_progress [OF assms(1), of s] by (auto simp: final_def)
  show "\<nexists>f g. f 0 = s \<and> (\<forall>i. recv_step lookup b64 lib d token source now inel (f i) (g i) (f (Suc i)))"
    using no_endless_steps by blast
  show "\<exists>qs' s'. recv_run lookup b64 lib d token source now inel (qs @ qs') s' \<and> final s'"
    using run_completes [OF assms] unfolding final_def .
qed

section \<open>A run on the published vectors\<close>

definition doc_key_text :: string where
  "doc_key_text = ''v=SWORN1; k=ed25519; pk=ebVWLo/mVPlAeLES6KmLp5AfhTrmlb7X4OORC60ElmQ=''"

definition doc_key_tags :: "(string \<times> string) list" where
  "doc_key_tags = [(''v'', ''SWORN1''), (''k'', ''ed25519''),
     (''pk'', ''ebVWLo/mVPlAeLES6KmLp5AfhTrmlb7X4OORC60ElmQ='')]"

definition example_b64 :: "string \<Rightarrow> u8 list option" where
  "example_b64 s =
     (if s = ''ebVWLo/mVPlAeLES6KmLp5AfhTrmlb7X4OORC60ElmQ='' then Some doc_key_bytes else None)"

definition example_lookup :: "string \<Rightarrow> string" where
  "example_lookup q =
     (if q = ''_prefixes._sworn.mailer.example.com'' then doc_policy_text
      else if q = ''2026a._sworn.mailer.example.com'' then doc_key_text else [])"

abbreviation doc_run :: "string list \<Rightarrow> u8 list recv_state \<Rightarrow> bool" where
  "doc_run \<equiv> recv_run example_lookup example_b64 example_lib example_dalek doc_token doc_source doc_now []"

lemma doc_key_parse:
  "key_record_parse example_b64 example_dalek doc_key_text = Ok \<lparr>kr_public_key = doc_key\<rparr>"
proof -
  have "record_ok doc_key_tags" by code_simp
  moreover have "record_text doc_key_tags = doc_key_text" by code_simp
  ultimately have "parse_tags doc_key_text = Ok doc_key_tags" using record_text_parse by metis
  then show ?thesis
    by (simp add: key_record_parse_def get_map_of doc_key_tags_def example_b64_def key_from_bytes_def
        try_into_array_def LEN_def doc_key_def example_dalek_def) (simp add: doc_key_bytes_def)
qed

lemma doc_qnames:
  "policy_qname doc_unverified = ''_prefixes._sworn.mailer.example.com''"
  "au_token a = doc_unverified \<Longrightarrow> key_qname a = ''2026a._sworn.mailer.example.com''"
  by (simp_all add: policy_qname_def key_qname_def authorized_operator_def authorized_selector_def
      unverified_operator_def unverified_selector_def doc_unverified_def doc_payload_def)

lemma doc_lookups:
  "example_lookup ''_prefixes._sworn.mailer.example.com'' = doc_policy_text"
  "example_lookup ''2026a._sworn.mailer.example.com'' = doc_key_text"
  by (simp_all add: example_lookup_def)

lemma doc_run_printed:
  "doc_run [''_prefixes._sworn.mailer.example.com'', ''2026a._sworn.mailer.example.com'']
     (Printed (report (Ok (Pass doc_verified))))"
proof -
  define a where "a = \<lparr>au_token = doc_unverified, au_testing = False, au_rua = None\<rparr>"
  have a: "authorize doc_unverified doc_policy = Ok a"
    using doc_authorized by (simp add: authorize_Ok_iff a_def doc_policy_def)
  have q: "key_qname a = ''2026a._sworn.mailer.example.com''" by (rule doc_qnames) (simp add: a_def)
  have v: "verify_signature example_dalek a doc_key = Ok (Pass doc_verified)"
    using doc_key_verify by (simp add: verify_signature_def a_def finish_signature_def doc_verified_def verified_of_def)
  note step = continue_run [where ?'k = "u8 list"]
  have "doc_run [] Start" by (rule begin_run)
  from step [OF this local_ok [OF doc_parse_lib]] have "doc_run [] (Pending doc_unverified)" by simp
  from step [OF this policy_ok [of example_lookup doc_unverified doc_policy]]
  have "doc_run [policy_qname doc_unverified] (HavePolicy doc_unverified doc_policy)"
    by (simp add: doc_qnames doc_lookups doc_policy_parse)
  from step [OF this clear_ok [OF a]] have "doc_run [policy_qname doc_unverified] (Cleared a)" by simp
  from step [OF this key_ok [of example_b64 example_dalek example_lookup a "\<lparr>kr_public_key = doc_key\<rparr>"]]
  have "doc_run [policy_qname doc_unverified, key_qname a] (HaveKey a \<lparr>kr_public_key = doc_key\<rparr>)"
    by (simp add: q doc_lookups doc_key_parse)
  from step [OF this print [OF refl]] show ?thesis by (simp add: q v doc_qnames)
qed

lemma lookups_are_safe_witness:
  "\<exists>c sel p policy. headers_ok c sel \<and> signed_payload example_lib (cs_payload c) p \<and>
     ''mailer.example.com'' = pl_operator p \<and>
     ''2026a._sworn.mailer.example.com'' = sel @ ''._sworn.'' @ pl_operator p \<and>
     policy_record_parse doc_policy_text = Ok policy \<and> pol_unit policy = pl_unit p"
proof -
  from lookups_are_safe [OF doc_run_printed] obtain c sel p policy where
    "headers_ok c sel" "signed_payload example_lib (cs_payload c) p"
    "''mailer.example.com'' = pl_operator p"
    "''2026a._sworn.mailer.example.com'' = sel @ ''._sworn.'' @ pl_operator p"
    "policy_record_parse (example_lookup (''_prefixes._sworn.'' @ pl_operator p)) = Ok policy"
    "pol_unit policy = pl_unit p" by auto
  moreover from this(3) have "''_prefixes._sworn.'' @ pl_operator p = ''_prefixes._sworn.mailer.example.com''" by auto
  ultimately show ?thesis unfolding doc_lookups by (metis doc_lookups(1))
qed

lemma printed_pass_sound_witness:
  "\<exists>policy. policy_record_parse doc_policy_text = Ok policy \<and> \<not> pol_testing policy \<and>
     (\<exists>q\<in>set (pol_prefixes policy). doc_source \<in> prefix_set q)"
proof -
  have "take 10 (report (Ok (Pass doc_verified))) = ''sworn=pass''" by simp
  from printed_pass_sound [OF doc_run_printed this] show ?thesis by (auto simp: doc_lookups)
qed

lemma receiver_completes_witness: "\<exists>qs s. doc_run qs s \<and> final s"
proof -
  have "ser_value example_lib v \<noteq> None" for v by (simp add: example_lib_def)
  from conjunct2 [OF conjunct2 [OF receiver_completes [OF this begin_run]]]
  show ?thesis by (simp only: append_Nil)
qed

end
