(* ===== verification/Sworn_Difftest.thy ===== *)
theory Sworn_Difftest
  imports Sworn_Vectors
begin

text \<open>
  \<open>src/bin/difftest.rs\<close>: the evaluator that prints one verdict per line of a corpus. The input
  is the sequence of lines read, \<open>None\<close> for a line that cannot be read; the output is the rows
  written before the end, with a flag for a panic. Failures to write are not modelled.
\<close>

section \<open>Hexadecimal\<close>

definition hex_val :: "u8 \<Rightarrow> u8 option" where
  "hex_val c =
     (if 48 \<le> c \<and> c \<le> 57 then Some (c - 48)
      else if 97 \<le> c \<and> c \<le> 102 then Some (c - 97 + 10)
      else if 65 \<le> c \<and> c \<le> 70 then Some (c - 65 + 10)
      else None)"

text \<open>The loop reads two octets at a time; the length is even, so the third equation is void.\<close>

fun hex_loop :: "u8 list \<Rightarrow> u8 list \<Rightarrow> u8 list option" where
  "hex_loop out [] = Some out"
| "hex_loop out (a # b # rest) =
     (case hex_val a of
        None \<Rightarrow> None
      | Some h \<Rightarrow>
          (case hex_val b of
             None \<Rightarrow> None
           | Some l \<Rightarrow> hex_loop (out @ [push_bit 4 h OR l]) rest))"
| "hex_loop out [a] = None"

definition hex_decode :: "string \<Rightarrow> u8 list option" where
  "hex_decode s =
     (let b = bytes_of_string s
      in if length b mod 2 \<noteq> 0 then None else hex_loop [] b)"

section \<open>Lines\<close>

abbreviation tab :: char where "tab \<equiv> CHR 0x09"

text \<open>\<open>str::splitn\<close>: at most \<open>n\<close> pieces, the last one unsplit.\<close>

fun splitn :: "nat \<Rightarrow> char \<Rightarrow> string \<Rightarrow> string list" where
  "splitn 0 d s = []"
| "splitn (Suc n) d s =
     (if n = 0 then [s]
      else case split_once d s of None \<Rightarrow> [s] | Some (a, b) \<Rightarrow> a # splitn n d b)"

definition nth_or :: "'a list \<Rightarrow> nat \<Rightarrow> 'a \<Rightarrow> 'a" where
  "nth_or xs i dflt = (if i < length xs then xs ! i else dflt)"

definition parse_now :: "string \<Rightarrow> i64" where
  "parse_now s = (case parse_i64 s of Some i \<Rightarrow> word_of_int i | None \<Rightarrow> 0)"

section \<open>Verdicts and rows\<close>

definition verdict ::
  "cbor_lib \<Rightarrow> 'k dalek \<Rightarrow> 'k ed25519_public_key \<Rightarrow> u8 list \<Rightarrow> ipv6_addr \<Rightarrow> i64 \<Rightarrow> string \<Rightarrow>
   (string \<times> string \<times> verified option, unit) result" where
  "verdict lib d key token source now policy_txt =
     (if policy_txt = [] then
        (let outcome = verify_signature_only lib d token key source now in
         case outcome of
           Ok v \<Rightarrow> Ok (''pass'', reason_str outcome, Some v)
         | Err r \<Rightarrow> Ok (reason_auth_result r, reason_str outcome, None)
         | Panic \<Rightarrow> Panic)
      else
        (case policy_record_parse policy_txt of
           Err _ \<Rightarrow> Ok (''permerror'', ''policy_record_invalid'', None)
         | Ok policy \<Rightarrow>
             (case verify lib d token key policy source now of
                Ok (Pass v) \<Rightarrow> Ok (''pass'', ''pass'', Some v)
              | Ok (ObserveOnly v) \<Rightarrow> Ok (''none'', ''testing_mode'', Some v)
              | Err r \<Rightarrow> Ok (reason_auth_result r, reason_str (Err r :: (unit, reason) result), None)
              | Panic \<Rightarrow> Panic)
         | Panic \<Rightarrow> Panic))"

definition row :: "string list \<Rightarrow> string" where
  "row columns = join tab columns"

definition case_line ::
  "cbor_lib \<Rightarrow> 'k dalek \<Rightarrow> 'k ed25519_public_key \<Rightarrow> string \<Rightarrow> (string, unit) result" where
  "case_line lib d key line =
     (let it = splitn 5 tab line;
          name = nth_or it 0 [];
          token_hex = nth_or it 1 [];
          source_str = nth_or it 2 [];
          now = parse_now (nth_or it 3 ''0'');
          policy_txt = nth_or it 4 []
      in case hex_decode token_hex of
           None \<Rightarrow> Ok (row [name, ''permerror'', ''malformed'', [], [], []])
         | Some token \<Rightarrow>
             (case parse_ipv6 source_str of
                None \<Rightarrow> Ok (row [name, ''permerror'', ''bad_source'', [], [], []])
              | Some source \<Rightarrow>
                  and_then (verdict lib d key token source now policy_txt)
                    (\<lambda>(auth_result, reason, verified).
                    Ok (case verified of
                        Some v \<Rightarrow> row [name, auth_result, reason, vf_operator v,
                          prefix_display (vf_unit v), prefix_display (vf_observed_unit v)]
                      | None \<Rightarrow> row [name, auth_result, reason, [], [], []]))))"

fun run_cases ::
  "(string \<Rightarrow> (string, unit) result) \<Rightarrow> string option list \<Rightarrow> string list \<times> bool" where
  "run_cases f [] = ([], False)"
| "run_cases f (None # lines) = ([], True)"
| "run_cases f (Some line # lines) =
     (if line = [] then run_cases f lines
      else case f line of
          Ok r \<Rightarrow> (case run_cases f lines of (out, panicked) \<Rightarrow> (r # out, panicked))
        | _ \<Rightarrow> ([], True))"

definition main :: "cbor_lib \<Rightarrow> 'k dalek \<Rightarrow> string option list \<Rightarrow> string list \<times> bool" where
  "main lib d lines =
     (case lines of
        Some pub_hex # cases \<Rightarrow>
          (case hex_decode (trim pub_hex) of
             None \<Rightarrow> ([], True)
           | Some pk_bytes \<Rightarrow>
               (case key_from_bytes d pk_bytes of
                  None \<Rightarrow> ([], True)
                | Some key \<Rightarrow> run_cases (case_line lib d key) cases))
      | _ \<Rightarrow> ([], True))"

section \<open>Hexadecimal is read back exactly\<close>

lemma hex_val_to_digit: "hex_val c = Some h \<longleftrightarrow> to_digit 16 (char_of (unat c)) = Some (unat h)"
proof -
  have s: "k \<le> c \<Longrightarrow> unat (c - k) = unat c - unat k" for k by (rule unat_sub)
  have a: "unat (c - k + 10) = unat c - unat k + 10" if "k \<le> c" "unat c - unat k < 6" for k
    using that s [OF that(1)] by (simp add: unat_word_ariths)
  have c: "code (char_of (unat c)) = unat c" by (simp add: unat_u8_less)
  show ?thesis
    using a [of 97] a [of 65] s [of 48]
    by (auto simp: hex_val_def to_digit_def Let_def c is_ascii_digit_def word_le_nat_alt word_unat_eq_iff
        simp del: char_of_nat)
qed

lemma code_digit_char: "v < 16 \<Longrightarrow> code (digit_char v) = (if v < 10 then 48 + v else 87 + v)"
  by (simp add: digit_char_def)

lemma to_digit_16_iff: "to_digit 16 x = Some v \<longleftrightarrow> v < 16 \<and> to_ascii_lower x = digit_char v"
proof -
  have "to_ascii_lower x = digit_char v \<longleftrightarrow> code (to_ascii_lower x) = code (digit_char v)" by simp
  also have "v < 16 \<Longrightarrow> \<dots> \<longleftrightarrow> to_digit 16 x = Some v"
    unfolding code_to_ascii_lower
    by (auto simp: code_digit_char to_digit_def Let_def is_ascii_digit_def)
  finally have "v < 16 \<Longrightarrow> to_ascii_lower x = digit_char v \<longleftrightarrow> to_digit 16 x = Some v" .
  moreover have "to_digit 16 x = Some v \<Longrightarrow> v < 16"
    by (auto simp: to_digit_def Let_def split: if_splits)
  ultimately show ?thesis by blast
qed

lemma nibbles:
  assumes "unat h < 16" and "unat l < 16"
  shows "unat (push_bit 4 h OR l :: u8) = 16 * unat h + unat l"
proof -
  have l: "\<not> bit l n" if "4 \<le> n" for n
  proof -
    have "unat l < 2 ^ n" using assms(2) power_increasing [OF that, of "2 :: nat"] by simp
    then have "\<not> bit (unat l) n" by (simp add: bit_iff_odd)
    then show ?thesis by (simp add: bit_unsigned_iff)
  qed
  have "push_bit 4 h OR l = push_bit 4 h + l"
    using l by (intro disjunctive_add [symmetric]) (auto simp: bit_simps)
  moreover have "unat (push_bit 4 h) = 16 * unat h"
    using assms(1) by (simp add: push_bit_eq_mult unat_word_ariths)
  moreover have "unat (push_bit 4 h + l) = unat (push_bit 4 h) + unat l"
    using assms \<open>unat (push_bit 4 h) = 16 * unat h\<close> by (simp add: unat_word_ariths)
  ultimately show ?thesis by simp
qed

lemma hex_byte_nibbles:
  "unat h < 16 \<Longrightarrow> unat l < 16 \<Longrightarrow>
   hex_byte (push_bit 4 h OR l) = [digit_char (unat h), digit_char (unat l)]"
  by (simp add: hex_byte_def nibbles)

lemma hex_val_iff:
  "hex_val c = Some h \<longleftrightarrow> unat h < 16 \<and> to_ascii_lower (char_of (unat c)) = digit_char (unat h)"
  by (simp add: hex_val_to_digit to_digit_16_iff)

lemma hex_val_None: "hex_val c = None \<Longrightarrow> v < 16 \<Longrightarrow> to_ascii_lower (char_of (unat c)) \<noteq> digit_char v"
proof
  assume "hex_val c = None" "v < 16" "to_ascii_lower (char_of (unat c)) = digit_char v"
  then have "hex_val c = Some (of_nat v)"
    unfolding hex_val_iff by (simp add: unat_of_nat take_bit_nat_eq_self)
  with \<open>hex_val c = None\<close> show False by simp
qed

text \<open>Two characters are the digits of an octet, up to case, exactly when the code reads it from them.\<close>

lemma hex_pair:
  "hex_byte x = [to_ascii_lower (char_of (unat a)), to_ascii_lower (char_of (unat b))] \<longleftrightarrow>
     (\<exists>h l. hex_val a = Some h \<and> hex_val b = Some l \<and> x = push_bit 4 h OR l)"
proof
  assume x: "hex_byte x = [to_ascii_lower (char_of (unat a)), to_ascii_lower (char_of (unat b))]"
  then have d: "digit_char (unat x div 16) = to_ascii_lower (char_of (unat a))"
    "digit_char (unat x mod 16) = to_ascii_lower (char_of (unat b))" by (simp_all add: hex_byte_def)
  have "unat x div 16 < 16" "unat x mod 16 < 16" using unat_u8_less [of x] by auto
  with d obtain h l where hl: "hex_val a = Some h" "hex_val b = Some l"
    using hex_val_None by (metis option.exhaust)
  then have "hex_byte (push_bit 4 h OR l) = hex_byte x"
    unfolding x using hex_byte_nibbles by (simp add: hex_val_iff)
  with hl show "\<exists>h l. hex_val a = Some h \<and> hex_val b = Some l \<and> x = push_bit 4 h OR l"
    by (auto dest: hex_byte_inject [THEN iffD1])
next
  assume "\<exists>h l. hex_val a = Some h \<and> hex_val b = Some l \<and> x = push_bit 4 h OR l"
  then show "hex_byte x = [to_ascii_lower (char_of (unat a)), to_ascii_lower (char_of (unat b))]"
    using hex_byte_nibbles by (auto simp: hex_val_iff)
qed

lemma hex_loop_iff:
  "hex_loop out bs = Some r \<longleftrightarrow>
     (\<exists>xs. r = out @ xs \<and> to_ascii_lowercase (string_of_bytes bs) = concat (map hex_byte xs))"
proof (induction out bs arbitrary: r rule: hex_loop.induct)
  case (1 out)
  have "concat (map hex_byte xs) = [] \<longleftrightarrow> xs = []" for xs by (cases xs) (simp_all add: hex_byte_def)
  then show ?case by (auto simp: to_ascii_lowercase_def string_of_bytes_def eq_commute [of "[]"])
next
  case (2 out a b rest)
  let ?t = "to_ascii_lowercase (string_of_bytes rest)"
  have s: "to_ascii_lowercase (string_of_bytes (a # b # rest)) =
      to_ascii_lower (char_of (unat a)) # to_ascii_lower (char_of (unat b)) # ?t"
    by (simp add: to_ascii_lowercase_def string_of_bytes_def)
  have split: "c # c' # ?t = concat (map hex_byte xs) \<longleftrightarrow>
    (\<exists>x ys. xs = x # ys \<and> hex_byte x = [c, c'] \<and> ?t = concat (map hex_byte ys))" for c c' xs
    by (cases xs) (auto simp: hex_byte_def)
  show ?case
    unfolding s split hex_pair using "2.IH"
    by (cases "hex_val a"; cases "hex_val b") auto
next
  case (3 out a)
  have "to_ascii_lowercase (string_of_bytes [a]) \<noteq> concat (map hex_byte xs)" for xs
    by (cases xs) (simp_all add: hex_byte_def to_ascii_lowercase_def string_of_bytes_def)
  then show ?case by simp
qed

lemma hex_decode_Some_iff:
  "hex_decode s = Some bs \<longleftrightarrow> to_ascii_lowercase s = concat (map hex_byte bs)"
proof -
  have l: "to_ascii_lowercase s = concat (map hex_byte bs) \<Longrightarrow> length s = 2 * length bs"
    by (metis length_concat_hex length_to_ascii_lowercase)
  have "length (bytes_of_string s) = length s" by (simp add: bytes_of_string_def)
  then show ?thesis
    using l by (auto simp: hex_decode_def Let_def hex_loop_iff)
qed

text \<open>C39: A text decodes as hexadecimal exactly when it is, up to letter case, two digits per octet
  of the result: odd lengths and other characters are refused, and nothing is lost.\<close>

theorem hex_decode_iff:
  "hex_decode s = Some bs \<longleftrightarrow> to_ascii_lowercase s = concat (map hex_byte bs)"
  by (rule hex_decode_Some_iff)

text \<open>A key read from its printed form is the key: what \<open>Display\<close> prints for a public key
  decodes to the octets it was made of.\<close>

lemma hex_decode_display:
  "hex_decode (key_display d key) = Some (key_to_bytes d key)"
proof -
  have "to_ascii_lower (digit_char v) = digit_char v" if "v < 16" for v
    using that by (simp flip: code_inject add: code_to_ascii_lower code_digit_char)
  then have "map to_ascii_lower (hex_byte b) = hex_byte b" for b
    using unat_u8_less [of b] by (simp add: hex_byte_def)
  then show ?thesis
    by (simp add: hex_decode_Some_iff key_display_def to_ascii_lowercase_def map_concat o_def)
qed

section \<open>Rows\<close>

lemma tab_code: "code tab = 9"
  by (simp add: code_def)

lemma splitn_no_sep:
  "i + 1 < n \<Longrightarrow> i < length (splitn n d s) \<Longrightarrow> d \<notin> set (splitn n d s ! i)"
proof (induction n d s arbitrary: i rule: splitn.induct)
  case (2 n d s)
  show ?case
  proof (cases "split_once d s")
    case None
    then have "d \<notin> set s" by (simp add: split_once_None_iff)
    then show ?thesis using 2 None by simp
  next
    case (Some ab)
    then obtain a b where ab: "split_once d s = Some (a, b)" by (cases ab) auto
    then have "d \<notin> set a" by (simp add: split_once_Some_iff)
    then show ?thesis using 2 ab by (cases i) auto
  qed
qed simp

lemma prefix_display_no_tab: "tab \<notin> set (prefix_display p)"
proof -
  have "\<not> addr_char tab" using addr_char_code [of tab] by (auto simp: tab_code)
  then have "tab \<notin> set (ipv6_display (pfx_addr p))" by (rule ipv6_display_lacks)
  moreover have "tab \<notin> set (fmt_radix 10 (unat (pfx_len p)))"
  proof
    assume "tab \<in> set (fmt_radix 10 (unat (pfx_len p)))"
    then obtain v where "v < 10" "tab = digit_char v" using dec.fmt_digits by blast
    then show False using code_digit_char [of v] tab_code by simp
  qed
  ultimately show ?thesis by (simp add: prefix_display_def)
qed

lemma operator_domain_no_tab: "is_operator_domain s \<Longrightarrow> tab \<notin> set s"
proof
  assume d: "is_operator_domain s" and "tab \<in> set s"
  then obtain l where "l \<in> set (split_on CHR ''.'' s)" "tab \<in> set l"
    using set_subset_split_on [of tab s "CHR ''.''"] by auto
  with d have "LDH (code tab)" by (auto simp: is_operator_domain_split list_all_iff label_ok_def)
  then show False by (simp add: LDH_def is_ascii_alphanumeric_def is_ascii_digit_def tab_code)
qed

lemma as_str_no_tab: "tab \<notin> set (as_str r)"
  by (cases r) simp_all

text \<open>The verdict of a line, and the columns of its row.\<close>

lemma reason_str_no_tab: "tab \<notin> set (reason_str (r :: ('a, reason) result))"
  by (cases r) (simp_all add: PASS_def as_str_no_tab)

lemma parsed_operator:
  "parse lib token source now = Ok u \<Longrightarrow> is_operator_domain (pl_operator (uv_payload u))"
  using token_claims_payload_ok by (auto simp: parse_def parse_Ok_iff payload_ok_def)

lemma verdict_no_err: "verdict lib d key token source now policy_txt \<noteq> Err e"
  by (auto simp: verdict_def Let_def split: result.splits outcome.splits)

text \<open>Whether the token of a line verifies, and what then: the verification that the line asks for,
  with or without a policy, without its row.\<close>

definition line_verdict ::
  "cbor_lib \<Rightarrow> 'k dalek \<Rightarrow> 'k ed25519_public_key \<Rightarrow> string list \<Rightarrow> verified option" where
  "line_verdict lib d key it =
     Option.bind (hex_decode (nth_or it 1 [])) (\<lambda>token.
     Option.bind (parse_ipv6 (nth_or it 2 [])) (\<lambda>source.
     let now = parse_now (nth_or it 3 ''0''); policy_txt = nth_or it 4 [] in
     if policy_txt = [] then ok (verify_signature_only lib d token key source now)
     else Option.bind (ok (policy_record_parse policy_txt)) (\<lambda>policy.
       map_option outcome_verified (ok (verify lib d token key policy source now)))))"

fun columns_ok :: "verified option \<Rightarrow> string \<Rightarrow> string \<Rightarrow> bool" where
  "columns_ok (Some v) auth reason \<longleftrightarrow>
     auth = (if vf_testing v then ''none'' else ''pass'') \<and>
     reason = (if vf_testing v then ''testing_mode'' else ''pass'')"
| "columns_ok None auth reason \<longleftrightarrow>
     auth \<in> {''fail'', ''permerror''} \<and> reason \<notin> {''pass'', ''testing_mode''}"

fun row_tells :: "string \<Rightarrow> verified option \<Rightarrow> string \<Rightarrow> bool" where
  "row_tells name (Some v) r \<longleftrightarrow>
     (\<exists>auth reason. columns_ok (Some v) auth reason \<and> vf_operator v \<noteq> [] \<and>
        split_on tab r = [name, auth, reason, vf_operator v, prefix_display (vf_unit v),
          prefix_display (vf_observed_unit v)])"
| "row_tells name None r \<longleftrightarrow>
     (\<exists>auth reason. columns_ok None auth reason \<and> split_on tab r = [name, auth, reason, [], [], []])"

lemma row_split:
  assumes "tab \<notin> set name" "tab \<notin> set a" "tab \<notin> set b" "tab \<notin> set c" "tab \<notin> set e" "tab \<notin> set f"
  shows "split_on tab (row [name, a, b, c, e, f]) = [name, a, b, c, e, f]"
  unfolding row_def by (rule split_on_join) (use assms in auto)

lemma row_unverified:
  assumes "tab \<notin> set name" "columns_ok None a b" "tab \<notin> set b"
  shows "row_tells name None (row [name, a, b, [], [], []])"
proof -
  have "tab \<notin> set a" using assms(2) by auto
  then show ?thesis using row_split [of name a b "[]" "[]" "[]"] assms by auto
qed

lemma row_verified:
  assumes "tab \<notin> set name" "columns_ok (Some v) a b" "is_operator_domain (vf_operator v)"
  shows "row_tells name (Some v)
    (row [name, a, b, vf_operator v, prefix_display (vf_unit v), prefix_display (vf_observed_unit v)])"
proof -
  have "tab \<notin> set a" "tab \<notin> set b" using assms(2) by auto
  moreover have "vf_operator v \<noteq> []" using assms(3) by (simp add: is_operator_domain_split)
  ultimately show ?thesis
    using row_split [of name a b "vf_operator v" "prefix_display (vf_unit v)" "prefix_display (vf_observed_unit v)"]
      assms operator_domain_no_tab [OF assms(3)] prefix_display_no_tab by auto
qed

lemma err_columns: "columns_ok None (reason_auth_result r) (as_str r)"
  by (cases r) simp_all

lemma verified_outcome:
  assumes "verify lib d token key policy source now = Ok out"
  shows "\<exists>v. is_operator_domain (vf_operator v) \<and> (out = Pass v \<and> \<not> vf_testing v \<or> out = ObserveOnly v \<and> vf_testing v)"
proof -
  from assms obtain u where u: "parse lib token source now = Ok u"
    "out = (if pol_testing policy then ObserveOnly else Pass) (verified_of u (pol_testing policy) (pol_rua policy))"
    by (auto simp: verify_Ok_iff)
  let ?v = "verified_of u (pol_testing policy) (pol_rua policy)"
  have "is_operator_domain (vf_operator ?v)" "vf_testing ?v = pol_testing policy"
    using parsed_operator [OF u(1)] by (simp_all add: verified_of_def)
  then show ?thesis by (intro exI [of _ ?v]) (simp add: u(2))
qed

lemma verdict_cases:
  assumes "verdict lib d key token source now policy_txt = Ok (auth, reason, verified)"
  shows "verified =
      (if policy_txt = [] then ok (verify_signature_only lib d token key source now)
       else Option.bind (ok (policy_record_parse policy_txt)) (\<lambda>policy.
         map_option outcome_verified (ok (verify lib d token key policy source now)))) \<and>
    columns_ok verified auth reason \<and> tab \<notin> set reason \<and>
    (\<forall>v. verified = Some v \<longrightarrow> is_operator_domain (vf_operator v))"
proof (cases "policy_txt = []")
  case True
  show ?thesis
  proof (cases "verify_signature_only lib d token key source now")
    case (Ok v)
    then have "is_operator_domain (vf_operator v) \<and> \<not> vf_testing v"
      using parsed_operator by (auto simp: verify_signature_only_def unverified_verify_signature_only_def
          ok_iff verified_of_def)
    then show ?thesis using assms True Ok by (auto simp: verdict_def PASS_def)
  next
    case (Err r)
    then show ?thesis using assms True err_columns [of r] as_str_no_tab [of r] by (auto simp: verdict_def)
  qed (use assms True in \<open>simp add: verdict_def\<close>)
next
  case False
  show ?thesis
  proof (cases "policy_record_parse policy_txt")
    case pol: (Ok policy)
    show ?thesis
    proof (cases "verify lib d token key policy source now")
      case (Ok out)
      then consider v where "out = Pass v" "\<not> vf_testing v" "is_operator_domain (vf_operator v)"
        | v where "out = ObserveOnly v" "vf_testing v" "is_operator_domain (vf_operator v)"
        using verified_outcome by blast
      then show ?thesis using assms False pol Ok by cases (auto simp: verdict_def)
    next
      case (Err r)
      then show ?thesis using assms False pol err_columns [of r] as_str_no_tab [of r]
        by (auto simp: verdict_def)
    qed (use assms False pol in \<open>simp add: verdict_def\<close>)
  qed (use assms False in \<open>auto simp: verdict_def\<close>)
qed

text \<open>C40: What a row tells: it has six tab-separated columns, the first of them the name of the case.
  When the verification of the line succeeds they are \<open>pass\<close>, or \<open>none\<close> for a testing policy, the
  matching reason, the operator and the two units; when the line is malformed or the verification
  fails, the result is a failure, the reason is another one, and the last three are empty.\<close>

theorem rows_are_unambiguous:
  assumes "case_line lib d key line = Ok r"
  shows "row_tells (nth_or (splitn 5 tab line) 0 []) (line_verdict lib d key (splitn 5 tab line)) r"
proof -
  let ?it = "splitn 5 tab line"
  let ?name = "nth_or ?it 0 []"
  have name: "tab \<notin> set ?name" using splitn_no_sep [of 0 5 tab line] by (auto simp: nth_or_def)
  show ?thesis
  proof (cases "hex_decode (nth_or ?it 1 [])")
    case None
    then show ?thesis
      using assms row_unverified [OF name, of "''permerror''" "''malformed''"]
      by (auto simp: case_line_def line_verdict_def)
  next
    case token: (Some token)
    show ?thesis
    proof (cases "parse_ipv6 (nth_or ?it 2 [])")
      case None
      then show ?thesis
        using assms token row_unverified [OF name, of "''permerror''" "''bad_source''"]
        by (auto simp: case_line_def line_verdict_def)
    next
      case (Some source)
      from assms token Some obtain auth reason verified where
        v: "verdict lib d key token source (parse_now (nth_or ?it 3 ''0'')) (nth_or ?it 4 []) =
            Ok (auth, reason, verified)"
          and r: "r = (case verified of
            Some v \<Rightarrow> row [?name, auth, reason, vf_operator v,
              prefix_display (vf_unit v), prefix_display (vf_observed_unit v)]
          | None \<Rightarrow> row [?name, auth, reason, [], [], []])"
        by (auto simp: case_line_def Let_def ok_iff)
      have e: "line_verdict lib d key ?it = verified"
        using conjunct1 [OF verdict_cases [OF v]] by (simp add: line_verdict_def token Some Let_def del: One_nat_def)
      have c: "columns_ok verified auth reason" "tab \<notin> set reason"
        "\<And>v. verified = Some v \<Longrightarrow> is_operator_domain (vf_operator v)"
        using verdict_cases [OF v] by blast+
      show ?thesis
        unfolding e r using c row_unverified [OF name] row_verified [OF name] by (cases verified) fastforce+
    qed
  qed
qed

lemma verdict_no_panic:
  assumes "\<And>v. ser_value lib v \<noteq> None"
  shows "verdict lib d key token source now policy_txt \<noteq> Panic"
  using verification_total [OF assms, of token source now "[]" d key] policy_no_panic
  by (auto simp: verdict_def Let_def split: result.splits outcome.splits)

lemma case_line_total:
  assumes "\<And>v. ser_value lib v \<noteq> None"
  shows "\<exists>r. case_line lib d key line = Ok r"
proof -
  have "case_line lib d key line \<noteq> Panic \<and> (\<forall>e. case_line lib d key line \<noteq> Err e)"
    by (auto simp: case_line_def Let_def ok_iff verdict_no_err verdict_no_panic [OF assms]
        split: option.splits)
  then show ?thesis by (cases "case_line lib d key line") auto
qed

text \<open>The lines of the corpus up to the first one that cannot be read.\<close>

definition readable :: "string option list \<Rightarrow> string list" where
  "readable lines = map the (takeWhile (\<lambda>l. l \<noteq> None) lines)"

lemma readable_simps [simp]:
  "readable [] = []" "readable (None # ls) = []" "readable (Some l # ls) = l # readable ls"
  by (simp_all add: readable_def)

lemma run_cases_iff:
  assumes "\<And>l. \<exists>r. f l = Ok r"
  shows "run_cases f lines = (rows, panicked) \<longleftrightarrow>
    map Ok rows = map f (filter (\<lambda>l. l \<noteq> []) (readable lines)) \<and> (panicked \<longleftrightarrow> None \<in> set lines)"
proof (induction lines arbitrary: rows)
  case (Cons l lines)
  show ?case
  proof (cases l)
    case (Some line)
    obtain r where r: "f line = Ok r" using assms by blast
    have "line \<noteq> [] \<Longrightarrow> run_cases f (Some line # lines) = (rows, panicked) \<longleftrightarrow>
        (\<exists>out. rows = r # out \<and> run_cases f lines = (out, panicked))"
      by (auto simp: r split: prod.split)
    then show ?thesis
      by (cases "line = []") (simp add: Some Cons.IH, auto simp: Some Cons.IH r map_eq_Cons_conv)
  qed auto
qed auto

text \<open>C21: What the evaluator prints, and when it panics: with an acceptable key on the first line it
  prints the row of every non-empty line up to the first unreadable one, in order, and panics
  only at that one; without, it panics and prints nothing. As long as the library's encoder
  succeeds, as it does when writing to a vector, no case of a corpus makes it panic.\<close>

theorem main_rows:
  assumes "\<And>v. ser_value lib v \<noteq> None"
  shows "main lib d lines = (rows, panicked) \<longleftrightarrow>
    (case lines of
       Some first # rest \<Rightarrow>
         (case Option.bind (hex_decode (trim first)) (key_from_bytes d) of
            Some key \<Rightarrow>
              map Ok rows = map (case_line lib d key) (filter (\<lambda>l. l \<noteq> []) (readable rest)) \<and>
              (panicked \<longleftrightarrow> None \<in> set rest)
          | None \<Rightarrow> rows = [] \<and> panicked)
     | _ \<Rightarrow> rows = [] \<and> panicked)"
proof -
  note run = run_cases_iff [of "case_line lib d key" for key, OF case_line_total [OF assms]]
  show ?thesis
    by (auto simp: main_def run split: list.split option.split Option.bind_split)
qed

section \<open>Sample lines\<close>

lemma example_lib_total: "ser_value example_lib v \<noteq> None"
  by (simp add: example_lib_def)

definition doc_line :: string where
  "doc_line = ''v'' @ tab # concat (map hex_byte doc_token) @ tab # ''2001:db8:f00:1234::a:1'' @ tab # ''1786293000''"

lemma doc_line_fields:
  "splitn 5 tab doc_line = [''v'', concat (map hex_byte doc_token), ''2001:db8:f00:1234::a:1'', ''1786293000'']"
  by code_simp

lemma doc_line_values:
  "parse_ipv6 ''2001:db8:f00:1234::a:1'' = Some doc_source"
  "parse_now ''1786293000'' = doc_now"
  "prefix_display (source_unit doc_source 64) = ''2001:db8:f00:1234::/64''"
  by code_simp+

lemma doc_line_hex: "hex_decode (concat (map hex_byte doc_token)) = Some doc_token"
  by code_simp

lemma doc_line_verdict:
  "line_verdict example_lib example_dalek doc_key (splitn 5 tab doc_line) = Some doc_verified"
proof -
  have "verify_signature_only example_lib example_dalek doc_token doc_key doc_source doc_now = Ok doc_verified"
    using doc_parse_lib [of example_lib] doc_key_verify
    by (simp add: verify_signature_only_def parse_def unverified_verify_signature_only_def finish_signature_def
        doc_verified_def verified_of_def)
  then show ?thesis
    by (simp add: line_verdict_def doc_line_fields nth_or_def doc_line_values doc_line_hex Let_def)
qed

lemma rows_are_unambiguous_witness:
  "\<exists>r. case_line example_lib example_dalek doc_key doc_line = Ok r \<and>
     split_on tab r = [''v'', ''pass'', ''pass'', ''mailer.example.com'', ''2001:db8:f00:1234::/64'',
       ''2001:db8:f00:1234::/64'']"
proof -
  obtain r where r: "case_line example_lib example_dalek doc_key doc_line = Ok r"
    using case_line_total [OF example_lib_total] by blast
  have "nth_or (splitn 5 tab doc_line) 0 [] = ''v''" by (simp add: doc_line_fields nth_or_def)
  with rows_are_unambiguous [OF r] show ?thesis
    using r by (simp add: doc_line_verdict) (simp add: doc_verified_def verified_of_def doc_unverified_def
        doc_payload_def doc_line_values)
qed

lemma main_rows_witness:
  "\<exists>rows. main example_lib example_dalek
     [Some (key_display example_dalek doc_key), Some ''x'', Some [], None, Some ''y''] = (rows, True) \<and>
     length rows = 1"
proof -
  let ?line = "key_display example_dalek doc_key"
  have "trim ?line = ?line" by code_simp
  moreover have "hex_decode ?line = Some doc_key_bytes"
    by (simp add: hex_decode_display key_to_bytes_def doc_key_def example_dalek_def)
  moreover have "key_from_bytes example_dalek doc_key_bytes = Some doc_key"
    by (simp add: key_from_bytes_def try_into_array_def LEN_def doc_key_def example_dalek_def)
      (simp add: doc_key_bytes_def)
  ultimately have key: "Option.bind (hex_decode (trim ?line)) (key_from_bytes example_dalek) = Some doc_key"
    by simp
  obtain r where r: "case_line example_lib example_dalek doc_key ''x'' = Ok r"
    using case_line_total [OF example_lib_total] by blast
  have "main example_lib example_dalek [Some ?line, Some ''x'', Some [], None, Some ''y''] = ([r], True)"
    using key r by (subst main_rows [OF example_lib_total]) simp
  then show ?thesis by simp
qed

end
