(* ===== verification/Sworn_Tests.thy ===== *)
theory Sworn_Tests
  imports Sworn_Receiver Sworn_Difftest
begin

text \<open>
  The unit tests that the source files carry, as definitions: a test is a computation whose
  result is \<open>Ok ()\<close> when every assertion holds and \<open>Panic\<close> otherwise, and each one is proved to
  pass. They check that the definitions of the development behave as the tests say the code
  does. The base64 decoder and the curve library are instantiated by concrete functions.
\<close>

section \<open>Assertions\<close>

definition assert_that :: "bool \<Rightarrow> (unit, unit) result" where
  "assert_that b = (if b then Ok () else Panic)"

text \<open>\<open>Result::unwrap\<close>, and a loop of a test over a list of cases.\<close>

fun unwrap :: "('a, 'e) result \<Rightarrow> ('a, unit) result" where
  "unwrap (Ok x) = Ok x"
| "unwrap _ = Panic"

fun is_ok :: "('a, 'e) result \<Rightarrow> bool" where
  "is_ok (Ok x) = True"
| "is_ok _ = False"

fun is_err :: "('a, 'e) result \<Rightarrow> bool" where
  "is_err (Err e) = True"
| "is_err _ = False"

fun for_each :: "('a \<Rightarrow> (unit, unit) result) \<Rightarrow> 'a list \<Rightarrow> (unit, unit) result" where
  "for_each f [] = Ok ()"
| "for_each f (x # xs) = and_then (f x) (\<lambda>_. for_each f xs)"

definition assert_all :: "bool list \<Rightarrow> (unit, unit) result" where
  "assert_all bs = for_each assert_that bs"

lemma assert_that_Ok_iff [ok_iff]: "assert_that b = Ok () \<longleftrightarrow> b"
  by (simp add: assert_that_def)

lemma for_each_Ok_iff [ok_iff]: "for_each f xs = Ok () \<longleftrightarrow> (\<forall>x \<in> set xs. f x = Ok ())"
  by (induction xs) (auto simp: ok_iff)

lemma unwrap_Ok_iff [ok_iff]: "unwrap r = Ok x \<longleftrightarrow> r = Ok x"
  by (cases r) simp_all

section \<open>Tests of \<open>src/address.rs\<close>\<close>

definition test_addr :: "string \<Rightarrow> (ipv6_addr, unit) result" where
  "test_addr s = expect (parse_ipv6 s)"

definition test_prefix :: "string \<Rightarrow> (ipv6_prefix, unit) result" where
  "test_prefix s = unwrap (prefix_from_str s)"

definition masks_to_unit_boundary :: "(unit, unit) result" where
  "masks_to_unit_boundary =
     and_then (test_addr ''2001:db8:f00:1234::a:1'') (\<lambda>a.
     and_then (expect (prefix_new (mask_addr a 64) 64)) (\<lambda>unit.
     assert_that (prefix_display unit = ''2001:db8:f00:1234::/64'')))"

definition rejects_non_canonical_prefix :: "(unit, unit) result" where
  "rejects_non_canonical_prefix =
     and_then (test_prefix ''2001:db8:f00:dead::/48'') (\<lambda>p.
     and_then (assert_that (\<not> is_attestable p)) (\<lambda>_.
     and_then (test_prefix ''2001:db8:f00::/48'') (\<lambda>p.
     assert_that (is_attestable p))))"

definition enforces_attested_prefix_bounds :: "(unit, unit) result" where
  "enforces_attested_prefix_bounds =
     and_then (for_each
       (\<lambda>s. and_then (test_prefix s) (\<lambda>p. assert_that (\<not> is_attestable p)))
       [''2001:db8::/16'', ''2001:db8:f00:1234:5::/80'', ''fc00::/48'', ''2001::/48'', ''2002::/48'']) (\<lambda>_.
     and_then (test_prefix ''2000::/16'') (\<lambda>p.
     and_then (assert_that (\<not> overlaps p SIX_TO_FOUR)) (\<lambda>_.
     and_then (test_prefix ''2002::/16'') (\<lambda>p.
     assert_that (overlaps p SIX_TO_FOUR)))))"

definition rejects_ineligible_sources :: "(unit, unit) result" where
  "rejects_ineligible_sources =
     and_then (for_each
       (\<lambda>s. and_then (test_addr s) (\<lambda>a. assert_that (\<not> is_eligible_source a)))
       [''::ffff:203.0.113.5'', ''::203.0.113.5'', ''64:ff9b::203.0.113.5'', ''64:ff9b:1::1'',
        ''2001::1'', ''2002:c000:204::1'', ''fe80::1'', ''fc00::1'', ''ff02::1'', ''::1'']) (\<lambda>_.
     and_then (test_addr ''2001:db8:f00:1234::a:1'') (\<lambda>a.
     assert_that (is_eligible_source a)))"

lemma masks_to_unit_boundary_passes: "masks_to_unit_boundary = Ok ()"
  by code_simp

lemma rejects_non_canonical_prefix_passes: "rejects_non_canonical_prefix = Ok ()"
  by code_simp

lemma enforces_attested_prefix_bounds_passes: "enforces_attested_prefix_bounds = Ok ()"
  by code_simp

lemma embedded_ipv4_texts:
  "parse_ipv6 ''::ffff:203.0.113.5'' = Some 0xffffcb007105"
  "parse_ipv6 ''::203.0.113.5'' = Some 0xcb007105"
  "parse_ipv6 ''64:ff9b::203.0.113.5'' = Some 0x64ff9b0000000000000000cb007105"
  by code_simp+

lemma special_address_texts:
  "parse_ipv6 ''64:ff9b:1::1'' = Some 0x64ff9b000100000000000000000001"
  "parse_ipv6 ''2001::1'' = Some 0x20010000000000000000000000000001"
  "parse_ipv6 ''2002:c000:204::1'' = Some 0x2002c000020400000000000000000001"
  "parse_ipv6 ''fe80::1'' = Some 0xfe800000000000000000000000000001"
  "parse_ipv6 ''fc00::1'' = Some 0xfc000000000000000000000000000001"
  "parse_ipv6 ''ff02::1'' = Some 0xff020000000000000000000000000001"
  "parse_ipv6 ''::1'' = Some 0x1"
  by code_simp+

lemma ordinary_address_text:
  "parse_ipv6 ''2001:db8:f00:1234::a:1'' = Some 0x20010db80f00123400000000000a0001"
  by code_simp+

lemma rejects_ineligible_sources_passes: "rejects_ineligible_sources = Ok ()"
  by (simp add: rejects_ineligible_sources_def test_addr_def assert_that_def is_eligible_source_code
      embedded_ipv4_texts special_address_texts ordinary_address_text)

section \<open>Tests of \<open>src/record.rs\<close>\<close>

text \<open>A base64 decoder for the standard alphabet with padding, as the source asks for.\<close>

definition base64_alphabet :: string where
  "base64_alphabet =
     ''ABCDEFGHIJKLMNOPQRSTUVWXYZabcdefghijklmnopqrstuvwxyz0123456789+/''"

fun position :: "char \<Rightarrow> string \<Rightarrow> nat option" where
  "position c [] = None"
| "position c (x # xs) = (if x = c then Some 0 else map_option Suc (position c xs))"

definition sextets :: "string \<Rightarrow> nat list option" where
  "sextets s = those (map (\<lambda>c. position c base64_alphabet) s)"

definition octets :: "nat list \<Rightarrow> u8 list" where
  "octets vs = map of_nat vs"

fun base64_decode :: "string \<Rightarrow> u8 list option" where
  "base64_decode [] = Some []"
| "base64_decode (a # b # c # d # rest) =
     (if d = CHR ''='' then
        if rest \<noteq> [] then None
        else if c = CHR ''='' then
          (case sextets [a, b] of
             Some [x, y] \<Rightarrow> if y mod 16 = 0 then Some (octets [x * 4 + y div 16]) else None
           | _ \<Rightarrow> None)
        else
          (case sextets [a, b, c] of
             Some [x, y, z] \<Rightarrow>
               if z mod 4 = 0
               then Some (octets [x * 4 + y div 16, y mod 16 * 16 + z div 4]) else None
           | _ \<Rightarrow> None)
      else
        (case sextets [a, b, c, d] of
           Some [x, y, z, w] \<Rightarrow>
             map_option (append (octets [x * 4 + y div 16, y mod 16 * 16 + z div 4, z mod 4 * 64 + w]))
               (base64_decode rest)
         | _ \<Rightarrow> None))"
| "base64_decode _ = None"

definition PK :: string where
  "PK = ''pk=ebVWLo/mVPlAeLES6KmLp5AfhTrmlb7X4OORC60ElmQ=''"

definition parses_key_record :: "(string \<Rightarrow> u8 list option) \<Rightarrow> 'k dalek \<Rightarrow> (unit, unit) result" where
  "parses_key_record b64 d =
     and_then (unwrap (key_record_parse b64 d (''v=SWORN1; k=ed25519; '' @ PK))) (\<lambda>record.
     assert_that (key_display d (kr_public_key record) =
       ''79b5562e8fe654f94078b112e8a98ba7901f853ae695bed7e0e3910bad049664''))"

definition rejects_whitespace_inside_a_value ::
  "(string \<Rightarrow> u8 list option) \<Rightarrow> 'k dalek \<Rightarrow> (unit, unit) result" where
  "rejects_whitespace_inside_a_value b64 d =
     assert_that (case key_record_parse b64 d ''v=SWORN1; k=ed 25519; pk=AA=='' of
       Err e \<Rightarrow> e = MalformedTag | _ \<Rightarrow> False)"

definition reports_unknown_algorithm_distinctly ::
  "(string \<Rightarrow> u8 list option) \<Rightarrow> 'k dalek \<Rightarrow> (unit, unit) result" where
  "reports_unknown_algorithm_distinctly b64 d =
     assert_that (case key_record_parse b64 d (''v=SWORN1; k=fn-dsa-512; '' @ PK) of
       Err e \<Rightarrow> e = UnknownAlgorithm | _ \<Rightarrow> False)"

definition rejects_wrong_length_key ::
  "(string \<Rightarrow> u8 list option) \<Rightarrow> 'k dalek \<Rightarrow> (unit, unit) result" where
  "rejects_wrong_length_key b64 d =
     assert_that (case key_record_parse b64 d ''v=SWORN1; k=ed25519; pk=AAAA'' of
       Err e \<Rightarrow> e = BadValue ''pk'' | _ \<Rightarrow> False)"

definition parses_policy_defaults :: "(unit, unit) result" where
  "parses_policy_defaults =
     and_then (unwrap (policy_record_parse ''v=SWORN1; p=2001:db8:f00::/48'')) (\<lambda>record.
     assert_all [pol_unit record = 64, \<not> pol_testing record, pol_rua record = None,
       length (pol_prefixes record) = 1])"

definition reads_testing_flag_among_unknown_flags :: "(unit, unit) result" where
  "reads_testing_flag_among_unknown_flags =
     and_then (unwrap (policy_record_parse ''v=SWORN1; t=z:y:future'')) (\<lambda>record.
     and_then (assert_that (pol_testing record)) (\<lambda>_.
     and_then (unwrap (policy_record_parse ''v=SWORN1; t=z'')) (\<lambda>record.
     assert_that (\<not> pol_testing record))))"

definition rejects_policy_units_broader_than_a_prefix :: "(unit, unit) result" where
  "rejects_policy_units_broader_than_a_prefix =
     assert_that (case policy_record_parse ''v=SWORN1; p=2001:db8:f00:1200::/56; u=48'' of
       Err e \<Rightarrow> e = BadValue ''u'' | _ \<Rightarrow> False)"

definition rejects_unsafe_report_destinations :: "(unit, unit) result" where
  "rejects_unsafe_report_destinations =
     and_then (for_each
       (\<lambda>value. assert_that (is_err (policy_record_parse (''v=SWORN1; rua='' @ value))))
       [''mailto:a@b.example'' @ [CHR 0x0D, CHR 0x0A] @ ''Bcc:victim@example.net'',
        ''mailto:a@b.example,c@d.example'', ''mailto:.a@b.example'', ''mailto:a@bad domain.example'']) (\<lambda>_.
     assert_that (is_ok (policy_record_parse ''v=SWORN1; rua=mailto:a.b+tag@b.example'')))"

lemma parses_key_record_passes: "parses_key_record base64_decode example_dalek = Ok ()"
  by code_simp

lemma key_errors_pass:
  "rejects_whitespace_inside_a_value base64_decode example_dalek = Ok ()"
  "rejects_wrong_length_key base64_decode example_dalek = Ok ()"
  by code_simp+

lemma reports_unknown_algorithm_distinctly_passes:
  "reports_unknown_algorithm_distinctly base64_decode example_dalek = Ok ()"
  by code_simp

lemma parses_policy_defaults_passes: "parses_policy_defaults = Ok ()"
  by code_simp

lemma reads_testing_flag_among_unknown_flags_passes: "reads_testing_flag_among_unknown_flags = Ok ()"
  by code_simp

lemma rejects_policy_units_broader_than_a_prefix_passes:
  "rejects_policy_units_broader_than_a_prefix = Ok ()"
  by code_simp

lemma rejects_unsafe_report_destinations_passes: "rejects_unsafe_report_destinations = Ok ()"
  by code_simp

section \<open>The test of the cap on prefixes\<close>

definition capped_entry :: "nat \<Rightarrow> string" where
  "capped_entry i = ''2001:db8:'' @ fmt_radix 16 i @ ''00::/48''"

definition ignores_prefixes_past_the_cap :: "(unit, unit) result" where
  "ignores_prefixes_past_the_cap =
     (let prefixes = map capped_entry [0..<MAX_POLICY_PREFIXES] @ [''not-a-prefix'']
      in and_then (unwrap (policy_record_parse (''v=SWORN1; p='' @ join CHR '','' prefixes))) (\<lambda>record.
         assert_that (length (pol_prefixes record) = MAX_POLICY_PREFIXES)))"

text \<open>The record is read by the lemmas on records, for any 64 attestable entries.\<close>

definition entry_ok :: "string \<Rightarrow> bool" where
  "entry_ok s \<longleftrightarrow> (case prefix_from_str s of Ok p \<Rightarrow> is_attestable p \<and> pfx_len p = 48 | _ \<Rightarrow> False)"

definition entry_text :: "string \<Rightarrow> bool" where
  "entry_text s \<longleftrightarrow> s \<noteq> [] \<and>
     list_all (\<lambda>c. printable c \<and> \<not> is_blank c \<and> c \<noteq> CHR '';'' \<and> c \<noteq> CHR '','') s"

lemma entry_tags:
  assumes "es \<noteq> []" and "list_all entry_text es"
  shows "parse_tags (''v=SWORN1; p='' @ join CHR '','' es) = Ok [(''v'', ''SWORN1''), (''p'', join CHR '','' es)]"
    and "filter (\<lambda>e. e \<noteq> []) (split_on CHR '','' (join CHR '','' es)) = es"
proof -
  let ?p = "join CHR '','' es"
  let ?ts = "[(''v'', ''SWORN1''), (''p'', ?p)]"
  have split: "split_on CHR '','' ?p = es"
    by (rule split_on_join) (use assms in \<open>auto simp: entry_text_def list_all_iff\<close>)
  have comma: "printable CHR '',''" "\<not> is_blank CHR '',''" by code_simp+
  have pc: "printable x \<and> \<not> is_blank x \<and> x \<noteq> CHR '';''" if "x \<in> set ?p" for x
    using set_subset_split_on [of x ?p "CHR '',''"] that assms(2) comma unfolding split
    by (auto simp: entry_text_def list_all_iff)
  have "\<not> is_blank CHR ''p''" "printable CHR ''p''" by code_simp+
  with pc have "tag_ok (''p'', ?p)" by (auto simp: tag_ok_def list_all_iff)
  moreover have "tag_ok (''v'', ''SWORN1'')" by code_simp
  ultimately have "parse_tags (record_text ?ts) = Ok ?ts"
    by (intro record_text_parse) (simp add: record_ok_def)
  then show "parse_tags (''v=SWORN1; p='' @ ?p) = Ok ?ts" by (simp add: tag_text_def)
  show "filter (\<lambda>e. e \<noteq> []) (split_on CHR '','' ?p) = es"
    using assms(2) unfolding split by (auto simp: entry_text_def list_all_iff filter_id_conv)
qed

lemma capped_policy:
  assumes es: "length es = 64" "list_all entry_ok es" "list_all entry_text (es @ tail)"
  shows "\<exists>pol. policy_record_parse (''v=SWORN1; p='' @ join CHR '','' (es @ tail)) = Ok pol \<and>
    length (pol_prefixes pol) = 64"
proof -
  let ?p = "join CHR '','' (es @ tail)"
  let ?ts = "[(''v'', ''SWORN1''), (''p'', ?p)]"
  have "es @ tail \<noteq> []" using es(1) by auto
  note tags = entry_tags [OF this es(3)]
  then have listed: "listed ?ts = es" using es(1) by (simp add: listed_def)
  have e: "\<exists>p. prefix_from_str s = Ok p \<and> is_attestable p \<and> pfx_len p = 48" if "s \<in> set es" for s
    using that es(2) by (cases "prefix_from_str s") (auto simp: entry_ok_def list_all_iff)
  define read where "read s = (case prefix_from_str s of Ok p \<Rightarrow> p | _ \<Rightarrow> undefined)" for s
  have r: "prefix_from_str s = Ok (read s) \<and> is_attestable (read s) \<and> pfx_len (read s) = 48" if "s \<in> set es" for s
    using e [OF that] by (auto simp: read_def)
  let ?pol = "\<lparr>pol_prefixes = map read es, pol_unit = 64, pol_testing = False, pol_rua = None\<rparr>"
  have "policy_claims ?ts ?pol"
    using r by (simp add: policy_claims_def listed list_all2_map2 list.rel_refl_strong)
  moreover have "policy_ok ?pol" using r es(1) by (simp add: policy_ok_def list_all_iff)
  ultimately have "policy_record_parse (''v=SWORN1; p='' @ ?p) = Ok ?pol"
    unfolding policy_Ok_iff using tags(1) by blast
  then show ?thesis using es(1) by simp
qed

text \<open>The entries themselves, from the lemmas on the text of addresses.\<close>

lemma capped_attestable:
  assumes "i < 64"
  shows "is_attestable \<lparr>pfx_addr = of_segments [0x2001, 0xdb8, word_of_nat (i * 256), 0, 0, 0, 0, 0], pfx_len = 48\<rparr>"
proof -
  define n :: nat where "n = 0x20010db8000000000000000000000000 + i * 2 ^ 88"
  have "unat (word_of_nat (i * 256) :: u16) = i * 256"
    using assms by (simp only: unat_of_nat) (simp add: take_bit_nat_eq_self)
  then have a: "of_segments [0x2001, 0xdb8, word_of_nat (i * 256), 0, 0, 0, 0, 0] = word_of_nat n"
    unfolding of_segments_code n_def by (simp add: mult.commute del: of_nat_add of_nat_mult)
  have "n < 2 ^ 128" using assms by (simp add: n_def)
  then have u: "unat (word_of_nat n :: ipv6_addr) = n" by (simp add: unat_of_nat take_bit_nat_eq_self)
  have "n = (0x20010db80000 + i * 256) * 2 ^ 80" by (simp add: n_def)
  then have "n div 2 ^ 80 * 2 ^ 80 = n" by simp
  moreover have "n div 0x20000000000000000000000000000000 = 1"
    "n div 0x1000000000000000000000000 = 0x20010db8" "n div 0x10000000000000000000000000000 = 0x2001"
    by (rule div_nat_eqI; use assms in \<open>simp add: n_def\<close>)+
  ultimately show ?thesis
    unfolding is_attestable_code Let_def a by (simp add: u)
qed

lemma capped_entry_ok:
  assumes "i < 64"
  shows "entry_ok (capped_entry i)"
proof (cases "i = 0")
  case True
  show ?thesis unfolding True by code_simp
next
  case False
  let ?gs = "[0x2001, 0xdb8, word_of_nat (i * 256), 0, 0, 0, 0, 0] :: u16 list"
  have u: "unat (word_of_nat (i * 256) :: u16) = i * 256"
    using assms by (simp only: unat_of_nat) (simp add: take_bit_nat_eq_self)
  have h: "fmt_radix 16 (i * 256) = fmt_radix 16 i @ ''00''"
    using False hex.fmt_large [of "i * 256"] hex.fmt_large [of "i * 16"]
    by (simp add: digit_char_0 mult.commute)
  have "hex16 0x2001 = ''2001''" "hex16 0xdb8 = ''db8''" by code_simp+
  moreover have "hex16 (word_of_nat (i * 256)) = fmt_radix 16 i @ ''00''" by (simp only: hex16_def u h)
  ultimately have d: "fmt_subslice (take 3 ?gs) = ''2001:db8:'' @ fmt_radix 16 i @ ''00''"
    by (simp add: fmt_subslice_def del: of_nat_mult)
  have "zero_run ?gs (3, 5)" by (auto simp: zero_run_def nth_Cons split: nat.splits)
  from parse_ipv6_compressed [OF this]
  have p: "parse_ipv6 (''2001:db8:'' @ fmt_radix 16 i @ ''00::'') = Some (of_segments ?gs)"
    unfolding d by (simp add: fmt_subslice_def)
  have slash: "CHR ''/'' \<noteq> digit_char d" if "d < 16" for d
  proof
    assume "CHR ''/'' = digit_char d"
    then have "code CHR ''/'' = code (digit_char d)" by (rule arg_cong)
    then show False using code_digit_char [OF that] by (simp add: code_def split: if_splits)
  qed
  have "CHR ''/'' \<notin> set (''2001:db8:'' @ fmt_radix 16 i @ ''00::'')"
    using hex.fmt_digits [of "CHR ''/''" i] slash by auto
  then have "split_once CHR ''/'' (capped_entry i) = Some (''2001:db8:'' @ fmt_radix 16 i @ ''00::'', ''48'')"
    unfolding split_once_Some_iff capped_entry_def by simp
  moreover have "parse_decimal ''48'' = Some 48" by code_simp
  ultimately show ?thesis
    using p capped_attestable [OF assms] by (simp add: entry_ok_def prefix_from_str_def prefix_new_def)
qed

lemma capped_entries_ok: "list_all entry_ok (map capped_entry [0..<64])"
  using capped_entry_ok by (simp only: list_all_iff set_map set_upt) auto

lemma capped_entries_text: "list_all entry_text (map capped_entry [0..<64] @ [''not-a-prefix''])"
  by code_simp

lemma ignores_prefixes_past_the_cap_passes: "ignores_prefixes_past_the_cap = Ok ()"
proof -
  have "length (map capped_entry [0..<64]) = 64" by (simp only: length_map length_upt)
  then obtain pol where
    "policy_record_parse (''v=SWORN1; p='' @ join CHR '','' (map capped_entry [0..<64] @ [''not-a-prefix''])) = Ok pol"
    "length (pol_prefixes pol) = 64"
    using capped_policy [OF _ capped_entries_ok capped_entries_text] by blast
  then show ?thesis
    by (simp only: ignores_prefixes_past_the_cap_def MAX_POLICY_PREFIXES_def assert_that_def Let_def
        unwrap.simps and_then.simps simp_thms if_True)
qed

lemma join_snoc: "es \<noteq> [] \<Longrightarrow> join d (es @ [x]) = join d es @ d # x"
  by (induction d es rule: join.induct) auto

text \<open>The record of the test, with the entry that is no prefix and without it.\<close>

lemma policy_prefix_cap_witness:
  "\<exists>pol. policy_record_parse (''v=SWORN1; p='' @ join CHR '','' (map capped_entry [0..<64])) = Ok pol \<and>
     policy_record_parse (''v=SWORN1; p='' @ join CHR '','' (map capped_entry [0..<64] @ [''not-a-prefix''])) = Ok pol \<and>
     length (pol_prefixes pol) = 64"
proof -
  define es where "es = map capped_entry [0..<64]"
  have n: "length es = 64" unfolding es_def by (simp only: length_map length_upt)
  then have ne: "es \<noteq> []" by auto
  have j: "list_all entry_text (es @ [''not-a-prefix''])" unfolding es_def by (rule capped_entries_text)
  then have t: "list_all entry_text es" by simp
  obtain pol where pol: "policy_record_parse (''v=SWORN1; p='' @ join CHR '','' (es @ [])) = Ok pol"
    using capped_policy [of es "[]"] n t capped_entries_ok unfolding es_def [symmetric] by auto
  have "parse_tags (''v=SWORN1; p='' @ join CHR '','' es) = Ok ([(''v'', ''SWORN1'')] @ (''p'', join CHR '','' es) # [])"
    "parse_tags (''v=SWORN1; p='' @ join CHR '','' (es @ [''not-a-prefix''])) =
       Ok ([(''v'', ''SWORN1'')] @ (''p'', join CHR '','' es @ '','' @ ''not-a-prefix'') # [])"
    using entry_tags(1) [OF ne t] entry_tags(1) [OF _ j] by (simp_all add: join_snoc [OF ne])
  from policy_prefix_cap [OF this, of pol] show ?thesis
    using pol n unfolding es_def [symmetric] by (simp add: entry_tags(2) [OF ne t])
qed

section \<open>Tests of \<open>src/payload.rs\<close>\<close>

definition accepts_ordinary_operator_domains :: "(unit, unit) result" where
  "accepts_ordinary_operator_domains =
     assert_all [is_operator_domain ''mailer.example.com'',
       is_operator_domain ''xn--80ak6aa92e.example'', is_operator_domain ''a'']"

definition rejects_injection_and_malformed_domains :: "(unit, unit) result" where
  "rejects_injection_and_malformed_domains =
     for_each (\<lambda>s. assert_that (\<not> is_operator_domain s))
       [[], ''x.example.com'' @ [CHR 0x0D, CHR 0x0A] @ ''QUIT'', ''evil.example.com..'', ''.example.com'',
        ''example.com.'', ''*.example.com'', ''-bad.example.com'', ''bad-.example.com'', ''exa mple.com'',
        ''ex'' @ [CHR 0xC3, CHR 0xA4] @ ''mple.com'', ''under_score.example.com'',
        ''x.example.com'' @ [CHR 0x00]]"

definition rejects_oversized_domain :: "(unit, unit) result" where
  "rejects_oversized_domain =
     (let long_label = replicate 64 CHR ''a'';
          long_domain = join CHR ''.'' (replicate 5 (replicate 60 CHR ''a''))
      in assert_all [\<not> is_operator_domain (long_label @ ''.example.com''),
           253 < length long_domain, \<not> is_operator_domain long_domain])"

lemma accepts_ordinary_operator_domains_passes: "accepts_ordinary_operator_domains = Ok ()"
  by code_simp

lemma rejects_injection_and_malformed_domains_passes:
  "rejects_injection_and_malformed_domains = Ok ()"
  by code_simp

lemma rejects_oversized_domain_passes: "rejects_oversized_domain = Ok ()"
  by code_simp

section \<open>Tests of \<open>src/token.rs\<close>\<close>

definition accepts_conforming_selectors :: "(unit, unit) result" where
  "accepts_conforming_selectors =
     assert_all [selector_from_kid (bytes_of_string ''2026a'') = Some ''2026a'',
       selector_from_kid (bytes_of_string ''a-b'') = Some ''a-b'',
       map_option length (selector_from_kid (replicate 63 97)) = Some 63]"

definition rejects_non_label_selectors :: "(unit, unit) result" where
  "rejects_non_label_selectors =
     assert_all [selector_from_kid [] = None, selector_from_kid (replicate 64 97) = None,
       selector_from_kid (bytes_of_string ''-lead'') = None,
       selector_from_kid (bytes_of_string ''trail-'') = None,
       selector_from_kid (bytes_of_string ''two.labels'') = None,
       selector_from_kid (bytes_of_string ''under_score'') = None,
       selector_from_kid (bytes_of_string (''sel'' @ [CHR 0xC3, CHR 0xA9])) = None]"

lemma accepts_conforming_selectors_passes: "accepts_conforming_selectors = Ok ()"
  by code_simp

lemma rejects_non_label_selectors_passes: "rejects_non_label_selectors = Ok ()"
  by code_simp

end
