(* ===== verification/Sworn_Conformance.thy ===== *)
theory Sworn_Conformance
  imports Sworn_Tests
begin

text \<open>
  Tokens and records of the frozen vector file \<open>tests/testdata/v1.json\<close>, evaluated in the logic with
  the codec, the base64 decoder and the curve library of \<open>Sworn_Vectors\<close> and \<open>Sworn_Tests\<close>: what the
  valid token gives from every source at every time, tokens refused at different stages, the
  policies of the authorization cases, and records on which the comments say less than the code
  does. The test harness itself is in \<open>Sworn_Harness\<close>.
\<close>

section \<open>The valid token, from any source at any time\<close>

lemma doc_stages:
  "cose_parse example_lib doc_token = Ok doc_cose"
  "check_headers doc_cose = Ok ''2026a''"
  "decode_cbor example_lib (cs_payload doc_cose) = Ok (Map doc_entries)"
  "reject_tagged_fields example_lib (cs_payload doc_cose) = Ok ()"
  "to_be_signed example_lib doc_cose = Ok doc_tbs"
  by code_simp+

lemma doc_parse_eval:
  "parse_excluding example_lib doc_token source now ineligible =
     (if \<not> is_eligible_source source \<or> list_ex (\<lambda>p. contains p source) ineligible
      then Err IneligibleSource
      else if sint now < 0x6a78a400 - 300 then Err NotYetValid
      else if 0x6a78b210 + 300 < sint now then Err Expired
      else if \<not> contains doc_prefix source then Err OffPrefix
      else Ok (doc_unverified\<lparr>uv_unit := source_unit source 64,
             uv_observed_unit := source_unit source 64\<rparr>))"
proof -
  have "cs_signature doc_cose = doc_signature" by (simp add: doc_cose_def)
  then show ?thesis
    unfolding parse_excluding_def
    by (simp add: doc_stages doc_payload_accepted doc_payload_def doc_unverified_def prefix_new_def
        source_unit_def MAX_TOKEN_LEN_def doc_token_length SKEW_SECS_def OBSERVED_UNIT_LEN_def)
qed

lemma source_texts:
  "parse_ipv6 ''2001:db8:f00::'' = Some 0x20010db80f0000000000000000000000"
  "parse_ipv6 ''2001:db8:f00:ffff:ffff:ffff:ffff:ffff'' = Some 0x20010db80f00ffffffffffffffffffff"
  "parse_ipv6 ''2001:db8:f01::a:1'' = Some 0x20010db80f01000000000000000a0001"
  "parse_ipv6 ''2002:c000:0204::1'' = Some 0x2002c000020400000000000000000001"
  by code_simp+

section \<open>Tokens of the vector file\<close>

text \<open>
  Tokens that different stages refuse, with the reason the file expects, at the source and time
  of the valid token: the COSE tag, the header rules, the payload map, its fields and tags, and
  the window beyond the range of a signed 64-bit time.
\<close>

definition untagged_cose :: "u8 list" where
  "untagged_cose = map of_nat
     [132, 88, 41, 163, 1, 39, 3, 120, 28, 97, 112, 112, 108, 105, 99, 97, 116, 105, 111,
      110, 47, 115, 119, 111, 114, 110, 45, 116, 111, 107, 101, 110, 43, 99, 98, 111, 114,
      4, 69, 50, 48, 50, 54, 97, 160, 88, 60, 166, 1, 114, 109, 97, 105, 108, 101, 114, 46,
      101, 120, 97, 109, 112, 108, 101, 46, 99, 111, 109, 2, 81, 32, 1, 13, 184, 15, 0, 0,
      0, 0, 0, 0, 0, 0, 0, 0, 0, 48, 3, 24, 64, 4, 26, 106, 120, 164, 0, 5, 26, 106, 120,
      178, 16, 6, 99, 109, 116, 97, 88, 64, 241, 169, 114, 173, 125, 231, 111, 222, 63, 249,
      21, 84, 45, 202, 27, 158, 172, 236, 250, 16, 61, 76, 49, 142, 138, 11, 62, 192, 47,
      215, 111, 200, 7, 111, 140, 203, 26, 37, 217, 190, 205, 233, 108, 51, 199, 71, 71,
      236, 224, 223, 172, 179, 71, 154, 37, 169, 238, 122, 117, 229, 148, 104, 48, 4]"

definition missing_content_type :: "u8 list" where
  "missing_content_type = map of_nat
     [210, 132, 74, 162, 1, 39, 4, 69, 50, 48, 50, 54, 97, 160, 88, 60, 166, 1, 114, 109,
      97, 105, 108, 101, 114, 46, 101, 120, 97, 109, 112, 108, 101, 46, 99, 111, 109, 2, 81,
      32, 1, 13, 184, 15, 0, 0, 0, 0, 0, 0, 0, 0, 0, 0, 0, 48, 3, 24, 64, 4, 26, 106, 120,
      164, 0, 5, 26, 106, 120, 178, 16, 6, 99, 109, 116, 97, 88, 64, 39, 49, 31, 60, 7, 46,
      248, 245, 51, 254, 0, 68, 94, 218, 99, 220, 168, 187, 64, 21, 71, 170, 164, 160, 200,
      217, 18, 233, 49, 137, 8, 68, 20, 108, 214, 134, 233, 192, 141, 29, 50, 200, 227, 77,
      218, 231, 224, 208, 236, 71, 75, 244, 11, 129, 201, 241, 14, 77, 235, 162, 246, 118,
      167, 0]"

definition missing_kid :: "u8 list" where
  "missing_kid = map of_nat
     [210, 132, 88, 34, 162, 1, 39, 3, 120, 28, 97, 112, 112, 108, 105, 99, 97, 116, 105,
      111, 110, 47, 115, 119, 111, 114, 110, 45, 116, 111, 107, 101, 110, 43, 99, 98, 111,
      114, 160, 88, 60, 166, 1, 114, 109, 97, 105, 108, 101, 114, 46, 101, 120, 97, 109,
      112, 108, 101, 46, 99, 111, 109, 2, 81, 32, 1, 13, 184, 15, 0, 0, 0, 0, 0, 0, 0, 0, 0,
      0, 0, 48, 3, 24, 64, 4, 26, 106, 120, 164, 0, 5, 26, 106, 120, 178, 16, 6, 99, 109,
      116, 97, 88, 64, 57, 49, 14, 180, 140, 80, 138, 80, 111, 242, 202, 163, 38, 230, 122,
      91, 207, 167, 248, 195, 82, 65, 149, 18, 145, 54, 187, 190, 198, 67, 23, 27, 171, 101,
      137, 161, 228, 208, 141, 13, 45, 47, 232, 83, 45, 64, 21, 75, 39, 37, 219, 134, 146,
      227, 228, 177, 36, 120, 144, 174, 184, 223, 48, 1]"

definition crit_present :: "u8 list" where
  "crit_present = map of_nat
     [210, 132, 88, 49, 165, 1, 39, 2, 129, 24, 99, 3, 120, 28, 97, 112, 112, 108, 105, 99,
      97, 116, 105, 111, 110, 47, 115, 119, 111, 114, 110, 45, 116, 111, 107, 101, 110, 43,
      99, 98, 111, 114, 4, 69, 50, 48, 50, 54, 97, 24, 99, 97, 120, 160, 88, 60, 166, 1,
      114, 109, 97, 105, 108, 101, 114, 46, 101, 120, 97, 109, 112, 108, 101, 46, 99, 111,
      109, 2, 81, 32, 1, 13, 184, 15, 0, 0, 0, 0, 0, 0, 0, 0, 0, 0, 0, 48, 3, 24, 64, 4, 26,
      106, 120, 164, 0, 5, 26, 106, 120, 178, 16, 6, 99, 109, 116, 97, 88, 64, 59, 212, 79,
      51, 216, 232, 105, 147, 135, 180, 43, 61, 171, 183, 249, 8, 147, 95, 151, 37, 102,
      188, 138, 170, 236, 137, 76, 76, 243, 212, 134, 5, 75, 181, 169, 175, 107, 110, 40,
      74, 120, 213, 249, 72, 197, 37, 237, 23, 25, 174, 55, 248, 45, 95, 35, 115, 51, 248,
      182, 63, 136, 236, 170, 3]"

definition non_canonical_prefix :: "u8 list" where
  "non_canonical_prefix = map of_nat
     [210, 132, 88, 41, 163, 1, 39, 3, 120, 28, 97, 112, 112, 108, 105, 99, 97, 116, 105,
      111, 110, 47, 115, 119, 111, 114, 110, 45, 116, 111, 107, 101, 110, 43, 99, 98, 111,
      114, 4, 69, 50, 48, 50, 54, 97, 160, 88, 60, 166, 1, 114, 109, 97, 105, 108, 101, 114,
      46, 101, 120, 97, 109, 112, 108, 101, 46, 99, 111, 109, 2, 81, 32, 1, 13, 184, 15, 0,
      222, 173, 0, 0, 0, 0, 0, 0, 0, 0, 48, 3, 24, 64, 4, 26, 106, 120, 164, 0, 5, 26, 106,
      120, 178, 16, 6, 99, 109, 116, 97, 88, 64, 143, 111, 194, 57, 92, 38, 254, 27, 102,
      17, 209, 74, 111, 254, 109, 66, 242, 192, 5, 177, 235, 92, 14, 93, 168, 13, 23, 238,
      172, 16, 171, 114, 127, 128, 248, 175, 150, 191, 12, 185, 27, 64, 114, 95, 72, 112,
      198, 64, 173, 233, 224, 112, 223, 54, 80, 8, 205, 74, 2, 200, 203, 148, 83, 8]"

definition lifetime_over_cap :: "u8 list" where
  "lifetime_over_cap = map of_nat
     [210, 132, 88, 41, 163, 1, 39, 3, 120, 28, 97, 112, 112, 108, 105, 99, 97, 116, 105,
      111, 110, 47, 115, 119, 111, 114, 110, 45, 116, 111, 107, 101, 110, 43, 99, 98, 111,
      114, 4, 69, 50, 48, 50, 54, 97, 160, 88, 60, 166, 1, 114, 109, 97, 105, 108, 101, 114,
      46, 101, 120, 97, 109, 112, 108, 101, 46, 99, 111, 109, 2, 81, 32, 1, 13, 184, 15, 0,
      0, 0, 0, 0, 0, 0, 0, 0, 0, 0, 48, 3, 24, 64, 4, 26, 106, 120, 164, 0, 5, 26, 106, 121,
      245, 129, 6, 99, 109, 116, 97, 88, 64, 78, 29, 116, 221, 153, 27, 218, 123, 31, 232,
      110, 47, 138, 200, 238, 85, 233, 84, 98, 51, 155, 126, 6, 78, 239, 37, 232, 14, 108,
      87, 128, 32, 63, 215, 30, 30, 172, 200, 230, 63, 215, 192, 74, 246, 3, 36, 94, 224,
      108, 246, 180, 170, 147, 152, 145, 132, 159, 34, 71, 85, 125, 70, 200, 12]"

definition duplicate_map_key :: "u8 list" where
  "duplicate_map_key = map of_nat
     [210, 132, 88, 41, 163, 1, 39, 3, 120, 28, 97, 112, 112, 108, 105, 99, 97, 116, 105,
      111, 110, 47, 115, 119, 111, 114, 110, 45, 116, 111, 107, 101, 110, 43, 99, 98, 111,
      114, 4, 69, 50, 48, 50, 54, 97, 160, 88, 76, 166, 1, 114, 109, 97, 105, 108, 101, 114,
      46, 101, 120, 97, 109, 112, 108, 101, 46, 99, 111, 109, 2, 81, 32, 1, 13, 184, 15, 0,
      0, 0, 0, 0, 0, 0, 0, 0, 0, 0, 48, 2, 81, 32, 1, 13, 184, 15, 1, 0, 0, 0, 0, 0, 0, 0,
      0, 0, 0, 48, 4, 26, 106, 120, 164, 0, 5, 26, 106, 120, 178, 16, 6, 99, 109, 116, 97,
      88, 64, 124, 216, 209, 22, 10, 127, 150, 93, 83, 232, 198, 21, 82, 229, 101, 149, 117,
      22, 13, 45, 183, 217, 190, 52, 117, 89, 166, 128, 117, 170, 84, 182, 8, 238, 32, 232,
      27, 147, 138, 248, 216, 60, 23, 144, 171, 65, 181, 55, 89, 214, 97, 176, 138, 92, 133,
      95, 132, 227, 136, 56, 239, 241, 62, 7]"

definition operator_tagged :: "u8 list" where
  "operator_tagged = map of_nat
     [210, 132, 88, 41, 163, 1, 39, 3, 120, 28, 97, 112, 112, 108, 105, 99, 97, 116, 105,
      111, 110, 47, 115, 119, 111, 114, 110, 45, 116, 111, 107, 101, 110, 43, 99, 98, 111,
      114, 4, 69, 50, 48, 50, 54, 97, 160, 88, 62, 166, 1, 216, 32, 114, 109, 97, 105, 108,
      101, 114, 46, 101, 120, 97, 109, 112, 108, 101, 46, 99, 111, 109, 2, 81, 32, 1, 13,
      184, 15, 0, 0, 0, 0, 0, 0, 0, 0, 0, 0, 0, 48, 3, 24, 64, 4, 26, 106, 120, 164, 0, 5,
      26, 106, 120, 178, 16, 6, 99, 109, 116, 97, 88, 64, 91, 104, 22, 237, 139, 22, 57, 77,
      83, 148, 232, 177, 96, 239, 151, 61, 58, 7, 50, 141, 149, 181, 49, 50, 193, 104, 21,
      136, 160, 135, 96, 162, 252, 60, 112, 6, 112, 7, 52, 252, 25, 106, 101, 163, 206, 222,
      133, 68, 35, 124, 57, 50, 197, 142, 238, 206, 139, 28, 2, 31, 156, 65, 171, 7]"

definition iat_beyond_int64 :: "u8 list" where
  "iat_beyond_int64 = map of_nat
     [210, 132, 88, 41, 163, 1, 39, 3, 120, 28, 97, 112, 112, 108, 105, 99, 97, 116, 105,
      111, 110, 47, 115, 119, 111, 114, 110, 45, 116, 111, 107, 101, 110, 43, 99, 98, 111,
      114, 4, 69, 50, 48, 50, 54, 97, 160, 88, 68, 166, 1, 114, 109, 97, 105, 108, 101, 114,
      46, 101, 120, 97, 109, 112, 108, 101, 46, 99, 111, 109, 2, 81, 32, 1, 13, 184, 15, 0,
      0, 0, 0, 0, 0, 0, 0, 0, 0, 0, 48, 3, 24, 64, 4, 27, 128, 0, 0, 0, 0, 0, 0, 100, 5, 27,
      128, 0, 0, 0, 0, 0, 14, 116, 6, 99, 109, 116, 97, 88, 64, 6, 10, 249, 128, 81, 96,
      127, 53, 140, 143, 70, 227, 91, 169, 65, 163, 61, 200, 109, 34, 12, 185, 96, 70, 170,
      194, 247, 248, 118, 68, 164, 16, 49, 132, 131, 122, 131, 148, 51, 219, 28, 56, 57,
      176, 120, 81, 0, 130, 217, 220, 62, 94, 36, 45, 211, 13, 219, 114, 25, 211, 248, 96,
      130, 7]"

lemma untagged_cose_case:
  "reason_str (parse example_lib untagged_cose doc_source doc_now) = ''malformed''"
  by code_simp

lemma missing_content_type_case:
  "reason_str (parse example_lib missing_content_type doc_source doc_now) = ''bad_content_type''"
  by code_simp

lemma missing_kid_case:
  "reason_str (parse example_lib missing_kid doc_source doc_now) = ''bad_kid''"
  by code_simp

lemma crit_present_case:
  "reason_str (parse example_lib crit_present doc_source doc_now) = ''header_confusion''"
  by code_simp

lemma non_canonical_prefix_case:
  "reason_str (parse example_lib non_canonical_prefix doc_source doc_now) = ''bad_prefix''"
  by code_simp

lemma lifetime_over_cap_case:
  "reason_str (parse example_lib lifetime_over_cap doc_source doc_now) = ''lifetime_too_long''"
  by code_simp

lemma duplicate_map_key_case:
  "reason_str (parse example_lib duplicate_map_key doc_source doc_now) = ''malformed''"
  by code_simp

lemma operator_tagged_case:
  "reason_str (parse example_lib operator_tagged doc_source doc_now) = ''malformed''"
  by code_simp

lemma iat_beyond_int64_case:
  "reason_str (parse example_lib iat_beyond_int64 doc_source doc_now) = ''not_yet_valid''"
  by code_simp

section \<open>Records of the authorization cases\<close>

text \<open>The policies of the cases, as the parser reads them.\<close>

abbreviation policy_of :: "u128 \<Rightarrow> u8 \<Rightarrow> u8 \<Rightarrow> bool \<Rightarrow> policy_record" where
  "policy_of a l u t \<equiv>
     \<lparr>pol_prefixes = [\<lparr>pfx_addr = a, pfx_len = l\<rparr>], pol_unit = u, pol_testing = t, pol_rua = None\<rparr>"

lemma committed_policies:
  "policy_record_parse ''v=SWORN1; p=2001:db8:f00::/48; u=64'' =
     Ok (policy_of 0x20010db80f0000000000000000000000 48 64 False)"
  "policy_record_parse ''v=SWORN1; p=2001:db8::/32; u=64'' =
     Ok (policy_of 0x20010db8000000000000000000000000 32 64 False)"
  "policy_record_parse ''v=SWORN1; p=2001:db8:f00::/48'' =
     Ok (policy_of 0x20010db80f0000000000000000000000 48 64 False)"
  "policy_record_parse ''v=SWORN1; p=2001:db8:f00::/48; u=64; t=y'' =
     Ok (policy_of 0x20010db80f0000000000000000000000 48 64 True)"
  by code_simp+

lemma other_policies:
  "policy_record_parse ''v=SWORN1; p=2001:db8:f00:1200::/56; u=64'' =
     Ok (policy_of 0x20010db80f0012000000000000000000 56 64 False)"
  "policy_record_parse ''v=SWORN1; p=2001:db8:bad::/48; u=64'' =
     Ok (policy_of 0x20010db80bad00000000000000000000 48 64 False)"
  "policy_record_parse ''v=SWORN1; p=2001:db8:f00::/48; u=56'' =
     Ok (policy_of 0x20010db80f0000000000000000000000 48 56 False)"
  "policy_record_parse ''v=SWORN1; u=64'' =
     Ok \<lparr>pol_prefixes = [], pol_unit = 64, pol_testing = False, pol_rua = None\<rparr>"
  by code_simp+

lemma outside_source_text: "parse_ipv6 ''2001:db8:bad::1'' = Some 0x20010db80bad00000000000000000001"
  by code_simp

lemma doc_unit_display: "prefix_display (source_unit doc_source 64) = ''2001:db8:f00:1234::/64''"
  by code_simp

lemma doc_unit_text [simp]:
  "prefix_display (source_unit 0x20010db80f00123400000000000a0001 64) = ''2001:db8:f00:1234::/64''"
  using doc_unit_display by (simp add: doc_source_def)

lemmas evaluation = parse_def doc_parse_eval is_eligible_source_code contains_code doc_prefix_def PASS_def
  verify_def verify_signature_def finish_signature_def authorize_def authorizes_def
  is_attestable_code doc_unverified_def doc_payload_def

lemma reported_policy:
  "policy_record_parse ''v=SWORN1; p=2001:db8:f00::/48; u=64; t=y; rua=mailto:a@b.example'' =
     Ok \<lparr>pol_prefixes = [\<lparr>pfx_addr = 0x20010db80f0000000000000000000000, pfx_len = 48\<rparr>],
       pol_unit = 64, pol_testing = True, pol_rua = Some ''mailto:a@b.example''\<rparr>"
  by code_simp

lemma configured_texts:
  "parse_ipv6 ''2001:db8:f00:abcd::1'' = Some 0x20010db80f00abcd0000000000000001"
  "prefix_from_str ''2001:db8:f00:1234::/64'' =
     Ok \<lparr>pfx_addr = 0x20010db80f0012340000000000000000, pfx_len = 64\<rparr>"
  by code_simp+

lemma source_unit_len [simp]: "pfx_len (source_unit a l) = l"
  by (simp add: source_unit_def)

section \<open>Where the comments say less than the code does\<close>

text \<open>
  \<open>NotSworn\<close> is documented as "does not begin with v=SWORN1". Empty segments before the tag are
  skipped, and a record that does not begin with it is malformed when another rule is broken first.
\<close>

lemma leading_empty_segments:
  "parse_tags '' ;; v = SWORN1'' = Ok [(''v'', ''SWORN1'')]"
  "parse_tags ''junk'' = Err MalformedTag"
  "parse_tags ''k=a;k=b'' = Err DuplicateTag"
  by code_simp+

text \<open>\<open>MalformedTag\<close> also covers an empty name and an octet outside printable ASCII, in any place.\<close>

lemma malformed_tag_cases:
  "parse_tags ''v=SWORN1; =x'' = Err MalformedTag"
  "parse_tags (''v=SWORN1; x=a'' @ [CHR 0x7F]) = Err MalformedTag"
  by code_simp+

text \<open>\<open>HeaderConfusion\<close> is also the reason when no algorithm is given at all.\<close>

lemma missing_algorithm:
  "check_headers (doc_cose\<lparr>cs_protected := tl (cs_protected doc_cose)\<rparr>) = Err HeaderConfusion"
  by code_simp

end
