(* ===== verification/Sworn_Harness.thy ===== *)
theory Sworn_Harness
  imports Sworn_Conformance
begin

text \<open>
  \<open>tests/vectors.rs\<close>: the harness that runs the crate on the frozen vectors. Each test is a function
  of the JSON value of the file, the libraries and, where it looks at the file system, of what is
  there; \<open>Ok ()\<close> means that it passes and \<open>Panic\<close> that an assertion fails. The tests are then
  evaluated on an excerpt of the file: every token case on the valid token, all record cases, all
  authorization cases, and the scenarios. Left out are the token cases on other tokens (a good part
  of which is evaluated in \<open>Sworn_Conformance\<close>), as many depend on the arithmetic of the curve.
\<close>

section \<open>JSON values\<close>

text \<open>
  \<open>serde_json::Value\<close>. Its parser is not part of the repository; the accessors are the ones the
  harness calls. The numbers of the vector file are integers.
\<close>

datatype json =
    JNull
  | JBool bool
  | JNumber int
  | JString string
  | JArray "json list"
  | JObject "(string \<times> json) list"

fun as_string :: "json \<Rightarrow> string option" where
  "as_string (JString s) = Some s"
| "as_string _ = None"

fun as_array :: "json \<Rightarrow> json list option" where
  "as_array (JArray js) = Some js"
| "as_array _ = None"

fun as_bool :: "json \<Rightarrow> bool option" where
  "as_bool (JBool b) = Some b"
| "as_bool _ = None"

fun as_i64 :: "json \<Rightarrow> i64 option" where
  "as_i64 (JNumber i) = (if - (2 ^ 63) \<le> i \<and> i < 2 ^ 63 then Some (word_of_int i) else None)"
| "as_i64 _ = None"

text \<open>\<open>get\<close> finds a member; indexing gives \<open>Null\<close> where there is none.\<close>

fun json_get :: "json \<Rightarrow> string \<Rightarrow> json option" where
  "json_get (JObject members) key = map_of members key"
| "json_get _ key = None"

definition json_at :: "json \<Rightarrow> string \<Rightarrow> json" where
  "json_at j key = (case json_get j key of Some v \<Rightarrow> v | None \<Rightarrow> JNull)"

definition expect_str :: "json \<Rightarrow> string \<Rightarrow> (string, unit) result" where
  "expect_str j key = expect (as_string (json_at j key))"

section \<open>The vector file\<close>

text \<open>The libraries the harness itself calls: \<open>hex\<close> and the two \<open>base64\<close> engines.\<close>

record test_lib =
  tl_hex_decode :: "string \<Rightarrow> u8 list option"
  tl_hex_encode :: "u8 list \<Rightarrow> string"
  tl_url_safe :: "string \<Rightarrow> u8 list option"
  tl_standard :: "string \<Rightarrow> u8 list option"

definition SPEC :: string where "SPEC = ''draft-kafedzhy-swornmail-01''"

text \<open>The variable \<open>SWORN_VECTORS\<close>, the directory of the crate, and which files exist.\<close>

definition vectors_path :: "string option \<Rightarrow> string \<Rightarrow> (string \<Rightarrow> bool) \<Rightarrow> string" where
  "vectors_path env manifest exists =
     (case env of
        Some path \<Rightarrow> path
      | None \<Rightarrow>
          let shared = manifest @ ''/../swornmail-spec/test-vectors/v1.json''
          in if exists shared then shared else manifest @ ''/tests/testdata/v1.json'')"

definition vectors :: "(string \<Rightarrow> string option) \<Rightarrow> (string \<Rightarrow> json option) \<Rightarrow> string \<Rightarrow> (json, unit) result" where
  "vectors read_file from_str path =
     and_then (expect (read_file path)) (\<lambda>content.
     and_then (expect (from_str content)) (\<lambda>json.
     and_then (assert_that (as_string (json_at json ''spec'') = Some SPEC)) (\<lambda>_.
     Ok json)))"

definition operator_key :: "test_lib \<Rightarrow> 'k dalek \<Rightarrow> json \<Rightarrow> ('k ed25519_public_key, unit) result" where
  "operator_key L d json =
     and_then (expect_str json ''ed25519_public_hex'') (\<lambda>hex.
     and_then (expect (tl_hex_decode L hex)) (\<lambda>raw.
     expect (key_from_bytes d raw)))"

definition token_bytes :: "test_lib \<Rightarrow> json \<Rightarrow> (u8 list, unit) result" where
  "token_bytes L entry =
     and_then (expect_str entry ''token_b64url'') (\<lambda>wire.
     and_then (expect (tl_url_safe L wire)) (\<lambda>token.
     and_then (expect_str entry ''token_hex'') (\<lambda>hex.
     and_then (assert_that (tl_hex_encode L token = hex)) (\<lambda>_.
     and_then (expect_str entry ''token_b64std'') (\<lambda>std.
     and_then (expect (tl_standard L std)) (\<lambda>token'.
     and_then (assert_that (token = token')) (\<lambda>_.
     Ok token)))))))"

definition case_source :: "json \<Rightarrow> (ipv6_addr, unit) result" where
  "case_source entry = and_then (expect_str entry ''source_ip'') (\<lambda>s. expect (parse_ipv6 s))"

definition case_now :: "json \<Rightarrow> (i64, unit) result" where
  "case_now entry = expect (as_i64 (json_at entry ''now_unix''))"

text \<open>\<open>cases.iter().find(|c| c["name"] == name)\<close>.\<close>

definition named_case :: "json \<Rightarrow> string \<Rightarrow> (json, unit) result" where
  "named_case json name =
     and_then (expect (as_array (json_at json ''cases''))) (\<lambda>cases.
     expect (find (\<lambda>c. json_at c ''name'' = JString name) cases))"

section \<open>Token cases\<close>

text \<open>A test that holds on to a \<open>Result\<close> goes on with it as a value; a panic ends the test.\<close>

fun settled :: "('a, 'e) result \<Rightarrow> (('a, 'e) result, unit) result" where
  "settled Panic = Panic"
| "settled r = Ok r"

fun collect :: "('a, 'e) result list \<Rightarrow> ('a list, 'e) result" where
  "collect [] = Ok []"
| "collect (r # rs) = and_then r (\<lambda>x. and_then (collect rs) (\<lambda>xs. Ok (x # xs)))"

definition token_case_key ::
  "test_lib \<Rightarrow> 'k dalek \<Rightarrow> 'k ed25519_public_key \<Rightarrow> json \<Rightarrow> ('k ed25519_public_key, unit) result" where
  "token_case_key L d key entry =
     (case json_get entry ''public_key_hex'' of
        None \<Rightarrow> Ok key
      | Some hex_key \<Rightarrow>
          and_then (expect (as_string hex_key)) (\<lambda>hex.
          and_then (expect (tl_hex_decode L hex)) (\<lambda>raw.
          expect (key_from_bytes d raw))))"

definition reason_expected :: "json \<Rightarrow> string \<Rightarrow> (unit, unit) result" where
  "reason_expected entry got =
     (case (json_get entry ''expect'', json_get entry ''expect_any'') of
        (Some want, None) \<Rightarrow> and_then (expect (as_string want)) (\<lambda>want. assert_that (got = want))
      | (None, Some any) \<Rightarrow>
          and_then (expect (as_array any)) (\<lambda>any.
          and_then (collect (map (\<lambda>v. expect (as_string v)) any)) (\<lambda>want.
          assert_that (got \<in> set want)))
      | _ \<Rightarrow> Panic)"

text \<open>A member that a case may have, compared with what was found.\<close>

definition member_agrees :: "json \<Rightarrow> string \<Rightarrow> string \<Rightarrow> (unit, unit) result" where
  "member_agrees entry key found =
     (case json_get entry key of
        None \<Rightarrow> Ok ()
      | Some want \<Rightarrow> and_then (expect (as_string want)) (\<lambda>want. assert_that (found = want)))"

definition token_case ::
  "test_lib \<Rightarrow> cbor_lib \<Rightarrow> 'k dalek \<Rightarrow> 'k ed25519_public_key \<Rightarrow> json \<Rightarrow> (unit, unit) result" where
  "token_case L lib d key entry =
     and_then (expect_str entry ''name'') (\<lambda>_.
     and_then (token_bytes L entry) (\<lambda>token.
     and_then (case_source entry) (\<lambda>source.
     and_then (case_now entry) (\<lambda>now.
     and_then (token_case_key L d key entry) (\<lambda>case_key.
     and_then (settled (verify_signature_only lib d token case_key source now)) (\<lambda>outcome.
     and_then (reason_expected entry (reason_str outcome)) (\<lambda>_.
     case outcome of
       Ok v \<Rightarrow>
         and_then (member_agrees entry ''operator'' (vf_operator v)) (\<lambda>_.
         member_agrees entry ''unit'' (prefix_display (vf_unit v)))
     | _ \<Rightarrow> Ok ())))))))"

definition token_cases_match_vectors ::
  "test_lib \<Rightarrow> cbor_lib \<Rightarrow> 'k dalek \<Rightarrow> json \<Rightarrow> (unit, unit) result" where
  "token_cases_match_vectors L lib d json =
     and_then (operator_key L d json) (\<lambda>key.
     and_then (expect (as_array (json_at json ''cases''))) (\<lambda>cases.
     and_then (assert_that (62 \<le> length cases)) (\<lambda>_.
     for_each (token_case L lib d key) cases)))"

section \<open>Record cases\<close>

definition record_case ::
  "(string \<Rightarrow> u8 list option) \<Rightarrow> 'k dalek \<Rightarrow> json \<Rightarrow> (unit, unit) result" where
  "record_case b64 d record =
     and_then (expect_str record ''name'') (\<lambda>_.
     and_then (expect_str record ''txt'') (\<lambda>content.
     and_then (expect_str record ''kind'') (\<lambda>kind.
     and_then
       (if kind = ''key'' then settled (and_then (map_err record_error_display (key_record_parse b64 d content)) (\<lambda>_. Ok ()))
        else if kind = ''policy'' then settled (and_then (map_err record_error_display (policy_record_parse content)) (\<lambda>_. Ok ()))
        else Panic) (\<lambda>outcome.
     and_then (expect_str record ''expect'') (\<lambda>want.
     if want = ''ok'' then assert_that (is_ok outcome)
     else if want = ''error'' then assert_that (is_err outcome)
     else Panic)))))"

definition record_cases_match_vectors ::
  "(string \<Rightarrow> u8 list option) \<Rightarrow> 'k dalek \<Rightarrow> json \<Rightarrow> (unit, unit) result" where
  "record_cases_match_vectors b64 d json =
     and_then (expect (as_array (json_at json ''records''))) (\<lambda>records.
     and_then (assert_that (14 \<le> length records)) (\<lambda>_.
     for_each (record_case b64 d) records))"

section \<open>Scenarios on the valid token\<close>

definition two_phase_flow_names_the_key_record ::
  "test_lib \<Rightarrow> cbor_lib \<Rightarrow> 'k dalek \<Rightarrow> json \<Rightarrow> (unit, unit) result" where
  "two_phase_flow_names_the_key_record L lib d json =
     and_then (named_case json ''valid_in_prefix'') (\<lambda>entry.
     and_then (token_bytes L entry) (\<lambda>token.
     and_then (case_source entry) (\<lambda>source.
     and_then (case_now entry) (\<lambda>now.
     and_then (unwrap (parse lib token source now)) (\<lambda>pending.
     and_then (expect_str json ''policy_record'') (\<lambda>record.
     and_then (unwrap (policy_record_parse record)) (\<lambda>policy.
     and_then (expect_str json ''policy_record_qname'') (\<lambda>qname.
     and_then (assert_that (''_prefixes._sworn.'' @ unverified_operator pending = qname)) (\<lambda>_.
     and_then (unwrap (authorize pending policy)) (\<lambda>authorized.
     and_then (expect_str json ''key_record_qname'') (\<lambda>qname.
     and_then (assert_that
       (authorized_selector authorized @ ''._sworn.'' @ authorized_operator authorized = qname)) (\<lambda>_.
     and_then (operator_key L d json) (\<lambda>key.
     and_then (unwrap (verify_signature d authorized key)) (\<lambda>outcome.
     and_then (case outcome of Pass v \<Rightarrow> Ok v | ObserveOnly _ \<Rightarrow> Panic) (\<lambda>verified.
     and_then (expect_str entry ''unit'') (\<lambda>unit.
     and_then (assert_that (prefix_display (vf_unit verified) = unit)) (\<lambda>_.
     assert_that (outcome_auth_result outcome = ''pass''))))))))))))))))))"

definition policy_authorization_blocks_key_only_impersonation ::
  "test_lib \<Rightarrow> cbor_lib \<Rightarrow> json \<Rightarrow> (unit, unit) result" where
  "policy_authorization_blocks_key_only_impersonation L lib json =
     and_then (named_case json ''valid_in_prefix'') (\<lambda>entry.
     and_then (token_bytes L entry) (\<lambda>token.
     and_then (case_source entry) (\<lambda>source.
     and_then (case_now entry) (\<lambda>now.
     and_then (unwrap (policy_record_parse ''v=SWORN1; p=2001:db8:bad::/48; u=64'')) (\<lambda>unrelated.
     and_then (unwrap (parse lib token source now)) (\<lambda>pending.
     and_then (assert_that (authorize pending unrelated = Err UnauthorizedPrefix)) (\<lambda>_.
     and_then (unwrap (policy_record_parse ''v=SWORN1; p=2001:db8:f00::/48; u=56'')) (\<lambda>wrong_unit.
     and_then (unwrap (parse lib token source now)) (\<lambda>pending.
     assert_that (authorize pending wrong_unit = Err PolicyUnitMismatch))))))))))"

definition testing_policy_can_never_be_reported_as_pass ::
  "test_lib \<Rightarrow> cbor_lib \<Rightarrow> 'k dalek \<Rightarrow> json \<Rightarrow> (unit, unit) result" where
  "testing_policy_can_never_be_reported_as_pass L lib d json =
     and_then (named_case json ''valid_in_prefix'') (\<lambda>entry.
     and_then (token_bytes L entry) (\<lambda>token.
     and_then (unwrap (policy_record_parse
       ''v=SWORN1; p=2001:db8:f00::/48; u=64; t=y; rua=mailto:a@b.example'')) (\<lambda>policy.
     and_then (operator_key L d json) (\<lambda>key.
     and_then (case_source entry) (\<lambda>source.
     and_then (case_now entry) (\<lambda>now.
     and_then (unwrap (verify lib d token key policy source now)) (\<lambda>outcome.
     and_then (case outcome of ObserveOnly v \<Rightarrow> Ok v | Pass _ \<Rightarrow> Panic) (\<lambda>verified.
     assert_all [outcome_auth_result outcome = ''none'', vf_testing verified,
       vf_rua verified = Some ''mailto:a@b.example'']))))))))"

definition a_coarse_declared_unit_does_not_widen_the_observed_unit ::
  "test_lib \<Rightarrow> cbor_lib \<Rightarrow> 'k dalek \<Rightarrow> json \<Rightarrow> (unit, unit) result" where
  "a_coarse_declared_unit_does_not_widen_the_observed_unit L lib d json =
     and_then (named_case json ''valid_in_prefix'') (\<lambda>entry.
     and_then (token_bytes L entry) (\<lambda>token.
     and_then (case_source entry) (\<lambda>source.
     and_then (case_now entry) (\<lambda>now.
     and_then (unwrap (policy_record_parse ''v=SWORN1; p=2001:db8:f00::/48; u=64'')) (\<lambda>policy.
     and_then (operator_key L d json) (\<lambda>key.
     and_then (unwrap (verify lib d token key policy source now)) (\<lambda>outcome.
     let verified = outcome_verified outcome in
     and_then (assert_that (pfx_len (vf_observed_unit verified) = OBSERVED_UNIT_LEN)) (\<lambda>_.
     and_then (expect_str entry ''unit'') (\<lambda>unit.
     assert_that (prefix_display (vf_observed_unit verified) = unit))))))))))"

text \<open>The canonical file and the snapshot, as texts; the test passes when there is only one of them.\<close>

definition vendored_snapshot_matches_canonical_vectors ::
  "(string \<Rightarrow> bool) \<Rightarrow> (string \<Rightarrow> string option) \<Rightarrow> string \<Rightarrow> (unit, unit) result" where
  "vendored_snapshot_matches_canonical_vectors exists read_file manifest =
     (let shared = manifest @ ''/../swornmail-spec/test-vectors/v1.json'' in
      if \<not> exists shared then Ok ()
      else
      let snapshot = manifest @ ''/tests/testdata/v1.json'' in
      and_then (expect (read_file shared)) (\<lambda>canonical.
      and_then (expect (read_file snapshot)) (\<lambda>vendored.
      assert_that (canonical = vendored))))"

definition key_record_and_public_hex_agree ::
  "test_lib \<Rightarrow> (string \<Rightarrow> u8 list option) \<Rightarrow> 'k dalek \<Rightarrow> json \<Rightarrow> (unit, unit) result" where
  "key_record_and_public_hex_agree L b64 d json =
     and_then (expect_str json ''key_record'') (\<lambda>content.
     and_then (unwrap (key_record_parse b64 d content)) (\<lambda>record.
     and_then (operator_key L d json) (\<lambda>key.
     assert_that (key_to_bytes d (kr_public_key record) = key_to_bytes d key))))"

definition configured_ineligible_prefix_rejects_source ::
  "test_lib \<Rightarrow> cbor_lib \<Rightarrow> json \<Rightarrow> (unit, unit) result" where
  "configured_ineligible_prefix_rejects_source L lib json =
     and_then (named_case json ''valid_in_prefix'') (\<lambda>entry.
     and_then (token_bytes L entry) (\<lambda>token.
     and_then (case_now entry) (\<lambda>now.
     and_then (test_addr ''2001:db8:f00:1234::a:1'') (\<lambda>inside.
     and_then (test_addr ''2001:db8:f00:abcd::1'') (\<lambda>elsewhere.
     and_then (test_prefix ''2001:db8:f00:1234::/64'') (\<lambda>configured.
     assert_all [parse_excluding lib token inside now [configured] = Err IneligibleSource,
       is_ok (parse_excluding lib token elsewhere now [configured]),
       is_ok (parse lib token inside now)]))))))"

section \<open>Authorization cases\<close>

definition authorization_outcome ::
  "json \<Rightarrow> (outcome, reason) result \<Rightarrow> (verified option, unit) result" where
  "authorization_outcome entry outcome =
     and_then (expect_str entry ''auth_result'') (\<lambda>want_result.
     case outcome of
       Ok o' \<Rightarrow>
         and_then (assert_that (outcome_auth_result o' = want_result)) (\<lambda>_.
         let testing = (case as_bool (json_at entry ''testing'') of Some b \<Rightarrow> b | None \<Rightarrow> False) in
         and_then (assert_that (case o' of Pass _ \<Rightarrow> \<not> testing | ObserveOnly _ \<Rightarrow> testing)) (\<lambda>_.
         Ok (Some (outcome_verified o'))))
     | Err reason \<Rightarrow>
         let got = (if reason \<in> {BadSignature, OffPrefix, Expired, NotYetValid} then ''fail'' else ''permerror'') in
         and_then (assert_that (got = want_result)) (\<lambda>_.
         and_then (case as_string (json_at entry ''expect'') of
             Some expected \<Rightarrow> assert_that (reason_str (Err reason :: (unit, reason) result) = expected)
           | None \<Rightarrow> Ok ()) (\<lambda>_.
         Ok None))
     | Panic \<Rightarrow> Panic)"

definition authorization_case ::
  "test_lib \<Rightarrow> cbor_lib \<Rightarrow> 'k dalek \<Rightarrow> 'k ed25519_public_key \<Rightarrow> json \<Rightarrow> (unit, unit) result" where
  "authorization_case L lib d key entry =
     and_then (expect_str entry ''name'') (\<lambda>_.
     and_then (token_bytes L entry) (\<lambda>token.
     and_then (case_source entry) (\<lambda>source.
     and_then (case_now entry) (\<lambda>now.
     and_then (expect_str entry ''policy_record'') (\<lambda>record.
     and_then (unwrap (policy_record_parse record)) (\<lambda>policy.
     and_then (settled (verify lib d token key policy source now)) (\<lambda>outcome.
     and_then (authorization_outcome entry outcome) (\<lambda>verified.
     case verified of
       None \<Rightarrow> Ok ()
     | Some v \<Rightarrow>
         and_then (expect_str entry ''operator'') (\<lambda>operator.
         and_then (assert_that (vf_operator v = operator)) (\<lambda>_.
         and_then (expect_str entry ''unit'') (\<lambda>unit.
         and_then (assert_that (prefix_display (vf_unit v) = unit)) (\<lambda>_.
         and_then (expect_str entry ''observed_unit'') (\<lambda>observed.
         assert_that (prefix_display (vf_observed_unit v) = observed))))))))))))))"

definition authorization_cases_match_vectors ::
  "test_lib \<Rightarrow> cbor_lib \<Rightarrow> 'k dalek \<Rightarrow> json \<Rightarrow> (unit, unit) result" where
  "authorization_cases_match_vectors L lib d json =
     and_then (operator_key L d json) (\<lambda>key.
     and_then (expect (as_array (json_at json ''authorization''))) (\<lambda>cases.
     and_then (assert_that (cases \<noteq> [])) (\<lambda>_.
     for_each (authorization_case L lib d key) cases)))"

section \<open>An excerpt of the vector file\<close>

text \<open>
  The members of \<open>v1.json\<close> that the scenarios read, every token case on the valid token, and all
  authorization and record cases.
\<close>

definition valid_b64url :: string where
  "valid_b64url =
     ''0oRYKaMBJwN4HGFwcGxpY2F0aW9uL3N3b3JuLXRva2VuK2Nib3IERTIwMjZhoFg8pgFybWFpbGVyLmV4YW1wbGUu'' @
     ''Y29tAlEgAQ24DwAAAAAAAAAAAAAAMAMYQAQaanikAAUaaniyEAZjbXRhWEDxqXKtfedv3j_5FVQtyhuerOz6ED1M'' @
     ''MY6KCz7AL9dvyAdvjMsaJdm-zelsM8dHR-zg36yzR5olqe56deWUaDAE''"

definition valid_b64std :: string where
  "valid_b64std =
     ''0oRYKaMBJwN4HGFwcGxpY2F0aW9uL3N3b3JuLXRva2VuK2Nib3IERTIwMjZhoFg8pgFybWFpbGVyLmV4YW1wbGUu'' @
     ''Y29tAlEgAQ24DwAAAAAAAAAAAAAAMAMYQAQaanikAAUaaniyEAZjbXRhWEDxqXKtfedv3j/5FVQtyhuerOz6ED1M'' @
     ''MY6KCz7AL9dvyAdvjMsaJdm+zelsM8dHR+zg36yzR5olqe56deWUaDAE''"

definition valid_hex :: string where
  "valid_hex =
     ''d2845829a3012703781c6170706c69636174696f6e2f73776f726e2d746f6b656e2b63626f72044532303236'' @
     ''61a0583ca601726d61696c65722e6578616d706c652e636f6d025120010db80f000000000000000000000030'' @
     ''031840041a6a78a400051a6a78b21006636d74615840f1a972ad7de76fde3ff915542dca1b9eacecfa103d4c'' @
     ''318e8a0b3ec02fd76fc8076f8ccb1a25d9becde96c33c74747ece0dfacb3479a25a9ee7a75e594683004''"

definition token_entry :: "string \<Rightarrow> string \<Rightarrow> int \<Rightarrow> (string \<times> json) list \<Rightarrow> json" where
  "token_entry name source now rest = JObject
     ([(''name'', JString name), (''token_b64url'', JString valid_b64url),
       (''token_b64std'', JString valid_b64std), (''token_hex'', JString valid_hex),
       (''source_ip'', JString source), (''now_unix'', JNumber now)] @ rest)"

definition token_entries :: "json list" where
  "token_entries =
     [token_entry ''valid_in_prefix'' ''2001:db8:f00:1234::a:1'' 1786293000
        [(''expect'', JString ''pass''), (''operator'', JString ''mailer.example.com''), (''unit'', JString ''2001:db8:f00:1234::/64'')],
      token_entry ''prefix_first_address'' ''2001:db8:f00::'' 1786293000
        [(''expect'', JString ''pass''), (''operator'', JString ''mailer.example.com''), (''unit'', JString ''2001:db8:f00::/64'')],
      token_entry ''prefix_last_address'' ''2001:db8:f00:ffff:ffff:ffff:ffff:ffff'' 1786293000
        [(''expect'', JString ''pass''), (''operator'', JString ''mailer.example.com''), (''unit'', JString ''2001:db8:f00:ffff::/64'')],
      token_entry ''iat_exact'' ''2001:db8:f00:1234::a:1'' 1786291200
        [(''expect'', JString ''pass'')],
      token_entry ''exp_exact'' ''2001:db8:f00:1234::a:1'' 1786294800
        [(''expect'', JString ''pass'')],
      token_entry ''skew_iat_minus_300'' ''2001:db8:f00:1234::a:1'' 1786290900
        [(''expect'', JString ''pass'')],
      token_entry ''skew_iat_minus_301'' ''2001:db8:f00:1234::a:1'' 1786290899
        [(''expect'', JString ''not_yet_valid'')],
      token_entry ''skew_exp_plus_300'' ''2001:db8:f00:1234::a:1'' 1786295100
        [(''expect'', JString ''pass'')],
      token_entry ''skew_exp_plus_301'' ''2001:db8:f00:1234::a:1'' 1786295101
        [(''expect'', JString ''expired'')],
      token_entry ''off_prefix_adjacent'' ''2001:db8:f01::a:1'' 1786293000
        [(''expect'', JString ''off_prefix'')],
      token_entry ''expired_and_off_prefix'' ''2001:db8:f01::a:1'' 1786298400
        [(''expect_any'', JArray [JString ''off_prefix'', JString ''expired''])],
      token_entry ''src_v4mapped'' ''::ffff:203.0.113.5'' 1786293000
        [(''expect'', JString ''ineligible_source'')],
      token_entry ''src_v4compat'' ''::203.0.113.5'' 1786293000
        [(''expect'', JString ''ineligible_source'')],
      token_entry ''src_nat64_wellknown'' ''64:ff9b::203.0.113.5'' 1786293000
        [(''expect'', JString ''ineligible_source'')],
      token_entry ''src_nat64_local'' ''64:ff9b:1::1'' 1786293000
        [(''expect'', JString ''ineligible_source'')],
      token_entry ''src_teredo'' ''2001::1'' 1786293000
        [(''expect_any'', JArray [JString ''ineligible_source'', JString ''off_prefix''])],
      token_entry ''src_6to4'' ''2002:c000:0204::1'' 1786293000
        [(''expect_any'', JArray [JString ''ineligible_source'', JString ''off_prefix''])],
      token_entry ''src_link_local'' ''fe80::1'' 1786293000
        [(''expect'', JString ''ineligible_source'')]]"

text \<open>The other token of the authorization cases: a /32 with a unit of 32.\<close>

definition coarse_b64url :: string where
  "coarse_b64url =
     ''0oRYKaMBJwN4HGFwcGxpY2F0aW9uL3N3b3JuLXRva2VuK2Nib3IERTIwMjZhoFg8pgFybWFpbGVyLmV4YW1wbGUu'' @
     ''Y29tAlEgAQ24AAAAAAAAAAAAAAAAIAMYIAQaanikAAUaaniyEAZjbXRhWEBGAwWwGA_pX-NzH-NNhLQ2M2tTJ-hl'' @
     ''qqxuEuvG5nR9k5ZR7yhWylkDc9t-Wy-NKgscsEr58yRTLsUx1PWi_SII''"

definition coarse_b64std :: string where
  "coarse_b64std =
     ''0oRYKaMBJwN4HGFwcGxpY2F0aW9uL3N3b3JuLXRva2VuK2Nib3IERTIwMjZhoFg8pgFybWFpbGVyLmV4YW1wbGUu'' @
     ''Y29tAlEgAQ24AAAAAAAAAAAAAAAAIAMYIAQaanikAAUaaniyEAZjbXRhWEBGAwWwGA/pX+NzH+NNhLQ2M2tTJ+hl'' @
     ''qqxuEuvG5nR9k5ZR7yhWylkDc9t+Wy+NKgscsEr58yRTLsUx1PWi/SII''"

definition coarse_hex :: string where
  "coarse_hex =
     ''d2845829a3012703781c6170706c69636174696f6e2f73776f726e2d746f6b656e2b63626f72044532303236'' @
     ''61a0583ca601726d61696c65722e6578616d706c652e636f6d025120010db800000000000000000000000020'' @
     ''031820041a6a78a400051a6a78b21006636d74615840460305b0180fe95fe3731fe34d84b436336b5327e865'' @
     ''aaac6e12ebc6e6747d939651ef2856ca590373db7e5b2f8d2a0b1cb04af9f324532ec531d4f5a2fd2208''"

definition coarse_entry :: json where
  "coarse_entry = JObject
     [(''name'', JString ''coarse_declared_unit_does_not_widen_observed''), (''token_b64url'', JString coarse_b64url),
      (''token_b64std'', JString coarse_b64std), (''token_hex'', JString coarse_hex),
      (''policy_record'', JString ''v=SWORN1; p=2001:db8::/32; u=32''), (''source_ip'', JString ''2001:db8:aaaa:bbbb::5''),
      (''now_unix'', JNumber 1786293000), (''auth_result'', JString ''pass''),
      (''operator'', JString ''mailer.example.com''), (''unit'', JString ''2001:db8::/32''),
      (''observed_unit'', JString ''2001:db8:aaaa:bbbb::/64'')]"

definition authorization_entries :: "json list" where
  "authorization_entries =
     [token_entry ''policy_authorizes_exact_prefix'' ''2001:db8:f00:1234::a:1'' 1786293000
        [(''policy_record'', JString ''v=SWORN1; p=2001:db8:f00::/48; u=64''), (''auth_result'', JString ''pass''),
         (''operator'', JString ''mailer.example.com''), (''unit'', JString ''2001:db8:f00:1234::/64''), (''observed_unit'', JString ''2001:db8:f00:1234::/64'')],
      token_entry ''policy_authorizes_broader_prefix'' ''2001:db8:f00:1234::a:1'' 1786293000
        [(''policy_record'', JString ''v=SWORN1; p=2001:db8::/32; u=64''), (''auth_result'', JString ''pass''),
         (''operator'', JString ''mailer.example.com''), (''unit'', JString ''2001:db8:f00:1234::/64''), (''observed_unit'', JString ''2001:db8:f00:1234::/64'')],
      token_entry ''policy_narrower_than_token_prefix'' ''2001:db8:f00:1234::a:1'' 1786293000
        [(''policy_record'', JString ''v=SWORN1; p=2001:db8:f00:1200::/56; u=64''), (''auth_result'', JString ''permerror''),
         (''expect'', JString ''unauthorized_prefix'')],
      token_entry ''policy_unrelated_prefix'' ''2001:db8:f00:1234::a:1'' 1786293000
        [(''policy_record'', JString ''v=SWORN1; p=2001:db8:bad::/48; u=64''), (''auth_result'', JString ''permerror''),
         (''expect'', JString ''unauthorized_prefix'')],
      token_entry ''policy_without_prefixes_authorizes_nothing'' ''2001:db8:f00:1234::a:1'' 1786293000
        [(''policy_record'', JString ''v=SWORN1; u=64''), (''auth_result'', JString ''permerror''),
         (''expect'', JString ''unauthorized_prefix'')],
      token_entry ''policy_unit_mismatch'' ''2001:db8:f00:1234::a:1'' 1786293000
        [(''policy_record'', JString ''v=SWORN1; p=2001:db8:f00::/48; u=56''), (''auth_result'', JString ''permerror''),
         (''expect'', JString ''policy_unit_mismatch'')],
      token_entry ''policy_default_unit_matches_token'' ''2001:db8:f00:1234::a:1'' 1786293000
        [(''policy_record'', JString ''v=SWORN1; p=2001:db8:f00::/48''), (''auth_result'', JString ''pass''),
         (''operator'', JString ''mailer.example.com''), (''unit'', JString ''2001:db8:f00:1234::/64''), (''observed_unit'', JString ''2001:db8:f00:1234::/64'')],
      token_entry ''testing_policy_is_none_not_pass'' ''2001:db8:f00:1234::a:1'' 1786293000
        [(''policy_record'', JString ''v=SWORN1; p=2001:db8:f00::/48; u=64; t=y''), (''auth_result'', JString ''none''),
         (''operator'', JString ''mailer.example.com''), (''unit'', JString ''2001:db8:f00:1234::/64''), (''observed_unit'', JString ''2001:db8:f00:1234::/64''), (''testing'', JBool True)],
      coarse_entry,
      token_entry ''local_failure_precedes_authorization'' ''2001:db8:bad::1'' 1786293000
        [(''policy_record'', JString ''v=SWORN1; p=2001:db8:f00::/48; u=64''), (''auth_result'', JString ''fail''),
         (''expect'', JString ''off_prefix'')]]"

definition record_entry :: "string \<Rightarrow> string \<Rightarrow> string \<Rightarrow> string \<Rightarrow> json" where
  "record_entry name kind content expected = JObject
     [(''name'', JString name), (''txt'', JString content), (''kind'', JString kind), (''expect'', JString expected)]"

definition record_entries :: "json list" where
  "record_entries =
     [record_entry ''key_record'' ''key''
        ''v=SWORN1; k=ed25519; pk=ebVWLo/mVPlAeLES6KmLp5AfhTrmlb7X4OORC60ElmQ='' ''ok'',
      record_entry ''key_legacy_selector_ignored'' ''key''
        ''v=SWORN1; k=ed25519; s=2026a; pk=ebVWLo/mVPlAeLES6KmLp5AfhTrmlb7X4OORC60ElmQ='' ''ok'',
      record_entry ''key_v_not_first'' ''key''
        ''k=ed25519; v=SWORN1; pk=ebVWLo/mVPlAeLES6KmLp5AfhTrmlb7X4OORC60ElmQ='' ''error'',
      record_entry ''key_unknown_version'' ''key''
        ''v=SWORN9; k=ed25519; pk=ebVWLo/mVPlAeLES6KmLp5AfhTrmlb7X4OORC60ElmQ='' ''error'',
      record_entry ''key_unknown_algorithm'' ''key''
        ''v=SWORN1; k=rsa; pk=ebVWLo/mVPlAeLES6KmLp5AfhTrmlb7X4OORC60ElmQ='' ''error'',
      record_entry ''key_garbage_key'' ''key''
        ''v=SWORN1; k=ed25519; pk=notbase64!!'' ''error'',
      record_entry ''key_duplicate_tag'' ''key''
        ''v=SWORN1; k=ed25519; pk=ebVWLo/mVPlAeLES6KmLp5AfhTrmlb7X4OORC60ElmQ=; pk=ebVWLo/mVPlAeLES6KmLp5AfhTrmlb7X4OORC60ElmQ='' ''error'',
      record_entry ''key_missing_key'' ''key''
        ''v=SWORN1; k=ed25519'' ''error'',
      record_entry ''policy_full'' ''policy''
        (''v=SWORN1; p=2001:db8:f00::/48; u=64; t=y; rua=mailto:a@b.example'') ''ok'',
      record_entry ''policy_multi_prefix'' ''policy''
        ''v=SWORN1; p=2001:db8:f00::/48,2620:12a:8000::/48'' ''ok'',
      record_entry ''policy_unit_over_64'' ''policy''
        ''v=SWORN1; p=2001:db8:f00::/48; u=128'' ''error'',
      record_entry ''policy_duplicate_tag'' ''policy''
        ''v=SWORN1; u=64; u=48'' ''error'',
      record_entry ''policy_prefix_out_of_range'' ''policy''
        ''v=SWORN1; p=2001:db8::/16'' ''error'',
      record_entry ''policy_v_not_first'' ''policy''
        ''u=64; v=SWORN1'' ''error'',
      record_entry ''policy_vertical_tab'' ''policy''
        (''v=SWORN1; p=2001:db8:f00::/48; x=a'' @ [CHR 0x0B] @ ''b'') ''error'',
      record_entry ''policy_form_feed'' ''policy''
        (''v=SWORN1; p=2001:db8:f00::/48; x=a'' @ [CHR 0x0C] @ ''b'') ''error'',
      record_entry ''policy_escape_byte'' ''policy''
        (''v=SWORN1; p=2001:db8:f00::/48; x=a'' @ [CHR 0x1B] @ ''b'') ''error'',
      record_entry ''policy_no_break_space'' ''policy''
        (''v=SWORN1; p=2001:db8:f00::/48; x=a'' @ [CHR 0xC2] @ [CHR 0xA0] @ ''b'') ''error'',
      record_entry ''policy_ideographic_space'' ''policy''
        (''v=SWORN1; p=2001:db8:f00::/48; x=a'' @ [CHR 0xE3] @ [CHR 0x80] @ [CHR 0x80] @ ''b'') ''error'',
      record_entry ''policy_trailing_no_break_space'' ''policy''
        (''v=SWORN1; p=2001:db8:f00::/48; u=64'' @ [CHR 0xC2] @ [CHR 0xA0]) ''error'',
      record_entry ''policy_space_in_value'' ''policy''
        ''v=SWORN1; p=2001:db8:f00::/48; x=a b'' ''error'',
      record_entry ''policy_tab_in_value'' ''policy''
        (''v=SWORN1; p=2001:db8:f00::/48; x=a'' @ [CHR 0x09] @ ''b'') ''error'',
      record_entry ''policy_tab_between_tags'' ''policy''
        (''v=SWORN1;'' @ [CHR 0x09] @ ''p=2001:db8:f00::/48'') ''ok'',
      record_entry ''policy_tab_around_value'' ''policy''
        (''v=SWORN1; p='' @ [CHR 0x09] @ ''2001:db8:f00::/48'' @ [CHR 0x09]) ''ok'',
      record_entry ''policy_trailing_comma'' ''policy''
        ''v=SWORN1; p=2001:db8:f00::/48,'' ''ok'',
      record_entry ''policy_leading_comma'' ''policy''
        ''v=SWORN1; p=,2001:db8:f00::/48'' ''ok'',
      record_entry ''policy_double_comma'' ''policy''
        ''v=SWORN1; p=2001:db8:f00::/48,,2001:db8:f01::/48'' ''ok'',
      record_entry ''key_not_a_curve_point'' ''key''
        ''v=SWORN1; k=ed25519; pk=AgAAAAAAAAAAAAAAAAAAAAAAAAAAAAAAAAAAAAAAAAA='' ''error'',
      record_entry ''key_noncanonical_y_accepted'' ''key''
        ''v=SWORN1; k=ed25519; pk=8P///////////////////////////////////////38='' ''ok'',
      record_entry ''key_x0_sign_bit_accepted'' ''key''
        ''v=SWORN1; k=ed25519; pk=AQAAAAAAAAAAAAAAAAAAAAAAAAAAAAAAAAAAAAAAAIA='' ''ok'',
      record_entry ''policy_unit_plus_sign'' ''policy''
        ''v=SWORN1; p=2001:db8:f00::/48; u=+64'' ''error'',
      record_entry ''policy_unit_leading_zero'' ''policy''
        ''v=SWORN1; p=2001:db8:f00::/48; u=064'' ''error'',
      record_entry ''policy_prefix_len_leading_zero'' ''policy''
        ''v=SWORN1; p=2001:db8:f00::/048'' ''error'',
      record_entry ''policy_prefix_len_plus_sign'' ''policy''
        ''v=SWORN1; p=2001:db8:f00::/+48'' ''error'',
      record_entry ''policy_empty_tag_name'' ''policy''
        ''v=SWORN1; p=2001:db8:f00::/48; =x'' ''error'',
      record_entry ''policy_dotted_quad_before_gap'' ''policy''
        ''v=SWORN1; p=32.1.13.184::/32'' ''error'',
      record_entry ''policy_uppercase_hex_prefix'' ''policy''
        ''v=SWORN1; p=2001:DB8:F00::/48'' ''ok'',
      record_entry ''policy_uncompressed_prefix'' ''policy''
        ''v=SWORN1; p=2001:db8:f00:0:0:0:0:0/48'' ''ok'',
      record_entry ''key_pk_noncanonical_base64'' ''key''
        ''v=SWORN1; k=ed25519; pk=ebVWLo/mVPlAeLES6KmLp5AfhTrmlb7X4OORC60ElmR='' ''error'']"

definition vector_file :: json where
  "vector_file = JObject
     [(''spec'', JString ''draft-kafedzhy-swornmail-01''),
      (''ed25519_public_hex'', JString ''79b5562e8fe654f94078b112e8a98ba7901f853ae695bed7e0e3910bad049664''),
      (''key_record_qname'', JString ''2026a._sworn.mailer.example.com''),
      (''key_record'', JString ''v=SWORN1; k=ed25519; pk=ebVWLo/mVPlAeLES6KmLp5AfhTrmlb7X4OORC60ElmQ=''),
      (''policy_record_qname'', JString ''_prefixes._sworn.mailer.example.com''),
      (''policy_record'', JString ''v=SWORN1; p=2001:db8:f00::/48; u=64''),
      (''cases'', JArray token_entries), (''records'', JArray record_entries),
      (''authorization'', JArray authorization_entries)]"

section \<open>The harness on the excerpt\<close>

definition coarse_claim_bytes :: "nat list" where
  "coarse_claim_bytes = doc_payload_bytes[27 := 0, 39 := 32, 42 := 32]"

definition coarse_signature :: "u8 list" where
  "coarse_signature = map of_nat
     [70, 3, 5, 176, 24, 15, 233, 95, 227, 115, 31, 227, 77, 132, 180, 54, 51, 107, 83,
      39, 232, 101, 170, 172, 110, 18, 235, 198, 230, 116, 125, 147, 150, 81, 239, 40,
      86, 202, 89, 3, 115, 219, 126, 91, 47, 141, 42, 11, 28, 176, 74, 249, 243, 36, 83,
      46, 197, 49, 212, 245, 162, 253, 34, 8]"

definition coarse_token :: "u8 list" where
  "coarse_token = map of_nat ([210, 132, 88, 41] @ doc_protected_bytes @ [160, 88, 60] @ coarse_claim_bytes @ [88, 64]) @
     coarse_signature"

definition coarse_tbs :: "u8 list" where
  "coarse_tbs = map of_nat
     (132 # 106 # map code ''Signature1'' @ [88, 41] @ doc_protected_bytes @ [64, 88, 60] @ coarse_claim_bytes)"

text \<open>
  The libraries of the harness as concrete functions. The curve library is that of the witnesses,
  except that it refuses the one encoding among the record cases that is no point, and accepts the
  signature of the second token too.
\<close>

definition url_safe_decode :: "string \<Rightarrow> u8 list option" where
  "url_safe_decode s =
     (if list_ex (\<lambda>c. c \<in> set ''+/='') s then None
      else base64_decode (map (\<lambda>c. if c = CHR ''-'' then CHR ''+'' else if c = CHR ''_'' then CHR ''/'' else c) s
        @ replicate ((4 - length s mod 4) mod 4) CHR ''=''))"

definition example_tests :: test_lib where
  "example_tests = \<lparr>tl_hex_decode = hex_decode, tl_hex_encode = (\<lambda>bs. concat (map hex_byte bs)),
     tl_url_safe = url_safe_decode, tl_standard = base64_decode\<rparr>"

definition vector_dalek :: "u8 list dalek" where
  "vector_dalek = example_dalek\<lparr>vk_from_bytes := (\<lambda>raw. if raw = 2 # replicate 31 0 then None else Some raw),
     vk_verify_strict := (\<lambda>k m s. k = doc_key_bytes \<and>
       (m, s) \<in> set [(doc_tbs, doc_signature), (coarse_tbs, coarse_signature)])\<rparr>"

lemma valid_token_encodings:
  "url_safe_decode valid_b64url = Some doc_token"
  "base64_decode valid_b64std = Some doc_token"
  "concat (map hex_byte doc_token) = valid_hex"
  by code_simp+

lemma coarse_case: "authorization_case example_tests example_lib vector_dalek doc_key coarse_entry = Ok ()"
  by code_simp

lemma json_members [simp]:
  "json_get (JObject ((k, v) # ms)) k' = (if k' = k then Some v else json_get (JObject ms) k')"
  "json_get (JObject []) k' = None"
  by simp_all

lemma token_entry_members:
  "json_get (token_entry name source now rest) key =
     (if key = ''name'' then Some (JString name)
      else if key = ''token_b64url'' then Some (JString valid_b64url)
      else if key = ''token_b64std'' then Some (JString valid_b64std)
      else if key = ''token_hex'' then Some (JString valid_hex)
      else if key = ''source_ip'' then Some (JString source)
      else if key = ''now_unix'' then Some (JNumber now)
      else json_get (JObject rest) key)"
  by (simp add: token_entry_def)

lemma token_entry_bytes [simp]: "token_bytes example_tests (token_entry name source now rest) = Ok doc_token"
  by (simp add: token_bytes_def expect_str_def json_at_def token_entry_members example_tests_def
      valid_token_encodings assert_that_def)

lemma token_entry_fields [simp]:
  "expect_str (token_entry name source now rest) ''name'' = Ok name"
  "case_source (token_entry name source now rest) = expect (parse_ipv6 source)"
  "case_now (token_entry name source now rest) = expect (as_i64 (JNumber now))"
  by (simp_all add: expect_str_def json_at_def token_entry_members case_source_def case_now_def)

lemma vector_key:
  "operator_key example_tests vector_dalek vector_file = Ok doc_key"
  by code_simp

lemma vector_key_verify:
  "key_verify vector_dalek doc_key (uv_to_be_signed doc_unverified) (uv_signature doc_unverified)"
  using doc_key_verify by (simp add: key_verify_iff vector_dalek_def) (simp add: example_dalek_def doc_unverified_def)

lemma edge_units:
  "prefix_display (source_unit 0x20010db80f0000000000000000000000 64) = ''2001:db8:f00::/64''"
  "prefix_display (source_unit 0x20010db80f00ffffffffffffffffffff 64) = ''2001:db8:f00:ffff::/64''"
  by code_simp+

lemma valid_token_verdict:
  "verify_signature_only example_lib vector_dalek doc_token doc_key source now =
     (if \<not> is_eligible_source source then Err IneligibleSource
      else if sint now < 0x6a78a400 - 300 then Err NotYetValid
      else if 0x6a78b210 + 300 < sint now then Err Expired
      else if \<not> contains doc_prefix source then Err OffPrefix
      else Ok (verified_of (doc_unverified\<lparr>uv_unit := source_unit source 64,
             uv_observed_unit := source_unit source 64\<rparr>) False None))"
  using vector_key_verify
  by (simp add: verify_signature_only_def parse_def doc_parse_eval unverified_verify_signature_only_def
      finish_signature_def verified_of_def)

lemma token_entries_agree:
  "for_each (token_case example_tests example_lib vector_dalek doc_key) token_entries = Ok ()"
  by (simp add: token_entries_def token_case_def source_texts embedded_ipv4_texts special_address_texts
      ordinary_address_text token_case_key_def reason_expected_def member_agrees_def token_entry_members
      assert_that_def valid_token_verdict is_eligible_source_code contains_code doc_prefix_def PASS_def
      verified_of_def doc_unverified_def doc_payload_def edge_units)


text \<open>All record cases of the file.\<close>

lemma record_entries_1:
  "for_each (record_case base64_decode vector_dalek) (take 10 record_entries) = Ok ()"
  by code_simp

lemma record_entries_2:
  "for_each (record_case base64_decode vector_dalek) (take 10 (drop 10 record_entries)) = Ok ()"
  by code_simp

lemma record_entries_3:
  "for_each (record_case base64_decode vector_dalek) (take 10 (drop 20 record_entries)) = Ok ()"
  by code_simp

lemma record_entries_4:
  "for_each (record_case base64_decode vector_dalek) (drop 30 record_entries) = Ok ()"
  by code_simp

lemma for_each_append: "for_each f (xs @ ys) = and_then (for_each f xs) (\<lambda>_. for_each f ys)"
  by (induction xs) (simp_all add: and_then_assoc)

lemma for_each_chunk:
  assumes "for_each f (take n xs) = Ok ()" and "for_each f (drop n xs) = Ok ()"
  shows "for_each f xs = Ok ()"
proof -
  have "for_each f (take n xs @ drop n xs) = Ok ()" unfolding for_each_append using assms by simp
  then show ?thesis by simp
qed

lemma record_cases_pass: "record_cases_match_vectors base64_decode vector_dalek vector_file = Ok ()"
proof -
  have "for_each (record_case base64_decode vector_dalek) (drop 20 record_entries) = Ok ()"
    by (rule for_each_chunk [OF record_entries_3]) (simp add: record_entries_4)
  then have "for_each (record_case base64_decode vector_dalek) (drop 10 record_entries) = Ok ()"
    by (intro for_each_chunk [OF record_entries_2]) simp
  then have "for_each (record_case base64_decode vector_dalek) record_entries = Ok ()"
    by (rule for_each_chunk [OF record_entries_1])
  moreover have "length record_entries = 39" by code_simp
  moreover have "as_array (json_at vector_file ''records'') = Some record_entries"
    by (simp add: vector_file_def json_at_def)
  ultimately show ?thesis by (simp add: record_cases_match_vectors_def assert_that_def)
qed

lemma vector_file_members:
  "expect_str vector_file ''policy_record'' = Ok ''v=SWORN1; p=2001:db8:f00::/48; u=64''"
  "expect_str vector_file ''policy_record_qname'' = Ok ''_prefixes._sworn.mailer.example.com''"
  "expect_str vector_file ''key_record_qname'' = Ok ''2026a._sworn.mailer.example.com''"
  "json_at vector_file ''authorization'' = JArray authorization_entries"
  by (simp_all add: vector_file_def json_at_def expect_str_def)

lemma authorization_cases_pass:
  "authorization_cases_match_vectors example_tests example_lib vector_dalek vector_file = Ok ()"
proof -
  note unfold = authorization_case_def [of example_tests example_lib vector_dalek doc_key
      "token_entry name source now rest" for name source now rest]
  have "for_each (authorization_case example_tests example_lib vector_dalek doc_key) authorization_entries = Ok ()"
    using vector_key_verify
    by (simp add: authorization_entries_def unfold authorization_outcome_def expect_str_def
        json_at_def token_entry_members assert_that_def ordinary_address_text outside_source_text
        committed_policies other_policies evaluation coarse_case Let_def)
  then show ?thesis
    by (simp add: authorization_cases_match_vectors_def vector_key vector_file_members assert_that_def)
      (simp add: authorization_entries_def)
qed

lemma valid_case: "named_case vector_file ''valid_in_prefix'' = Ok (hd token_entries)"
  by (simp add: named_case_def vector_file_def json_at_def token_entries_def token_entry_members)

lemma valid_case_fields:
  "token_bytes example_tests (hd token_entries) = Ok doc_token"
  "case_source (hd token_entries) = Ok doc_source"
  "case_now (hd token_entries) = Ok doc_now"
  "expect_str (hd token_entries) ''unit'' = Ok ''2001:db8:f00:1234::/64''"
  by (simp_all add: token_entries_def ordinary_address_text doc_source_def doc_now_def expect_str_def
      json_at_def token_entry_members)

lemmas scenario = valid_case valid_case_fields vector_key vector_file_members
  assert_that_def assert_all_def

lemma two_phase_flow_passes:
  "two_phase_flow_names_the_key_record example_tests example_lib vector_dalek vector_file = Ok ()"
  using vector_key_verify
  by (simp add: two_phase_flow_names_the_key_record_def scenario committed_policies evaluation
      doc_source_def doc_now_def authorized_operator_def authorized_selector_def
      unverified_operator_def unverified_selector_def)

lemma policy_authorization_passes:
  "policy_authorization_blocks_key_only_impersonation example_tests example_lib vector_file = Ok ()"
  by (simp add: policy_authorization_blocks_key_only_impersonation_def scenario other_policies evaluation
      doc_source_def doc_now_def)

lemma testing_policy_passes:
  "testing_policy_can_never_be_reported_as_pass example_tests example_lib vector_dalek vector_file = Ok ()"
  using vector_key_verify
  by (simp add: testing_policy_can_never_be_reported_as_pass_def scenario reported_policy evaluation
      doc_source_def doc_now_def)

lemma a_coarse_declared_unit_passes:
  "a_coarse_declared_unit_does_not_widen_the_observed_unit example_tests example_lib vector_dalek vector_file
     = Ok ()"
  using vector_key_verify
  by (simp add: a_coarse_declared_unit_does_not_widen_the_observed_unit_def scenario committed_policies
      evaluation doc_source_def doc_now_def OBSERVED_UNIT_LEN_def)

lemma configured_ineligible_prefix_passes:
  "configured_ineligible_prefix_rejects_source example_tests example_lib vector_file = Ok ()"
  by (simp add: configured_ineligible_prefix_rejects_source_def scenario configured_texts test_addr_def
      test_prefix_def ordinary_address_text evaluation doc_now_def)

lemma key_record_and_public_hex_agree_passes:
  "key_record_and_public_hex_agree example_tests base64_decode vector_dalek vector_file = Ok ()"
  by code_simp

lemma vectors_accepted:
  "vectors (\<lambda>_. Some content) (\<lambda>_. Some vector_file) path = Ok vector_file"
  by (simp add: vectors_def vector_file_def json_at_def SPEC_def assert_that_def)

text \<open>The frozen vectors agree with the definitions: on the excerpt of the vector file, with the codec
  and base64 decoder of the witnesses and a curve library that knows the published key and the two
  signatures, every token case on the valid token, every
  record case, every authorization case and every scenario of the test harness passes.\<close>

lemma conforms_to_vectors:
  "for_each (token_case example_tests example_lib vector_dalek doc_key) token_entries = Ok () \<and>
   record_cases_match_vectors base64_decode vector_dalek vector_file = Ok () \<and>
   authorization_cases_match_vectors example_tests example_lib vector_dalek vector_file = Ok () \<and>
   two_phase_flow_names_the_key_record example_tests example_lib vector_dalek vector_file = Ok () \<and>
   policy_authorization_blocks_key_only_impersonation example_tests example_lib vector_file = Ok () \<and>
   testing_policy_can_never_be_reported_as_pass example_tests example_lib vector_dalek vector_file = Ok () \<and>
   a_coarse_declared_unit_does_not_widen_the_observed_unit example_tests example_lib vector_dalek vector_file
     = Ok () \<and>
   configured_ineligible_prefix_rejects_source example_tests example_lib vector_file = Ok () \<and>
   key_record_and_public_hex_agree example_tests base64_decode vector_dalek vector_file = Ok ()"
  by (intro conjI token_entries_agree record_cases_pass authorization_cases_pass two_phase_flow_passes
      policy_authorization_passes testing_policy_passes a_coarse_declared_unit_passes
      configured_ineligible_prefix_passes key_record_and_public_hex_agree_passes)

end
