(* ===== verification/Sworn_Stability.thy ===== *)
theory Sworn_Stability
  imports Sworn_Vectors
begin

text \<open>
  How a verdict depends on its circumstances: on the source, only through its /64; on the time,
  through three phases of a token's life; on the policy, only through the space it covers. These
  are consequences of the specification of the local checks and of complete verification
  (theory \<open>Sworn_Token\<close>).
\<close>

section \<open>Where the sender sits in its /64\<close>

lemma contains_same_64:
  assumes "mask_addr a 64 = mask_addr b 64" and "pfx_len p \<le> 64"
  shows "contains p a \<longleftrightarrow> contains p b"
  using ip.msk_coarser [OF assms] by (simp add: contains_def)

lemma eligible_same_64:
  assumes "mask_addr a 64 = mask_addr b 64"
  shows "is_eligible_source a \<longleftrightarrow> is_eligible_source b"
  by (simp add: eligible_cases contains_same_64 [OF assms])

lemma source_unit_same_64:
  "mask_addr a 64 = mask_addr b 64 \<Longrightarrow> l \<le> 64 \<Longrightarrow> source_unit a l = source_unit b l"
  using ip.msk_coarser [of a 64 b l] by (simp add: source_unit_def)

lemma token_check_payload_ok: "token_check lib token = Ok (c, sel, p) \<Longrightarrow> payload_ok p"
  unfolding token_check_iff signed_payload_def using payload_from_value_ok by blast

lemma payload_lens: "payload_ok p \<Longrightarrow> pfx_len (pl_prefix p) \<le> 64 \<and> pl_unit p \<le> 64"
  using attestable_len by (simp add: payload_ok_def word_le_nat_alt)

lemma context_checks_same_64:
  assumes "mask_addr a 64 = mask_addr b 64" and "list_all (\<lambda>r. pfx_len r \<le> 64) inel" and "payload_ok p"
  shows "context_checks a now inel p = context_checks b now inel p"
proof -
  have "a \<in> prefix_set r \<longleftrightarrow> b \<in> prefix_set r" if "r \<in> set inel" for r
    using that assms(2) contains_same_64 [OF assms(1)] by (simp add: prefix_set_def list_all_iff)
  moreover have "a \<in> prefix_set (pl_prefix p) \<longleftrightarrow> b \<in> prefix_set (pl_prefix p)"
    using payload_lens [OF assms(3)] contains_same_64 [OF assms(1)] by (simp add: prefix_set_def)
  ultimately show ?thesis
    unfolding context_checks_def eligible_same_64 [OF assms(1)] by (simp cong: bex_cong)
qed

lemma parse_same_64:
  assumes "mask_addr a 64 = mask_addr b 64" and "list_all (\<lambda>r. pfx_len r \<le> 64) inel"
  shows "parse_excluding lib token a now inel = parse_excluding lib token b now inel"
proof (cases "token_check lib token")
  case (Ok r)
  obtain c sel p where r: "r = (c, sel, p)" by (cases r)
  have p: "payload_ok p" using Ok r token_check_payload_ok by blast
  have "admit lib a r = admit lib b r"
    using source_unit_same_64 [OF assms(1)] payload_lens [OF p] by (simp add: admit_def r)
  then show ?thesis
    by (simp add: parse_excluding_halves Ok r context_checks_same_64 [OF assms p] split: option.split)
qed (simp_all add: parse_excluding_halves)

text \<open>C12: A sender cannot change a verdict by moving within its /64: two sources with the same first 64
  bits get the same result for every token, time, key and policy, the same reason when refused and
  the same units when accepted, as long as the receiver's own ranges are no longer than /64.\<close>

theorem verdict_same_64:
  assumes "mask_addr source 64 = mask_addr source' 64" and "list_all (\<lambda>r. pfx_len r \<le> 64) inel"
  shows "parse_excluding lib token source now inel = parse_excluding lib token source' now inel \<and>
    verify lib d token key policy source now = verify lib d token key policy source' now"
  using parse_same_64 [OF assms] parse_same_64 [OF assms(1), of "[]"]
  by (simp add: verify_def parse_def)

section \<open>The life of a token\<close>

text \<open>C13: What time does to a token: one that passes the local checks at some time is not yet valid
  before its window, passes with the same result throughout it, and is expired for ever after;
  the window reaches 300 seconds beyond the signed times on either side.\<close>

theorem token_lifecycle:
  assumes "parse_excluding lib token source now inel = Ok u"
  shows "parse_excluding lib token source t inel =
    (if sint t < uint (pl_iat (uv_payload u)) - 300 then Err NotYetValid
     else if uint (pl_exp (uv_payload u)) + 300 < sint t then Err Expired
     else Ok u)"
proof -
  from assms obtain c sel p where r: "token_check lib token = Ok (c, sel, p)"
    and f: "first_reason (context_checks source now inel p) = None"
    and a: "admit lib source (c, sel, p) = Ok u"
    by (auto simp: parse_excluding_halves and_then_Ok_iff split: option.splits)
  have "uv_payload u = p" using a by (auto simp: admit_def and_then_Ok_iff)
  then show ?thesis
    using f a by (auto simp: parse_excluding_halves r context_checks_def split: if_splits)
qed

section \<open>What a policy says\<close>

text \<open>A policy covers another when everything the other lists lies in something it lists.\<close>

definition covers :: "policy_record \<Rightarrow> policy_record \<Rightarrow> bool" where
  "covers policy' policy \<longleftrightarrow>
     (\<forall>q\<in>set (pol_prefixes policy). is_attestable q \<longrightarrow>
        (\<exists>q'\<in>set (pol_prefixes policy'). is_attestable q' \<and> prefix_set q \<subseteq> prefix_set q'))"

lemma covers_authorizes: "covers policy' policy \<Longrightarrow> authorizes policy p \<Longrightarrow> authorizes policy' p"
  unfolding authorizes_subset covers_def by (meson order_trans)

lemma covers_refl: "covers policy policy"
  by (auto simp: covers_def)

lemma covers_trans: "covers p q \<Longrightarrow> covers q r \<Longrightarrow> covers p r"
  unfolding covers_def by (meson order_trans)

text \<open>C14: Only the space a policy covers counts: a policy that covers another, with the same unit, flag
  and destination, gives every success the other gives, so adding prefixes, listing a broader one
  instead or listing one twice revokes nothing; and policies that cover each other, as with their
  entries in another order, give the same verdict on every token, refusals included.\<close>

theorem policy_is_its_coverage:
  assumes "covers policy' policy" and "pol_unit policy' = pol_unit policy"
    and "pol_testing policy' = pol_testing policy" and "pol_rua policy' = pol_rua policy"
  shows "(verify lib d token key policy source now = Ok out \<longrightarrow>
      verify lib d token key policy' source now = Ok out) \<and>
    (covers policy policy' \<longrightarrow>
      verify lib d token key policy source now = verify lib d token key policy' source now)"
proof (intro conjI impI)
  assume "verify lib d token key policy source now = Ok out"
  then show "verify lib d token key policy' source now = Ok out"
    using covers_authorizes [OF assms(1)] assms(2-4) by (auto simp: verify_Ok_iff authorized_by_def)
next
  assume "covers policy policy'"
  then have "authorizes policy p = authorizes policy' p" for p
    using covers_authorizes assms(1) by blast
  then have "authorize u policy = authorize u policy'" for u
    using assms(2-4) by (simp add: authorize_def)
  then show "verify lib d token key policy source now = verify lib d token key policy' source now"
    by (simp add: verify_def)
qed

section \<open>Samples\<close>

lemma verdict_same_64_witness:
  "parse_excluding example_lib doc_token 0x20010db80f0012340123456789abcdef doc_now [] = Ok doc_unverified"
proof -
  have "mask_addr 0x20010db80f0012340123456789abcdef 64 = mask_addr doc_source 64" by code_simp
  from conjunct1 [OF verdict_same_64 [OF this, of "[]"]] show ?thesis using doc_parse_lib by simp
qed

lemma token_lifecycle_witness:
  "parse_excluding example_lib doc_token doc_source 0 [] = Err NotYetValid"
  using token_lifecycle [OF doc_parse_lib [of example_lib], of 0]
  by (simp add: doc_unverified_def doc_payload_def)

lemma policy_is_its_coverage_witness:
  "verify example_lib example_dalek doc_token doc_key
     (doc_policy\<lparr>pol_prefixes := [GLOBAL_UNICAST, doc_prefix, doc_prefix]\<rparr>) doc_source doc_now =
   Ok (Pass doc_verified)"
proof -
  have "covers (doc_policy\<lparr>pol_prefixes := [GLOBAL_UNICAST, doc_prefix, doc_prefix]\<rparr>) doc_policy"
    by (auto simp: covers_def doc_policy_def)
  from policy_is_its_coverage [OF this, of example_lib example_dalek doc_token doc_key doc_source doc_now
      "Pass doc_verified"]
  show ?thesis using doc_verify by simp
qed

end
